(* ===== verification/Go_Base.thy ===== *)
theory Go_Base
imports Main "HOL-Library.Char_ord" "HOL-Library.List_Lexorder" "HOL-Library.Sublist" "HOL-Library.AList"
begin

text \<open>
  The prelude: what the model uses of Go and of its standard library, shared by every component.

  \<^item> Go strings are byte strings (\<open>string\<close>, a list of 8-bit characters).
  \<^item> Go errors are the datatype \<open>go_error\<close>: \<open>Errorf\<close> is \<open>fmt.Errorf\<close> with no \<open>%w\<close>, \<open>Wrapf\<close> and
    \<open>Wrapf2\<close> keep the wrapped error (\<open>%w\<close>) between the text around it, and \<open>Dep\<close> is an error a
    dependency returned, with the typed part the code asks for through \<open>errors.As\<close>.
  \<^item> A Go function that returns \<open>(value, error)\<close> and talks to services is an action: it takes the
    state of the outside world and returns a \<open>result\<close> and the new state. The world has an abstract
    type: the services (AWS, OpenBao, Postgres, hilt, sprue, the chain) are parameters of the model.
    An action that fails keeps the effects it had already caused.
  \<^item> \<open>Hang\<close> is a call that never returns a value: a loop that ran out of the fuel the model gives
    it, or a Go panic (\<open>panicE\<close>).
\<close>

named_theorems act_simps "equations of the action combinators"
named_theorems act_iff "inversion of actions that returned"
named_theorems wp_simps "weakest preconditions of the action combinators and operations"

section \<open>Errors and results\<close>

text \<open>The typed errors of the dependencies the code tests for (\<open>errors.As\<close>, \<open>errors.Is\<close>).\<close>

datatype dep_error =
    ParameterNotFound
  | ParameterAlreadyExists
  | ResourceNotFoundException
  | ResourceExistsException
  | PgError string
  | ErrNoRows
  | ResponseError nat "string list"
  | Untyped

datatype go_error =
    Errorf string
  | Wrapf string go_error string
  | Wrapf2 string go_error string go_error string
  | Dep dep_error string

text \<open>\<open>err.Error()\<close>.\<close>

primrec err_text :: "go_error \<Rightarrow> string" where
  "err_text (Errorf s) = s"
| "err_text (Wrapf pre e post) = pre @ err_text e @ post"
| "err_text (Wrapf2 pre e mid e' post) = pre @ err_text e @ mid @ err_text e' @ post"
| "err_text (Dep k s) = s"

text \<open>The typed errors in an error's tree, depth first, which is the order \<open>errors.As\<close> visits.\<close>

primrec err_deps :: "go_error \<Rightarrow> dep_error list" where
  "err_deps (Errorf s) = []"
| "err_deps (Wrapf pre e post) = err_deps e"
| "err_deps (Wrapf2 pre e mid e' post) = err_deps e @ err_deps e'"
| "err_deps (Dep k s) = [k]"

abbreviation wrap :: "string \<Rightarrow> go_error \<Rightarrow> go_error" where
  "wrap pre e \<equiv> Wrapf pre e []"

datatype 'a result = Ok 'a | Fail go_error | Hang

type_synonym ('w, 'a) act = "'w \<Rightarrow> 'a result \<times> 'w"

section \<open>Actions\<close>

definition returnE :: "'a \<Rightarrow> ('w, 'a) act" where
  "returnE a w = (Ok a, w)"

definition failE :: "go_error \<Rightarrow> ('w, 'a) act" where
  "failE e w = (Fail e, w)"

definition hangE :: "('w, 'a) act" where
  "hangE w = (Hang, w)"

text \<open>A runtime panic, such as an index out of range: nothing after it runs.\<close>

abbreviation panicE :: "('w, 'a) act" where
  "panicE \<equiv> hangE"

text \<open>Sequencing: \<open>v, err := m(); if err != nil { return err }; ...\<close>.\<close>

definition bindE :: "('w, 'a) act \<Rightarrow> ('a \<Rightarrow> ('w, 'b) act) \<Rightarrow> ('w, 'b) act" where
  "bindE m f w =
     (case m w of
        (Ok a, w') \<Rightarrow> f a w'
      | (Fail e, w') \<Rightarrow> (Fail e, w')
      | (Hang, w') \<Rightarrow> (Hang, w'))"

definition thenE :: "('w, 'a) act \<Rightarrow> ('w, 'b) act \<Rightarrow> ('w, 'b) act" where
  "thenE m k = bindE m (\<lambda>_. k)"

text \<open>\<open>if err != nil { return fmt.Errorf("...", err) }\<close>: the error is rewritten on its way out.\<close>

definition mapErr :: "(go_error \<Rightarrow> go_error) \<Rightarrow> ('w, 'a) act \<Rightarrow> ('w, 'a) act" where
  "mapErr g m w =
     (case m w of
        (Ok a, w') \<Rightarrow> (Ok a, w')
      | (Fail e, w') \<Rightarrow> (Fail (g e), w')
      | (Hang, w') \<Rightarrow> (Hang, w'))"

text \<open>A call whose error the code inspects: the error is handed to the handler.\<close>

definition catchE :: "('w, 'a) act \<Rightarrow> (go_error \<Rightarrow> ('w, 'a) act) \<Rightarrow> ('w, 'a) act" where
  "catchE m h w =
     (case m w of
        (Ok a, w') \<Rightarrow> (Ok a, w')
      | (Fail e, w') \<Rightarrow> h e w'
      | (Hang, w') \<Rightarrow> (Hang, w'))"

text \<open>Go's \<open>v, err := m()\<close> without an early return: both outcomes are values.\<close>

definition tryE :: "('w, 'a) act \<Rightarrow> ('w, go_error + 'a) act" where
  "tryE m w =
     (case m w of
        (Ok a, w') \<Rightarrow> (Ok (Inr a), w')
      | (Fail e, w') \<Rightarrow> (Ok (Inl e), w')
      | (Hang, w') \<Rightarrow> (Hang, w'))"

text \<open>A pure function that can fail, as an action.\<close>

definition liftE :: "'a result \<Rightarrow> ('w, 'a) act" where
  "liftE r w = (r, w)"

definition guardE :: "bool \<Rightarrow> go_error \<Rightarrow> ('w, unit) act" where
  "guardE b e = (if b then returnE () else failE e)"

text \<open>A pure call that can fail, with its error wrapped.\<close>

definition parseE :: "string \<Rightarrow> go_error + 'a \<Rightarrow> ('w, 'a) act" where
  "parseE pre r = (case r of Inl err \<Rightarrow> failE (wrap pre err) | Inr a \<Rightarrow> returnE a)"

text \<open>The same, with the error as it is.\<close>

definition sumE :: "go_error + 'a \<Rightarrow> ('w, 'a) act" where
  "sumE r = (case r of Inl err \<Rightarrow> failE err | Inr a \<Rightarrow> returnE a)"

text \<open>\<open>defer close()\<close>, and a \<open>close()\<close> before every error return, of a call that cannot fail.\<close>

definition deferE :: "('w \<Rightarrow> 'w) \<Rightarrow> ('w, 'a) act \<Rightarrow> ('w, 'a) act" where
  "deferE close m w = (let (r, w') = m w in (r, close w'))"

definition closeOnErr :: "('w \<Rightarrow> 'w) \<Rightarrow> ('w, 'a) act \<Rightarrow> ('w, 'a) act" where
  "closeOnErr close m w =
     (case m w of
        (Ok a, w') \<Rightarrow> (Ok a, w')
      | (Fail e, w') \<Rightarrow> (Fail e, close w')
      | (Hang, w') \<Rightarrow> (Hang, w'))"

text \<open>\<open>for _, x := range xs { acc = ... }\<close> with early returns.\<close>

primrec foldE :: "('a \<Rightarrow> 'b \<Rightarrow> ('w, 'b) act) \<Rightarrow> 'a list \<Rightarrow> 'b \<Rightarrow> ('w, 'b) act" where
  "foldE f [] acc = returnE acc"
| "foldE f (x # xs) acc = bindE (f x acc) (\<lambda>acc'. foldE f xs acc')"

definition forE :: "('a \<Rightarrow> ('w, unit) act) \<Rightarrow> 'a list \<Rightarrow> ('w, unit) act" where
  "forE f xs = foldE (\<lambda>x _. f x) xs ()"

lemma forE_Nil [simp]: "forE f [] = returnE ()"
  by (simp add: forE_def)

lemma forE_Cons [simp]: "forE f (x # xs) = thenE (f x) (forE f xs)"
  by (simp add: forE_def thenE_def)

lemma returnE_apply [act_simps]: "returnE a w = (Ok a, w)"
  by (simp add: returnE_def)

lemma failE_apply [act_simps]: "failE e w = (Fail e, w)"
  by (simp add: failE_def)

lemma hangE_apply [act_simps]: "hangE w = (Hang, w)"
  by (simp add: hangE_def)

lemma liftE_apply [act_simps]: "liftE r w = (r, w)"
  by (simp add: liftE_def)

text \<open>Evaluating an action on a concrete world.\<close>

lemmas act_defs = bindE_def thenE_def mapErr_def catchE_def tryE_def liftE_def guardE_def
  returnE_def failE_def hangE_def forE_def

lemma bindE_Ok [act_simps]: "m w = (Ok a, w') \<Longrightarrow> bindE m f w = f a w'"
  by (simp add: bindE_def)

lemma bindE_Fail [act_simps]: "m w = (Fail e, w') \<Longrightarrow> bindE m f w = (Fail e, w')"
  by (simp add: bindE_def)

lemma bindE_returnE [act_simps, simp]: "bindE (returnE a) f = f a"
  by (rule ext) (simp add: bindE_def returnE_def)

lemma bindE_failE [act_simps, simp]: "bindE (failE e) f = failE e"
  by (rule ext) (simp add: bindE_def failE_def)

lemma bindE_assoc: "bindE (bindE m f) g = bindE m (\<lambda>a. bindE (f a) g)"
  by (rule ext) (simp add: bindE_def split: prod.splits result.splits)

lemma bindE_eq_Ok [act_iff]:
  "bindE m f w = (Ok b, w'') \<longleftrightarrow> (\<exists>a w'. m w = (Ok a, w') \<and> f a w' = (Ok b, w''))"
  by (auto simp: bindE_def split: prod.splits result.splits)

lemma thenE_eq_Ok [act_iff]:
  "thenE m k w = (Ok b, w'') \<longleftrightarrow> (\<exists>a w'. m w = (Ok a, w') \<and> k w' = (Ok b, w''))"
  by (simp add: thenE_def bindE_eq_Ok)

lemma mapErr_eq_Ok [act_iff]: "mapErr g m w = (Ok a, w') \<longleftrightarrow> m w = (Ok a, w')"
  by (auto simp: mapErr_def split: prod.splits result.splits)

lemma guardE_eq_Ok [act_iff]: "guardE b e w = (Ok u, w') \<longleftrightarrow> b \<and> w' = w"
  by (auto simp: guardE_def returnE_def failE_def)

lemma parseE_eq_Ok [act_iff]: "parseE pre r w = (Ok a, w') \<longleftrightarrow> r = Inr a \<and> w' = w"
  by (auto simp: parseE_def returnE_def failE_def split: sum.splits)

lemma sumE_eq_Ok [act_iff]: "sumE r w = (Ok a, w') \<longleftrightarrow> r = Inr a \<and> w' = w"
  by (auto simp: sumE_def returnE_def failE_def split: sum.splits)

lemma closeOnErr_eq_Ok [act_iff]: "closeOnErr close m w = (Ok a, w') \<longleftrightarrow> m w = (Ok a, w')"
  by (auto simp: closeOnErr_def split: prod.splits result.splits)

lemma foldE_append:
  "foldE f (xs @ ys) acc = bindE (foldE f xs acc) (\<lambda>acc'. foldE f ys acc')"
  by (induction xs arbitrary: acc) (simp_all add: bindE_assoc)

section \<open>Weakest preconditions\<close>

text \<open>
  \<open>wp m Q E w\<close>: run in \<open>w\<close>, the action returns (it does not hang), \<open>Q\<close> holds of its value and final
  state when it succeeds and \<open>E\<close> of its error and final state when it fails.
\<close>

definition wp ::
  "('w, 'a) act \<Rightarrow> ('a \<Rightarrow> 'w \<Rightarrow> bool) \<Rightarrow> (go_error \<Rightarrow> 'w \<Rightarrow> bool) \<Rightarrow> 'w \<Rightarrow> bool" where
  "wp m Q E w =
     (case m w of (Ok a, w') \<Rightarrow> Q a w' | (Fail e, w') \<Rightarrow> E e w' | (Hang, w') \<Rightarrow> False)"

lemma wp_returnE [wp_simps]: "wp (returnE a) Q E = Q a"
  by (rule ext) (simp add: wp_def returnE_def)

lemma wp_failE [wp_simps]: "wp (failE e) Q E = E e"
  by (rule ext) (simp add: wp_def failE_def)

lemma wp_hangE [wp_simps]: "wp hangE Q E = (\<lambda>_. False)"
  by (rule ext) (simp add: wp_def hangE_def)

lemma wp_bindE [wp_simps]: "wp (bindE m f) Q E = wp m (\<lambda>a. wp (f a) Q E) E"
  by (rule ext) (simp add: wp_def bindE_def split: prod.splits result.splits)

lemma wp_thenE [wp_simps]: "wp (thenE m k) Q E = wp m (\<lambda>_. wp k Q E) E"
  by (simp add: thenE_def wp_bindE)

lemma wp_mapErr [wp_simps]: "wp (mapErr g m) Q E = wp m Q (\<lambda>e. E (g e))"
  by (rule ext) (simp add: wp_def mapErr_def split: prod.splits result.splits)

lemma wp_catchE [wp_simps]: "wp (catchE m h) Q E = wp m Q (\<lambda>e. wp (h e) Q E)"
  by (rule ext) (simp add: wp_def catchE_def split: prod.splits result.splits)

lemma wp_tryE [wp_simps]: "wp (tryE m) Q E = wp m (\<lambda>a. Q (Inr a)) (\<lambda>e. Q (Inl e))"
  by (rule ext) (simp add: wp_def tryE_def split: prod.splits result.splits)

lemma wp_liftE [wp_simps]:
  "wp (liftE r) Q E = (\<lambda>w. case r of Ok a \<Rightarrow> Q a w | Fail e \<Rightarrow> E e w | Hang \<Rightarrow> False)"
  by (rule ext) (simp add: wp_def liftE_def split: result.splits)

lemma wp_guardE [wp_simps]: "wp (guardE b e) Q E = (\<lambda>w. if b then Q () w else E e w)"
  by (rule ext) (simp add: guardE_def wp_simps)

lemma wp_parseE [wp_simps]:
  "wp (parseE pre r) Q E = (\<lambda>w. case r of Inl err \<Rightarrow> E (wrap pre err) w | Inr a \<Rightarrow> Q a w)"
  by (rule ext) (simp add: parseE_def wp_simps split: sum.split)

lemma wp_sumE [wp_simps]: "wp (sumE r) Q E = (\<lambda>w. case r of Inl err \<Rightarrow> E err w | Inr a \<Rightarrow> Q a w)"
  by (rule ext) (simp add: sumE_def wp_simps split: sum.split)

lemma wp_deferE [wp_simps]: "wp (deferE close m) Q E = wp m (\<lambda>a w. Q a (close w)) (\<lambda>e w. E e (close w))"
  by (rule ext) (simp add: wp_def deferE_def Let_def split: prod.splits result.splits)

lemma wp_closeOnErr [wp_simps]: "wp (closeOnErr close m) Q E = wp m Q (\<lambda>e w. E e (close w))"
  by (rule ext) (simp add: wp_def closeOnErr_def split: prod.splits result.splits)

lemma wp_if [wp_simps]: "wp (if b then m else n) Q E = (\<lambda>w. if b then wp m Q E w else wp n Q E w)"
  by (rule ext) simp

lemma wp_case_option [wp_simps]:
  "wp (case x of None \<Rightarrow> m | Some a \<Rightarrow> n a) Q E =
     (\<lambda>w. case x of None \<Rightarrow> wp m Q E w | Some a \<Rightarrow> wp (n a) Q E w)"
  by (cases x) simp_all

lemma wp_case_prod [wp_simps]:
  "wp (case x of (a, b) \<Rightarrow> m a b) Q E = (\<lambda>w. case x of (a, b) \<Rightarrow> wp (m a b) Q E w)"
  by (cases x) simp

lemma wp_case_sum [wp_simps]:
  "wp (case x of Inl a \<Rightarrow> m a | Inr b \<Rightarrow> n b) Q E =
     (\<lambda>w. case x of Inl a \<Rightarrow> wp (m a) Q E w | Inr b \<Rightarrow> wp (n b) Q E w)"
  by (cases x) simp_all

lemmas wp_select = option.case sum.case prod.case result.case

lemma wp_mono:
  assumes "wp m Q E w"
    and "\<And>a w'. m w = (Ok a, w') \<Longrightarrow> Q a w' \<Longrightarrow> Q' a w'"
    and "\<And>e w'. m w = (Fail e, w') \<Longrightarrow> E e w' \<Longrightarrow> E' e w'"
  shows "wp m Q' E' w"
  using assms by (auto simp: wp_def split: prod.splits result.splits)

lemma wp_weaken:
  assumes "wp m Q E w" "\<And>a w'. Q a w' \<Longrightarrow> Q' a w'" "\<And>e w'. E e w' \<Longrightarrow> E' e w'"
  shows "wp m Q' E' w"
  using assms by (auto intro: wp_mono)

lemma wp_conj: "wp m Q E w \<Longrightarrow> wp m Q' E' w \<Longrightarrow> wp m (\<lambda>a w'. Q a w' \<and> Q' a w') (\<lambda>e w'. E e w' \<and> E' e w') w"
  by (auto simp: wp_def split: prod.splits result.splits)

text \<open>One step at a time.\<close>

lemma wp_bindI:
  assumes "wp m Q1 E1 w"
    and "\<And>a w'. Q1 a w' \<Longrightarrow> wp (f a) Q E w'"
    and "\<And>e w'. E1 e w' \<Longrightarrow> E e w'"
  shows "wp (bindE m f) Q E w"
  unfolding wp_bindE using assms by (rule wp_weaken)

lemma wp_thenI:
  assumes "wp m Q1 E1 w"
    and "\<And>a w'. Q1 a w' \<Longrightarrow> wp k Q E w'"
    and "\<And>e w'. E1 e w' \<Longrightarrow> E e w'"
  shows "wp (thenE m k) Q E w"
  unfolding wp_thenE using assms by (rule wp_weaken)

lemma wp_mapErrI:
  assumes "wp m Q1 E1 w"
    and "\<And>a w'. Q1 a w' \<Longrightarrow> Q a w'"
    and "\<And>e w'. E1 e w' \<Longrightarrow> E (g e) w'"
  shows "wp (mapErr g m) Q E w"
  unfolding wp_mapErr using assms by (rule wp_weaken)

lemma wp_bind_mapErr:
  assumes "wp m Q1 E1 w"
    and "\<And>e w'. E1 e w' \<Longrightarrow> E (g e) w'"
    and "\<And>a w'. Q1 a w' \<Longrightarrow> wp (f a) Q E w'"
  shows "wp (bindE (mapErr g m) f) Q E w"
  unfolding wp_bindE wp_mapErr using assms(1,3,2) by (rule wp_weaken)

lemma wp_then_mapErr:
  assumes "wp m Q1 E1 w"
    and "\<And>e w'. E1 e w' \<Longrightarrow> E (g e) w'"
    and "\<And>a w'. Q1 a w' \<Longrightarrow> wp k Q E w'"
  shows "wp (thenE (mapErr g m) k) Q E w"
  unfolding thenE_def using assms by (rule wp_bind_mapErr)

lemma wp_ifI: "(b \<Longrightarrow> wp m Q E w) \<Longrightarrow> (\<not> b \<Longrightarrow> wp n Q E w) \<Longrightarrow> wp (if b then m else n) Q E w"
  by simp

lemma wp_OkD: "wp m Q E w \<Longrightarrow> m w = (Ok a, w') \<Longrightarrow> Q a w'"
  by (simp add: wp_def)

lemma wp_FailD: "wp m Q E w \<Longrightarrow> m w = (Fail e, w') \<Longrightarrow> E e w'"
  by (simp add: wp_def)

lemma wp_no_hang: "wp m Q E w \<Longrightarrow> fst (m w) \<noteq> Hang"
  by (auto simp: wp_def split: prod.splits result.splits)

lemma wpI:
  assumes "\<And>a w'. m w = (Ok a, w') \<Longrightarrow> Q a w'"
    and "\<And>e w'. m w = (Fail e, w') \<Longrightarrow> E e w'"
    and "fst (m w) \<noteq> Hang"
  shows "wp m Q E w"
  using assms by (auto simp: wp_def split: prod.splits result.splits)

lemma wp_cases:
  assumes "\<And>a w'. m w = (Ok a, w') \<Longrightarrow> Q a w'"
    and "\<And>e w'. m w = (Fail e, w') \<Longrightarrow> E e w'"
    and "\<And>w'. m w \<noteq> (Hang, w')"
  shows "wp m Q E w"
  using assms by (auto simp: wp_def split: prod.splits result.splits)

text \<open>A loop keeps whatever its body keeps.\<close>

lemma wp_foldE_inv:
  assumes step: "\<And>x acc w. x \<in> set xs \<Longrightarrow> I acc w \<Longrightarrow> wp (f x acc) I E w"
    and start: "I acc w"
  shows "wp (foldE f xs acc) I E w"
  using step start
proof (induction xs arbitrary: acc w)
  case Nil
  then show ?case by (simp add: wp_simps)
next
  case (Cons x xs)
  have "wp (f x acc) (\<lambda>acc'. wp (foldE f xs acc') I E) E w"
  proof (rule wp_weaken [OF Cons.prems(1)])
    show "x \<in> set (x # xs)" by simp
    show "I acc w" by (rule Cons.prems(2))
    show "wp (foldE f xs a) I E w'" if "I a w'" for a w'
      using Cons.IH Cons.prems(1) that by simp
  qed simp
  then show ?case by (simp add: wp_simps)
qed

lemma wp_forE_inv:
  assumes "\<And>x w. x \<in> set xs \<Longrightarrow> I w \<Longrightarrow> wp (f x) (\<lambda>_. I) E w" "I w"
  shows "wp (forE f xs) (\<lambda>_. I) E w"
  unfolding forE_def by (rule wp_foldE_inv) (use assms in auto)

section \<open>Frames\<close>

text \<open>
  \<open>keeps R m\<close>: whatever the action returns, the world after it is related to the world before it.
  It composes for a reflexive and transitive \<open>R\<close>, such as "this table is unchanged" or "this table
  only grew".
\<close>

definition keeps :: "('w \<Rightarrow> 'w \<Rightarrow> bool) \<Rightarrow> ('w, 'a) act \<Rightarrow> bool" where
  "keeps R m \<longleftrightarrow> (\<forall>w. R w (snd (m w)))"

definition world_order :: "('w \<Rightarrow> 'w \<Rightarrow> bool) \<Rightarrow> bool" where
  "world_order R \<longleftrightarrow> reflp R \<and> transp R"

named_theorems keeps_intros "frames of the action combinators and operations"

lemma world_order_eq [simp]: "world_order (\<lambda>w w'. f w' = f w)"
  by (simp add: world_order_def reflp_def transp_def)

lemma world_order_map_le [simp]: "world_order (\<lambda>w w'. f w \<subseteq>\<^sub>m f w')"
  unfolding world_order_def reflp_def transp_def by (blast intro: map_le_refl map_le_trans)

lemma world_order_conj:
  "world_order R \<Longrightarrow> world_order S \<Longrightarrow> world_order (\<lambda>w w'. R w w' \<and> S w w')"
  unfolding world_order_def reflp_def transp_def by blast

lemma keeps_returnE [keeps_intros]: "world_order R \<Longrightarrow> keeps R (returnE a)"
  by (simp add: keeps_def world_order_def reflp_def returnE_def)

lemma keeps_failE [keeps_intros]: "world_order R \<Longrightarrow> keeps R (failE e)"
  by (simp add: keeps_def world_order_def reflp_def failE_def)

lemma keeps_hangE [keeps_intros]: "world_order R \<Longrightarrow> keeps R hangE"
  by (simp add: keeps_def world_order_def reflp_def hangE_def)

lemma keeps_liftE [keeps_intros]: "world_order R \<Longrightarrow> keeps R (liftE r)"
  by (simp add: keeps_def world_order_def reflp_def liftE_def)

lemma keeps_guardE [keeps_intros]: "world_order R \<Longrightarrow> keeps R (guardE b e)"
  by (simp add: guardE_def keeps_intros)

lemma keeps_bindE [keeps_intros]:
  assumes "world_order R" "keeps R m" "\<And>a. keeps R (f a)"
  shows "keeps R (bindE m f)"
  unfolding keeps_def
proof
  fix w
  obtain r w' where m: "m w = (r, w')" by (cases "m w")
  then have 1: "R w w'" using assms(2) unfolding keeps_def by (metis snd_conv)
  then have 2: "R w (snd (f a w'))" for a
    using assms(1,3) unfolding keeps_def world_order_def by (blast dest: transpD)
  show "R w (snd (bindE m f w))"
    using 1 2 by (simp add: bindE_def m split: result.split)
qed

lemma keeps_thenE [keeps_intros]:
  "world_order R \<Longrightarrow> keeps R m \<Longrightarrow> keeps R k \<Longrightarrow> keeps R (thenE m k)"
  by (simp add: thenE_def keeps_bindE)

lemma keeps_mapErr [keeps_intros]: "keeps R m \<Longrightarrow> keeps R (mapErr g m)"
proof -
  have "snd (mapErr g m w) = snd (m w)" for w
    by (simp add: mapErr_def split: prod.split result.split)
  then show "keeps R m \<Longrightarrow> keeps R (mapErr g m)" by (simp add: keeps_def)
qed

lemma keeps_tryE [keeps_intros]: "keeps R m \<Longrightarrow> keeps R (tryE m)"
proof -
  have "snd (tryE m w) = snd (m w)" for w
    by (simp add: tryE_def split: prod.split result.split)
  then show "keeps R m \<Longrightarrow> keeps R (tryE m)" by (simp add: keeps_def)
qed

lemma keeps_catchE [keeps_intros]:
  assumes "world_order R" "keeps R m" "\<And>e. keeps R (h e)"
  shows "keeps R (catchE m h)"
proof -
  have "catchE m h = bindE (tryE m) (\<lambda>r. case r of Inl e \<Rightarrow> h e | Inr a \<Rightarrow> returnE a)"
    by (rule ext) (simp add: catchE_def bindE_def tryE_def returnE_def split: prod.split result.split)
  then show ?thesis
    using assms by (auto intro!: keeps_intros split: sum.split)
qed

lemma keeps_parseE [keeps_intros]: "world_order R \<Longrightarrow> keeps R (parseE pre r)"
  by (simp add: parseE_def keeps_intros split: sum.split)

lemma keeps_sumE [keeps_intros]: "world_order R \<Longrightarrow> keeps R (sumE r)"
  by (simp add: sumE_def keeps_intros split: sum.split)

lemma keeps_close:
  assumes "world_order R" "keeps R m" "\<And>w. R w (close w)"
  shows "keeps R (deferE close m)" "keeps R (closeOnErr close m)"
proof -
  have trans: "R w w' \<Longrightarrow> R w (close w')" for w w'
    using assms(1,3) unfolding world_order_def by (blast dest: transpD)
  show "keeps R (deferE close m)"
    using assms(2) trans unfolding keeps_def
    by (auto simp: deferE_def Let_def split: prod.split) (metis snd_conv)
  show "keeps R (closeOnErr close m)"
    using assms(2) trans unfolding keeps_def
    by (auto simp: closeOnErr_def split: prod.split result.split) (metis snd_conv)+
qed

lemma keeps_if [keeps_intros]: "(b \<Longrightarrow> keeps R m) \<Longrightarrow> (\<not> b \<Longrightarrow> keeps R n) \<Longrightarrow> keeps R (if b then m else n)"
  by simp

lemma keeps_case_option [keeps_intros]:
  "keeps R m \<Longrightarrow> (\<And>a. keeps R (n a)) \<Longrightarrow> keeps R (case x of None \<Rightarrow> m | Some a \<Rightarrow> n a)"
  by (cases x) simp_all

lemma keeps_case_sum [keeps_intros]:
  "(\<And>a. keeps R (m a)) \<Longrightarrow> (\<And>b. keeps R (n b)) \<Longrightarrow> keeps R (case x of Inl a \<Rightarrow> m a | Inr b \<Rightarrow> n b)"
  by (cases x) simp_all

lemma keeps_case_prod [keeps_intros]: "(\<And>a b. keeps R (m a b)) \<Longrightarrow> keeps R (case x of (a, b) \<Rightarrow> m a b)"
  by (cases x) simp

lemma keeps_case_list [keeps_intros]:
  "keeps R m \<Longrightarrow> (\<And>x xs. keeps R (n x xs)) \<Longrightarrow> keeps R (case l of [] \<Rightarrow> m | x # xs \<Rightarrow> n x xs)"
  by (cases l) simp_all

lemma keeps_foldE [keeps_intros]:
  assumes "world_order R" "\<And>x acc. x \<in> set xs \<Longrightarrow> keeps R (f x acc)"
  shows "keeps R (foldE f xs acc)"
  using assms(2) by (induction xs arbitrary: acc) (auto intro!: keeps_intros assms(1))

lemma keeps_forE [keeps_intros]:
  "world_order R \<Longrightarrow> (\<And>x. x \<in> set xs \<Longrightarrow> keeps R (f x)) \<Longrightarrow> keeps R (forE f xs)"
  unfolding forE_def by (rule keeps_foldE)

lemma wp_keeps:
  "keeps R m \<Longrightarrow> wp m Q E w \<Longrightarrow> wp m (\<lambda>a w'. Q a w' \<and> R w w') (\<lambda>e w'. E e w' \<and> R w w') w"
  by (erule wp_mono) (metis keeps_def snd_conv)+

section \<open>Strings\<close>

text \<open>\<open>strings.HasPrefix\<close>, \<open>HasSuffix\<close> and \<open>Contains\<close>, in Go's argument order.\<close>

abbreviation has_prefix :: "string \<Rightarrow> string \<Rightarrow> bool" where
  "has_prefix s p \<equiv> prefix p s"

abbreviation has_suffix :: "string \<Rightarrow> string \<Rightarrow> bool" where
  "has_suffix s p \<equiv> suffix p s"

abbreviation contains :: "string \<Rightarrow> string \<Rightarrow> bool" where
  "contains s t \<equiv> sublist t s"

text \<open>An apostrophe and an s, where one opens a piece of a message.\<close>

abbreviation possessive :: string where
  "possessive \<equiv> [CHR 0x27, CHR ''s'']"

text \<open>\<open>strings.CutPrefix\<close>: what follows the prefix, if it is there.\<close>

definition cut_prefix :: "string \<Rightarrow> string \<Rightarrow> string option" where
  "cut_prefix s p = (if has_prefix s p then Some (drop (length p) s) else None)"

definition trim_prefix :: "string \<Rightarrow> string \<Rightarrow> string" where
  "trim_prefix s p = (if has_prefix s p then drop (length p) s else s)"

definition trim_suffix :: "string \<Rightarrow> string \<Rightarrow> string" where
  "trim_suffix s p = (if has_suffix s p then take (length s - length p) s else s)"

text \<open>\<open>strings.Cut\<close> at a one-byte separator: before, after, found.\<close>

definition cut_at :: "string \<Rightarrow> char \<Rightarrow> string \<times> string \<times> bool" where
  "cut_at s c =
     (if c \<in> set s then (takeWhile (\<lambda>x. x \<noteq> c) s, tl (dropWhile (\<lambda>x. x \<noteq> c) s), True)
      else (s, [], False))"

text \<open>\<open>name[strings.LastIndex(name, "/")+1:]\<close>.\<close>

definition last_segment :: "string \<Rightarrow> string" where
  "last_segment s = rev (takeWhile (\<lambda>c. c \<noteq> CHR ''/'') (rev s))"

text \<open>\<open>strings.Join\<close>.\<close>

fun join :: "string \<Rightarrow> string list \<Rightarrow> string" where
  "join sep [] = []"
| "join sep [x] = x"
| "join sep (x # y # ys) = x @ sep @ join sep (y # ys)"

text \<open>\<open>strings.TrimSpace\<close>: the encodings of the runes \<open>unicode.IsSpace\<close> accepts, dropped at both ends.\<close>

definition space_runes :: "string list" where
  "space_runes =
     [[CHR 0x09], [CHR 0x0A], [CHR 0x0B], [CHR 0x0C], [CHR 0x0D], [CHR 0x20],
      [CHR 0xC2, CHR 0x85], [CHR 0xC2, CHR 0xA0], [CHR 0xE1, CHR 0x9A, CHR 0x80],
      [CHR 0xE2, CHR 0x80, CHR 0x80], [CHR 0xE2, CHR 0x80, CHR 0x81], [CHR 0xE2, CHR 0x80, CHR 0x82],
      [CHR 0xE2, CHR 0x80, CHR 0x83], [CHR 0xE2, CHR 0x80, CHR 0x84], [CHR 0xE2, CHR 0x80, CHR 0x85],
      [CHR 0xE2, CHR 0x80, CHR 0x86], [CHR 0xE2, CHR 0x80, CHR 0x87], [CHR 0xE2, CHR 0x80, CHR 0x88],
      [CHR 0xE2, CHR 0x80, CHR 0x89], [CHR 0xE2, CHR 0x80, CHR 0x8A], [CHR 0xE2, CHR 0x80, CHR 0xA8],
      [CHR 0xE2, CHR 0x80, CHR 0xA9], [CHR 0xE2, CHR 0x80, CHR 0xAF], [CHR 0xE2, CHR 0x81, CHR 0x9F],
      [CHR 0xE3, CHR 0x80, CHR 0x80]]"

function trim_left :: "string list \<Rightarrow> string \<Rightarrow> string" where
  "trim_left ps s =
     (case find (\<lambda>p. p \<noteq> [] \<and> prefix p s) ps of
        None \<Rightarrow> s
      | Some p \<Rightarrow> trim_left ps (drop (length p) s))"
  by pat_completeness auto
termination
proof (relation "measure (\<lambda>(ps, s). length s)")
  fix ps s p
  assume "find (\<lambda>p. p \<noteq> [] \<and> prefix p s) ps = Some p"
  then have "p \<noteq> []" "prefix p s" by (auto simp: find_Some_iff)
  then show "((ps, drop (length p) s), ps, s) \<in> measure (\<lambda>(ps, s). length s)"
    by (cases p) (auto simp: prefix_def)
qed simp

declare trim_left.simps [simp del]

definition trim_space :: "string \<Rightarrow> string" where
  "trim_space s =
     rev (trim_left (map rev space_runes) (rev (trim_left space_runes s)))"

lemma trim_left_id:
  "(\<And>p. p \<in> set ps \<Longrightarrow> p = [] \<or> \<not> prefix p s) \<Longrightarrow> trim_left ps s = s"
  by (subst trim_left.simps) (auto split: option.split simp: find_Some_iff in_set_conv_nth)

text \<open>No space rune starts or ends with a printable ASCII byte.\<close>

definition plain_char :: "char \<Rightarrow> bool" where
  "plain_char c \<longleftrightarrow> 32 < (of_char c :: nat) \<and> (of_char c :: nat) < 127"

lemma space_runes_not_plain:
  "p \<in> set space_runes \<Longrightarrow> p \<noteq> [] \<and> \<not> plain_char (hd p) \<and> \<not> plain_char (last p)"
  by (auto simp: space_runes_def plain_char_def)

lemma trim_space_plain:
  assumes "s = [] \<or> plain_char (hd s) \<and> plain_char (last s)"
  shows "trim_space s = s"
proof -
  have "trim_left space_runes s = s"
    using assms by (intro trim_left_id) (metis hd_append2 prefixE prefix_Nil space_runes_not_plain)
  moreover have "trim_left (map rev space_runes) (rev s) = rev s"
  proof (rule trim_left_id)
    fix p
    assume "p \<in> set (map rev space_runes)"
    then obtain q where q: "q \<in> set space_runes" "p = rev q" by auto
    have "\<not> prefix (rev q) (rev s)"
    proof
      assume "prefix (rev q) (rev s)"
      then obtain u where u: "s = u @ q" by (auto simp: suffix_to_prefix [symmetric] suffix_def)
      have "q \<noteq> []" "\<not> plain_char (last q)" using space_runes_not_plain [OF q(1)] by auto
      with u assms show False by auto
    qed
    with q show "p = [] \<or> \<not> prefix p (rev s)" by simp
  qed
  ultimately show ?thesis by (simp add: trim_space_def)
qed

text \<open>A decimal numeral, as \<open>strconv.Itoa\<close> and \<open>%d\<close> print it.\<close>

fun dec_digits :: "nat \<Rightarrow> string" where
  "dec_digits n =
     (if n < 10 then [char_of (48 + n)] else dec_digits (n div 10) @ [char_of (48 + n mod 10)])"

declare dec_digits.simps [simp del]

lemma digit_chars:
  "char_of (48 :: nat) = CHR ''0''" "char_of (49 :: nat) = CHR ''1''" "char_of (50 :: nat) = CHR ''2''"
  "char_of (51 :: nat) = CHR ''3''" "char_of (52 :: nat) = CHR ''4''" "char_of (53 :: nat) = CHR ''5''"
  "char_of (54 :: nat) = CHR ''6''" "char_of (55 :: nat) = CHR ''7''" "char_of (56 :: nat) = CHR ''8''"
  "char_of (57 :: nat) = CHR ''9''"
  by (simp_all add: char_of_eq_iff)

definition itoa :: "int \<Rightarrow> string" where
  "itoa i = (if i < 0 then CHR ''-'' # dec_digits (nat (- i)) else dec_digits (nat i))"

text \<open>\<open>%q\<close>. Exact for bytes below 0x80; a byte from 0x80 up is shown as Go shows invalid UTF-8.\<close>

definition hex_nibble :: "nat \<Rightarrow> char" where
  "hex_nibble n = (if n < 10 then char_of (48 + n) else char_of (87 + n))"

definition quote_char :: "char \<Rightarrow> string" where
  "quote_char c =
     (let n = of_char c :: nat in
      if c = CHR 0x22 then [CHR 0x5C, CHR 0x22]
      else if c = CHR 0x5C then [CHR 0x5C, CHR 0x5C]
      else if n = 7 then [CHR 0x5C, CHR ''a'']
      else if n = 8 then [CHR 0x5C, CHR ''b'']
      else if n = 12 then [CHR 0x5C, CHR ''f'']
      else if n = 10 then [CHR 0x5C, CHR ''n'']
      else if n = 13 then [CHR 0x5C, CHR ''r'']
      else if n = 9 then [CHR 0x5C, CHR ''t'']
      else if n = 11 then [CHR 0x5C, CHR ''v'']
      else if 32 \<le> n \<and> n < 127 then [c]
      else [CHR 0x5C, CHR ''x'', hex_nibble (n div 16), hex_nibble (n mod 16)])"

definition go_quote :: "string \<Rightarrow> string" where
  "go_quote s = [CHR 0x22] @ concat (map quote_char s) @ [CHR 0x22]"

section \<open>Facts about strings and lists\<close>

lemma cut_prefix_eq_Some [simp]: "cut_prefix s p = Some t \<longleftrightarrow> s = p @ t"
  by (auto simp: cut_prefix_def prefix_def)

lemma cut_prefix_append [simp]: "cut_prefix (p @ t) p = Some t"
  by simp

lemma cut_prefix_None: "cut_prefix s p = None \<longleftrightarrow> \<not> has_prefix s p"
  by (simp add: cut_prefix_def)

lemma last_segment_id: "CHR ''/'' \<notin> set s \<Longrightarrow> last_segment s = s"
proof -
  assume "CHR ''/'' \<notin> set s"
  then have "takeWhile (\<lambda>c. c \<noteq> CHR ''/'') (rev s) = rev s"
    by (subst takeWhile_eq_all_conv) auto
  then show ?thesis by (simp only: last_segment_def rev_rev_ident)
qed

lemma last_segment_after_slash [simp]:
  "CHR ''/'' \<notin> set t \<Longrightarrow> last_segment (s @ CHR ''/'' # t) = t"
proof -
  assume *: "CHR ''/'' \<notin> set t"
  have "takeWhile (\<lambda>c. c \<noteq> CHR ''/'') (rev t @ CHR ''/'' # rev s) = rev t"
    using * by (subst takeWhile_append2) auto
  then show ?thesis by (simp add: last_segment_def)
qed

lemma last_segment_append [simp]:
  "CHR ''/'' \<notin> set t \<Longrightarrow> last_segment (s @ p @ CHR ''/'' # t) = t"
  using last_segment_after_slash [of t "s @ p"] by simp

lemma last_segment_no_slash: "CHR ''/'' \<notin> set (last_segment s)"
  by (auto simp: last_segment_def dest: set_takeWhileD)

lemma cut_at_append [simp]: "c \<notin> set s \<Longrightarrow> cut_at (s @ c # t) c = (s, t, True)"
  by (auto simp: cut_at_def takeWhile_append dropWhile_append)

lemma cut_at_absent: "c \<notin> set s \<Longrightarrow> cut_at s c = (s, [], False)"
  by (simp add: cut_at_def)

lemma sublist_around:
  assumes "c \<notin> set xs"
  shows "sublist xs (ys @ c # zs) \<longleftrightarrow> sublist xs ys \<or> sublist xs zs"
proof -
  have "prefix us (c # zs) \<Longrightarrow> us = [] \<or> c \<in> set us" for us
    by (cases us) auto
  with assms show ?thesis
    unfolding sublist_append sublist_Cons_right
    by (auto simp: suffix_def) (metis Un_iff append_Nil2 set_append sublist_append_leftI)+
qed

text \<open>\<open>slices.Chunk\<close>: consecutive pieces of at most \<open>n\<close> elements.\<close>

function chunk :: "nat \<Rightarrow> 'a list \<Rightarrow> 'a list list" where
  "chunk n xs = (if xs = [] \<or> n = 0 then [] else take n xs # chunk n (drop n xs))"
  by pat_completeness auto
termination
  by (relation "measure (\<lambda>(n, xs). length xs)") auto

declare chunk.simps [simp del]

lemma chunk_Nil [simp]: "chunk n [] = []"
  by (simp add: chunk.simps)

lemma concat_chunk [simp]: "0 < n \<Longrightarrow> concat (chunk n xs) = xs"
  by (induction n xs rule: chunk.induct) (subst chunk.simps, auto)

lemma chunk_length: "b \<in> set (chunk n xs) \<Longrightarrow> b \<noteq> [] \<and> length b \<le> n"
proof (induction n xs rule: chunk.induct)
  case (1 n xs)
  then show ?case
    by (cases "xs = [] \<or> n = 0") (auto simp: chunk.simps [of n xs])
qed

lemma chunk_subset: "b \<in> set (chunk n xs) \<Longrightarrow> set b \<subseteq> set xs"
proof (induction n xs rule: chunk.induct)
  case (1 n xs)
  then show ?case
    by (cases "xs = [] \<or> n = 0")
      (auto simp: chunk.simps [of n xs] dest: in_set_takeD in_set_dropD)
qed

lemma restrict_map_UNIV [simp]: "m |` UNIV = m"
  by (rule ext) (simp add: restrict_map_def)

lemma map_le_Some: "m \<subseteq>\<^sub>m m' \<Longrightarrow> m k = Some x \<Longrightarrow> m' k = Some x"
  by (auto simp: map_le_def dom_def)

lemma map_le_None: "m \<subseteq>\<^sub>m m' \<Longrightarrow> m' k = None \<Longrightarrow> m k = None"
  by (auto simp: map_le_def dom_def)

lemma not_contains: "c \<in> set t \<Longrightarrow> c \<notin> set s \<Longrightarrow> \<not> contains s t"
  using set_mono_sublist by blast

section \<open>Go maps\<close>

text \<open>
  A Go map whose entries are enumerated is an association list; \<open>map_of\<close> is its lookup,
  \<open>AList.update\<close> its assignment and \<open>AList.delete\<close> its \<open>delete\<close>. Its keys are listed without
  repetition; Go leaves the order open, so what the model computes from them must not depend on it.
\<close>

type_synonym ('k, 'v) go_map = "('k \<times> 'v) list"

definition map_keys :: "('k, 'v) go_map \<Rightarrow> 'k list" where
  "map_keys m = remdups (map fst m)"

definition map_entries :: "('k, 'v) go_map \<Rightarrow> ('k \<times> 'v) list" where
  "map_entries m = map (\<lambda>k. (k, the (map_of m k))) (map_keys m)"

lemma set_map_keys [simp]: "set (map_keys m) = dom (map_of m)"
  by (simp add: map_keys_def dom_map_of_conv_image_fst)

lemma distinct_map_keys [simp]: "distinct (map_keys m)"
  by (simp add: map_keys_def)

lemma set_map_entries [simp]: "set (map_entries m) = {(k, v). map_of m k = Some v}"
  by (auto simp: map_entries_def image_iff domIff)

lemma map_fst_map_entries [simp]: "map fst (map_entries m) = map_keys m"
  by (simp add: map_entries_def comp_def)

end
