(* ===== verification/Numerals.thy ===== *)
theory Numerals
imports Go_Base
begin

text \<open>
  Decimal numerals as Go's standard library reads and writes them: \<open>big.Int.SetString(s, 10)\<close>,
  \<open>strconv.Atoi\<close> and \<open>strconv.ParseInt(s, 10, 64)\<close> on a 64-bit platform, and the facts that connect
  them to \<open>itoa\<close>.
\<close>

definition is_digit :: "char \<Rightarrow> bool" where
  "is_digit c \<longleftrightarrow> 48 \<le> (of_char c :: nat) \<and> (of_char c :: nat) \<le> 57"

definition digit_val :: "char \<Rightarrow> nat" where
  "digit_val c = of_char c - 48"

definition digits_val :: "string \<Rightarrow> nat" where
  "digits_val s = foldl (\<lambda>n c. 10 * n + digit_val c) 0 s"

definition nat_of_digits :: "string \<Rightarrow> int option" where
  "nat_of_digits s = (if s \<noteq> [] \<and> list_all is_digit s then Some (int (digits_val s)) else None)"

definition SetString10 :: "string \<Rightarrow> int option" where
  "SetString10 s =
     (case s of
        c # r \<Rightarrow>
          if c = CHR ''-'' then map_option uminus (nat_of_digits r)
          else if c = CHR ''+'' then nat_of_digits r
          else nat_of_digits s
      | [] \<Rightarrow> None)"

text \<open>\<open>strconv.Atoi\<close> and \<open>ParseInt\<close>: the same syntax, refused when it does not fit in 64 bits.\<close>

definition parse_int64 :: "string \<Rightarrow> string \<Rightarrow> go_error + int" where
  "parse_int64 fn s =
     (case SetString10 s of
        None \<Rightarrow> Inl (Errorf (''strconv.'' @ fn @ '': parsing '' @ go_quote s @ '': invalid syntax''))
      | Some v \<Rightarrow>
          if - (2 ^ 63) \<le> v \<and> v < 2 ^ 63 then Inr v
          else Inl (Errorf (''strconv.'' @ fn @ '': parsing '' @ go_quote s @ '': value out of range'')))"

definition Atoi :: "string \<Rightarrow> go_error + int" where
  "Atoi s = parse_int64 ''Atoi'' s"

definition ParseInt64 :: "string \<Rightarrow> go_error + int" where
  "ParseInt64 s = parse_int64 ''ParseInt'' s"

section \<open>Digit strings\<close>

lemma digits_val_Nil [simp]: "digits_val [] = 0"
  by (simp add: digits_val_def)

lemma digits_val_snoc [simp]: "digits_val (s @ [c]) = 10 * digits_val s + digit_val c"
  by (simp add: digits_val_def)

lemma digits_val_append: "digits_val (s @ t) = digits_val s * 10 ^ length t + digits_val t"
proof (induction t rule: rev_induct)
  case (snoc c t)
  have "digits_val (s @ t @ [c]) = 10 * digits_val (s @ t) + digit_val c"
    unfolding append_assoc [symmetric] by (rule digits_val_snoc)
  with snoc show ?case by (simp add: algebra_simps)
qed simp

lemma digits_val_zeros [simp]: "digits_val (replicate n (CHR ''0'')) = 0"
proof (induction n)
  case (Suc n)
  have "digits_val (replicate n (CHR ''0'') @ [CHR ''0'']) = 0"
    using Suc by (simp add: digit_val_def)
  then show ?case by (simp add: replicate_append_same)
qed simp

lemma is_digit_zero [simp]: "is_digit (CHR ''0'')"
  by (simp add: is_digit_def)

lemma digit_of_nat: "n < 10 \<Longrightarrow> is_digit (char_of (48 + n)) \<and> digit_val (char_of (48 + n)) = n"
  by (simp add: is_digit_def digit_val_def of_char_of take_bit_eq_mod)

lemma dec_digits_val: "list_all is_digit (dec_digits n) \<and> digits_val (dec_digits n) = n \<and> dec_digits n \<noteq> []"
proof (induction n rule: dec_digits.induct)
  case (1 n)
  then show ?case
    by (cases "n < 10")
      (use digit_of_nat [of n] digit_of_nat [of "n mod 10"] in
        \<open>auto simp: dec_digits.simps [of n] digits_val_def\<close>)
qed

lemma dec_digits_length: "n < 10 ^ k \<Longrightarrow> 0 < k \<Longrightarrow> length (dec_digits n) \<le> k"
proof (induction n arbitrary: k rule: dec_digits.induct)
  case (1 n)
  show ?case
  proof (cases "n < 10")
    case True
    then show ?thesis using 1(3) by (simp add: dec_digits.simps [of n])
  next
    case False
    then obtain k' where k: "k = Suc k'" "0 < k'"
      using that 1(2,3) by (cases k; cases "k - 1") auto
    with 1(2) have "n div 10 < 10 ^ k'" by (simp add: less_mult_imp_div_less mult.commute)
    with 1(1) False k show ?thesis by (simp add: dec_digits.simps [of n])
  qed
qed

lemma is_digit_not [simp]:
  "is_digit c \<Longrightarrow> c \<noteq> CHR ''.''" "is_digit c \<Longrightarrow> c \<noteq> CHR ''-''" "is_digit c \<Longrightarrow> c \<noteq> CHR ''+''"
  "is_digit c \<Longrightarrow> c \<noteq> CHR '' ''"
  by (auto simp: is_digit_def)

lemma digits_no_point: "list_all is_digit s \<Longrightarrow> CHR ''.'' \<notin> set s"
  by (auto simp: list_all_iff dest: is_digit_not)

lemma nat_of_digits_Some [simp]:
  "nat_of_digits s = Some v \<longleftrightarrow> s \<noteq> [] \<and> list_all is_digit s \<and> v = int (digits_val s)"
  by (auto simp: nat_of_digits_def)

lemma plus_not_digit [simp]: "\<not> is_digit (CHR ''+'')"
  by (simp add: is_digit_def)

lemma is_digit_plain: "is_digit c \<Longrightarrow> plain_char c"
  by (simp add: is_digit_def plain_char_def)

lemma SetString10_itoa [simp]: "SetString10 (itoa i) = Some i"
proof -
  have "SetString10 (dec_digits n) = Some (int n)" for n
  proof -
    obtain c r where "dec_digits n = c # r" using dec_digits_val [of n] by (cases "dec_digits n") auto
    moreover have "is_digit c" using dec_digits_val [of n] calculation by simp
    ultimately show ?thesis
      using dec_digits_val [of n] by (auto simp: SetString10_def dest: is_digit_not)
  qed
  then show ?thesis
    using dec_digits_val [of "nat (- i)"] by (auto simp: itoa_def SetString10_def)
qed

lemma itoa_inject [simp]: "itoa i = itoa j \<longleftrightarrow> i = j"
  by (metis SetString10_itoa option.inject)

end
