(* ===== verification/Encodings.thy ===== *)
theory Encodings
imports Numerals
begin

text \<open>
  \<open>encoding/hex\<close> and \<open>encoding/base64\<close> (\<open>StdEncoding\<close>), as the keys, the proofs and the onboarding
  request use them. A byte is a character.
\<close>

abbreviation byte :: "char \<Rightarrow> nat" where
  "byte c \<equiv> of_char c"

section \<open>Hexadecimal\<close>

definition hex_EncodeToString :: "string \<Rightarrow> string" where
  "hex_EncodeToString s = concat (map (\<lambda>c. [hex_nibble (byte c div 16), hex_nibble (byte c mod 16)]) s)"

definition hex_digit :: "char \<Rightarrow> nat option" where
  "hex_digit c =
     (let n = byte c in
      if 48 \<le> n \<and> n \<le> 57 then Some (n - 48)
      else if 97 \<le> n \<and> n \<le> 102 then Some (n - 87)
      else if 65 \<le> n \<and> n \<le> 70 then Some (n - 55)
      else None)"

text \<open>\<open>InvalidByteError\<close>: \<open>%#U\<close> of the byte as a rune.\<close>

definition upper_nibble :: "nat \<Rightarrow> char" where
  "upper_nibble n = (if n < 10 then char_of (48 + n) else char_of (55 + n))"

definition hex_invalid_byte :: "char \<Rightarrow> go_error" where
  "hex_invalid_byte c =
     (let n = byte c;
          rune = (if n < 128 then [c] else [char_of (192 + n div 64), char_of (128 + n mod 64)]) in
      Errorf (''encoding/hex: invalid byte: U+00'' @ [upper_nibble (n div 16), upper_nibble (n mod 16)]
        @ (if 32 \<le> n \<and> n \<le> 126 \<or> 161 \<le> n \<and> n \<noteq> 173 then '' '' @ [CHR 0x27] @ rune @ [CHR 0x27] else [])))"

fun hex_DecodeString :: "string \<Rightarrow> go_error + string" where
  "hex_DecodeString [] = Inr []"
| "hex_DecodeString [c] =
     (case hex_digit c of
        None \<Rightarrow> Inl (hex_invalid_byte c)
      | Some _ \<Rightarrow> Inl (Errorf ''encoding/hex: odd length hex string''))"
| "hex_DecodeString (p # q # s) =
     (case hex_digit p of
        None \<Rightarrow> Inl (hex_invalid_byte p)
      | Some a \<Rightarrow>
     (case hex_digit q of
        None \<Rightarrow> Inl (hex_invalid_byte q)
      | Some b \<Rightarrow>
     (case hex_DecodeString s of
        Inl err \<Rightarrow> Inl err
      | Inr bs \<Rightarrow> Inr (char_of (16 * a + b) # bs))))"

lemma hex_digit_nibble [simp]: "n < 16 \<Longrightarrow> hex_digit (hex_nibble n) = Some n"
  by (simp add: hex_digit_def hex_nibble_def of_char_of Let_def)

lemma hex_roundtrip [simp]: "hex_DecodeString (hex_EncodeToString s) = Inr s"
  by (induction s) (simp_all add: hex_EncodeToString_def less_mult_imp_div_less)

definition is_hex :: "char \<Rightarrow> bool" where
  "is_hex c \<longleftrightarrow> c \<in> set ''0123456789abcdef''"

lemma hex_nibbles: "list_all (\<lambda>n. is_hex (hex_nibble n)) [0..<16]"
  by code_simp

lemma is_hex_nibble: "n < 16 \<Longrightarrow> is_hex (hex_nibble n)"
  using hex_nibbles by (simp add: list_all_iff)

lemma hex_chars: "list_all is_hex (hex_EncodeToString s)"
  by (induction s) (simp_all add: hex_EncodeToString_def is_hex_nibble less_mult_imp_div_less)

lemma hex_length [simp]: "length (hex_EncodeToString s) = 2 * length s"
  by (induction s) (simp_all add: hex_EncodeToString_def)

lemma is_hex_plain: "is_hex c \<Longrightarrow> plain_char c"
  by (auto simp: is_hex_def plain_char_def)

section \<open>Base 64\<close>

definition b64_char :: "nat \<Rightarrow> char" where
  "b64_char n =
     (if n < 26 then char_of (65 + n) else if n < 52 then char_of (71 + n)
      else if n < 62 then char_of (n - 4) else if n = 62 then CHR ''+'' else CHR ''/'')"

definition b64_digit :: "char \<Rightarrow> nat option" where
  "b64_digit c =
     (let n = byte c in
      if 65 \<le> n \<and> n \<le> 90 then Some (n - 65)
      else if 97 \<le> n \<and> n \<le> 122 then Some (n - 71)
      else if 48 \<le> n \<and> n \<le> 57 then Some (n + 4)
      else if c = CHR ''+'' then Some 62 else if c = CHR ''/'' then Some 63 else None)"

fun b64_EncodeToString :: "string \<Rightarrow> string" where
  "b64_EncodeToString [] = []"
| "b64_EncodeToString [x] =
     (let n = byte x in [b64_char (n div 4), b64_char (n mod 4 * 16), CHR ''='', CHR ''=''])"
| "b64_EncodeToString [x, y] =
     (let n = 256 * byte x + byte y in
      [b64_char (n div 1024), b64_char (n div 16 mod 64), b64_char (n mod 16 * 4), CHR ''=''])"
| "b64_EncodeToString (x # y # z # s) =
     (let n = 65536 * byte x + 256 * byte y + byte z in
      [b64_char (n div 262144), b64_char (n div 4096 mod 64), b64_char (n div 64 mod 64), b64_char (n mod 64)]
        @ b64_EncodeToString s)"

text \<open>The bytes of a quantum of two, three or four digits.\<close>

fun b64_bytes :: "nat list \<Rightarrow> string" where
  "b64_bytes [a, b] = [char_of ((64 * a + b) div 16)]"
| "b64_bytes [a, b, c] =
     (let n = 4096 * a + 64 * b + c in [char_of (n div 1024), char_of (n div 4 mod 256)])"
| "b64_bytes [a, b, c, d] =
     (let n = 262144 * a + 4096 * b + 64 * c + d in
      [char_of (n div 65536), char_of (n div 256 mod 256), char_of (n mod 256)])"
| "b64_bytes _ = []"

definition b64_newline :: "char \<Rightarrow> bool" where
  "b64_newline c \<longleftrightarrow> c = CHR 0x0A \<or> c = CHR 0x0D"

definition b64_corrupt :: "nat \<Rightarrow> go_error" where
  "b64_corrupt pos = Errorf (''illegal base64 data at input byte '' @ itoa (int pos))"

text \<open>After the padding only line ends may follow.\<close>

definition b64_end :: "nat \<Rightarrow> string \<Rightarrow> string \<Rightarrow> go_error + string" where
  "b64_end pos s bs =
     (let rest = dropWhile b64_newline s in
      if rest = [] then Inr bs else Inl (b64_corrupt (pos + (length s - length rest))))"

text \<open>\<open>pos\<close> input bytes are consumed and \<open>ds\<close> are the digits of the quantum so far.\<close>

fun b64_quanta :: "nat \<Rightarrow> nat list \<Rightarrow> string \<Rightarrow> go_error + string" where
  "b64_quanta pos ds [] = (if ds = [] then Inr [] else Inl (b64_corrupt (pos - length ds)))"
| "b64_quanta pos ds (c # s) =
     (case b64_digit c of
        Some d \<Rightarrow>
          if length ds = 3 then
            (case b64_quanta (pos + 1) [] s of
               Inl err \<Rightarrow> Inl err
             | Inr bs \<Rightarrow> Inr (b64_bytes (ds @ [d]) @ bs))
          else b64_quanta (pos + 1) (ds @ [d]) s
      | None \<Rightarrow>
          if b64_newline c then b64_quanta (pos + 1) ds s
          else if c \<noteq> CHR ''='' \<or> length ds < 2 then Inl (b64_corrupt pos)
          else if length ds = 2 then
            (let rest = dropWhile b64_newline s; pos' = pos + 1 + (length s - length rest) in
             case rest of
               [] \<Rightarrow> Inl (b64_corrupt pos')
             | x # rest' \<Rightarrow>
                 if x \<noteq> CHR ''='' then Inl (b64_corrupt (pos' - 1))
                 else b64_end (pos' + 1) rest' (b64_bytes ds))
          else b64_end (pos + 1) s (b64_bytes ds))"

definition b64_DecodeString :: "string \<Rightarrow> go_error + string" where
  "b64_DecodeString s = b64_quanta 0 [] s"

lemma b64_digit_char [simp]: "n < 64 \<Longrightarrow> b64_digit (b64_char n) = Some n"
proof -
  assume n: "n < 64"
  consider "n < 26" | "26 \<le> n" "n < 52" | "52 \<le> n" "n < 62" | "n = 62" | "n = 63" using n by linarith
  then show ?thesis
    by cases (auto simp: b64_digit_def b64_char_def of_char_of Let_def)
qed

lemma b64_four:
  assumes "a < 64" "b < 64" "c < 64" "d < 64"
  shows "b64_quanta pos [] (b64_char a # b64_char b # b64_char c # b64_char d # s)
    = (case b64_quanta (Suc (Suc (Suc (Suc pos)))) [] s of Inl err \<Rightarrow> Inl err | Inr bs \<Rightarrow> Inr (b64_bytes [a, b, c, d] @ bs))"
  using assms by (simp add: numeral_3_eq_3 add_ac split: sum.split)

lemma b64_padding [simp]: "b64_digit (CHR ''='') = None" "\<not> b64_newline (CHR ''='')"
  by (simp_all add: b64_digit_def b64_newline_def Let_def)

lemma two_digits:
  assumes "n < (256 :: nat)"
  shows "n div 4 < 64" "n mod 4 * 16 < 64" "(64 * (n div 4) + n mod 4 * 16) div 16 = n"
proof -
  show "n div 4 < 64" "n mod 4 * 16 < 64" using assms by linarith+
  have "64 * (n div 4) + n mod 4 * 16 = n * 16" using mult_div_mod_eq [of 4 n] by linarith
  then show "(64 * (n div 4) + n mod 4 * 16) div 16 = n" by simp
qed

lemma three_digits:
  assumes "n < (65536 :: nat)"
  shows "n div 1024 < 64" "n div 16 mod 64 < 64" "n mod 16 * 4 < 64"
    "4096 * (n div 1024) + 64 * (n div 16 mod 64) + n mod 16 * 4 = 4 * n"
proof -
  show "n div 1024 < 64" "n div 16 mod 64 < 64" "n mod 16 * 4 < 64" using assms by linarith+
  show "4096 * (n div 1024) + 64 * (n div 16 mod 64) + n mod 16 * 4 = 4 * n"
    using mult_div_mod_eq [of 16 n] mult_div_mod_eq [of 64 "n div 16"] div_mult2_eq [of n 16 64, simplified]
    by linarith
qed

lemma four_digits:
  assumes "n < (16777216 :: nat)"
  shows "n div 262144 < 64" "n div 4096 mod 64 < 64" "n div 64 mod 64 < 64" "n mod 64 < 64"
    "262144 * (n div 262144) + 4096 * (n div 4096 mod 64) + 64 * (n div 64 mod 64) + n mod 64 = n"
proof -
  show "n div 262144 < 64" "n div 4096 mod 64 < 64" "n div 64 mod 64 < 64" "n mod 64 < 64"
    using assms by linarith+
  show "262144 * (n div 262144) + 4096 * (n div 4096 mod 64) + 64 * (n div 64 mod 64) + n mod 64 = n"
    using mult_div_mod_eq [of 64 n] mult_div_mod_eq [of 64 "n div 64"] mult_div_mod_eq [of 64 "n div 4096"]
      div_mult2_eq [of n 64 64, simplified] div_mult2_eq [of n 4096 64, simplified]
    by linarith
qed

lemma char_of_low [simp]: "char_of (256 * k + byte c) = c" "char_of (k * 256 + byte c) = c"
proof -
  have "(256 * k + byte c) mod 256 = byte c" by simp
  then show "char_of (256 * k + byte c) = c" "char_of (k * 256 + byte c) = c"
    by (metis char_of_mod_256 char_of_char mult.commute)+
qed

lemma b64_quanta_encoded: "b64_quanta pos [] (b64_EncodeToString s) = Inr s"
proof (induction s arbitrary: pos rule: b64_EncodeToString.induct)
  case (2 x)
  show ?case using two_digits [of "byte x"] by (simp add: Let_def b64_end_def)
next
  case (3 x y)
  have "256 * byte x + byte y < 65536"
    using nat_of_char_less_256 [of x] nat_of_char_less_256 [of y] by linarith
  note n = three_digits [OF this]
  have "(256 * byte x + byte y) * 4 div 1024 = byte x" "(256 * byte x + byte y) * 4 div 4 mod 256 = byte y"
    using nat_of_char_less_256 [of y] by simp_all
  then show ?case using n by (simp add: Let_def b64_end_def mult.commute [of 4])
next
  case (4 x y z s)
  have "65536 * byte x + 256 * byte y + byte z < 16777216"
    using nat_of_char_less_256 [of x] nat_of_char_less_256 [of y] nat_of_char_less_256 [of z] by linarith
  note n = four_digits [OF this]
  have low: "256 * byte y + byte z < 65536"
    using nat_of_char_less_256 [of y] nat_of_char_less_256 [of z] by linarith
  have "(65536 * byte x + (256 * byte y + byte z)) div 65536 = byte x"
    using low by simp
  moreover have "(65536 * byte x + 256 * byte y + byte z) div 256 = 256 * byte x + byte y"
    using nat_of_char_less_256 [of z] by linarith
  moreover have "65536 * byte x + 256 * byte y + byte z = 256 * (256 * byte x + byte y) + byte z"
    by simp
  ultimately have "char_of ((65536 * byte x + 256 * byte y + byte z) div 65536) = x"
      "char_of ((65536 * byte x + 256 * byte y + byte z) div 256 mod 256) = y"
      "char_of ((65536 * byte x + 256 * byte y + byte z) mod 256) = z"
    by (metis add.assoc char_of_char, metis char_of_low(1) char_of_mod_256, metis char_of_low(1) char_of_mod_256)
  then show ?case using 4 n by (simp add: Let_def b64_four del: b64_quanta.simps)
qed simp

lemma b64_roundtrip [simp]: "b64_DecodeString (b64_EncodeToString s) = Inr s"
  by (simp add: b64_DecodeString_def b64_quanta_encoded)

end
