(* ===== verification/Config.thy ===== *)
theory Config
imports Numerals
begin

text \<open>
  \<open>cmd/provision/config.go\<close>, \<open>hostname.go\<close> and \<open>appliance.go\<close>: the environment of the Lambda, the
  hostnames of the services and the parameter prefix of a region.

  \<open>os.Getenv\<close> is a function argument; it returns the empty string for an unset variable. The map
  \<open>loadConfig\<close> ranges over has no order in Go: the argument \<open>order\<close> is the order this run draws.
\<close>

section \<open>Configuration\<close>

record dbTarget =
  db_Host :: string
  db_Port :: int
  db_MasterSecret :: string

record config =
  cfg_Stage :: string
  cfg_Region :: string
  cfg_HostnameSuffix :: string
  cfg_IngotHostnameSuffix :: string
  cfg_DBHost :: string
  cfg_DBPort :: int
  cfg_DBAdminDatabase :: string
  cfg_DBMasterSecret :: string
  cfg_Pandora :: "dbTarget option"
  cfg_OpenBaoAddr :: string
  cfg_ChainRPCURL :: string
  cfg_ChainID :: int
  cfg_USDFCAddress :: string
  cfg_FilecoinPayAddress :: string
  cfg_FWSSAddress :: string
  cfg_PrivateCIDRs :: "string list"
  cfg_AllowListTable :: string

definition envOr :: "(string \<Rightarrow> string) \<Rightarrow> string \<Rightarrow> string \<Rightarrow> string" where
  "envOr getenv name fallback = (let v = getenv name in if v \<noteq> [] then v else fallback)"

definition pandora_vars :: "string list" where
  "pandora_vars = [''FORGE_PANDORA_DB_HOST'', ''FORGE_PANDORA_DB_PORT'', ''FORGE_PANDORA_DB_MASTER_SECRET_ARN'']"

definition loadPandoraTarget :: "(string \<Rightarrow> string) \<Rightarrow> go_error + dbTarget option" where
  "loadPandoraTarget getenv =
     (let missing = filter (\<lambda>name. getenv name = []) pandora_vars;
          present = filter (\<lambda>name. getenv name \<noteq> []) pandora_vars in
      if present = [] then Inr None
      else if missing \<noteq> [] then
        Inl (Errorf (join '', '' present @ '' set without '' @ join '', '' missing
          @ ''; the pandora cluster needs all three''))
      else
        case Atoi (getenv ''FORGE_PANDORA_DB_PORT'') of
          Inl err \<Rightarrow> Inl (wrap ''FORGE_PANDORA_DB_PORT is not a number: '' err)
        | Inr port \<Rightarrow>
            Inr (Some \<lparr>db_Host = getenv ''FORGE_PANDORA_DB_HOST'', db_Port = port,
              db_MasterSecret = getenv ''FORGE_PANDORA_DB_MASTER_SECRET_ARN''\<rparr>))"

text \<open>\<open>strings.Split\<close> at a one-byte separator.\<close>

fun split_at :: "char \<Rightarrow> string \<Rightarrow> string list" where
  "split_at c [] = [[]]"
| "split_at c (x # xs) =
     (if x = c then [] # split_at c xs
      else (case split_at c xs of [] \<Rightarrow> [[x]] | p # ps \<Rightarrow> (x # p) # ps))"

definition required_env :: "config \<Rightarrow> (string \<times> string) list" where
  "required_env cfg =
     [(''FORGE_STAGE'', cfg_Stage cfg), (''FORGE_DB_HOST'', cfg_DBHost cfg),
      (''FORGE_DB_MASTER_SECRET_ARN'', cfg_DBMasterSecret cfg),
      (''FORGE_HOSTNAME_SUFFIX'', cfg_HostnameSuffix cfg),
      (''FORGE_INGOT_HOSTNAME_SUFFIX'', cfg_IngotHostnameSuffix cfg)]"

text \<open>The fields, once the numbers among them are read.\<close>

definition config_from :: "(string \<Rightarrow> string) \<Rightarrow> int \<Rightarrow> dbTarget option \<Rightarrow> int \<Rightarrow> config" where
  "config_from getenv port pandora chainID =
     (let cidrs = getenv ''FORGE_PRIVATE_CIDRS'' in
      \<lparr>cfg_Stage = getenv ''FORGE_STAGE'', cfg_Region = getenv ''AWS_REGION'',
       cfg_HostnameSuffix = getenv ''FORGE_HOSTNAME_SUFFIX'',
       cfg_IngotHostnameSuffix = getenv ''FORGE_INGOT_HOSTNAME_SUFFIX'',
       cfg_DBHost = getenv ''FORGE_DB_HOST'', cfg_DBPort = port,
       cfg_DBAdminDatabase = envOr getenv ''FORGE_DB_ADMIN_DATABASE'' ''postgres'',
       cfg_DBMasterSecret = getenv ''FORGE_DB_MASTER_SECRET_ARN'', cfg_Pandora = pandora,
       cfg_OpenBaoAddr = getenv ''FORGE_OPENBAO_ADDR'',
       cfg_ChainRPCURL = getenv ''FORGE_CHAIN_RPC_URL'', cfg_ChainID = chainID,
       cfg_USDFCAddress = getenv ''FORGE_USDFC_ADDRESS'',
       cfg_FilecoinPayAddress = getenv ''FORGE_FILECOIN_PAY_ADDRESS'',
       cfg_FWSSAddress = getenv ''FORGE_FWSS_ADDRESS'',
       cfg_PrivateCIDRs = (if cidrs \<noteq> [] then split_at (CHR '','') cidrs else []),
       cfg_AllowListTable = getenv ''FORGE_ALLOW_LIST_TABLE''\<rparr>)"

definition loadConfig ::
  "((string \<times> string) list \<Rightarrow> (string \<times> string) list) \<Rightarrow> (string \<Rightarrow> string) \<Rightarrow> go_error + config" where
  "loadConfig order getenv =
     (case Atoi (envOr getenv ''FORGE_DB_PORT'' ''5432'') of
        Inl err \<Rightarrow> Inl (wrap ''FORGE_DB_PORT is not a number: '' err)
      | Inr port \<Rightarrow>
     (case loadPandoraTarget getenv of
        Inl err \<Rightarrow> Inl err
      | Inr pandora \<Rightarrow>
     (case (let raw = getenv ''FORGE_CHAIN_ID'' in if raw \<noteq> [] then ParseInt64 raw else Inr 0) of
        Inl err \<Rightarrow> Inl (wrap ''FORGE_CHAIN_ID is not a number: '' err)
      | Inr chainID \<Rightarrow>
     (let cfg = config_from getenv port pandora chainID;
          missing = map fst (filter (\<lambda>(name, v). v = []) (order (required_env cfg))) in
      if missing \<noteq> [] then Inl (Errorf (''missing required environment: '' @ join '', '' missing))
      else Inr cfg))))"

definition centralDB :: "config \<Rightarrow> dbTarget" where
  "centralDB c = \<lparr>db_Host = cfg_DBHost c, db_Port = cfg_DBPort c, db_MasterSecret = cfg_DBMasterSecret c\<rparr>"

section \<open>Names\<close>

definition serviceHostnameLabels :: "(string, string) go_map" where
  "serviceHostnameLabels =
     [(''sprue'', ''upload''), (''hilt'', ''auth''), (''swarf'', ''revoke''),
      (''delegator'', ''delegator''), (''signing-service'', ''signer'')]"

definition serviceHostname :: "config \<Rightarrow> string \<Rightarrow> string" where
  "serviceHostname cfg service =
     (let label = (case map_of serviceHostnameLabels service of Some l \<Rightarrow> l | None \<Rightarrow> []);
          label = (if label = [] then service else label) in
      label @ ''.'' @ cfg_HostnameSuffix cfg)"

definition unsealTokenAccessorKey :: string where
  "unsealTokenAccessorKey = ''unseal-token.accessor''"

definition applianceService :: "string \<Rightarrow> string" where
  "applianceService region = ''appliance/'' @ region"

section \<open>Facts\<close>

lemma applianceService_inject [simp]: "applianceService r = applianceService r' \<longleftrightarrow> r = r'"
  by (simp add: applianceService_def)

text \<open>The five services of the stage have five different hostnames.\<close>

lemma serviceHostname_inject:
  assumes "s \<in> fst ` set serviceHostnameLabels" "s' \<in> fst ` set serviceHostnameLabels"
  shows "serviceHostname cfg s = serviceHostname cfg s' \<longleftrightarrow> s = s'"
  using assms by (auto simp: serviceHostname_def serviceHostnameLabels_def Let_def)

lemma loadPandoraTarget_all_or_none:
  "loadPandoraTarget getenv = Inr t \<Longrightarrow>
     (case t of None \<Rightarrow> \<forall>n \<in> set pandora_vars. getenv n = []
      | Some target \<Rightarrow> (\<forall>n \<in> set pandora_vars. getenv n \<noteq> [])
          \<and> db_Host target = getenv ''FORGE_PANDORA_DB_HOST''
          \<and> Atoi (getenv ''FORGE_PANDORA_DB_PORT'') = Inr (db_Port target)
          \<and> db_MasterSecret target = getenv ''FORGE_PANDORA_DB_MASTER_SECRET_ARN'')"
  by (auto simp: loadPandoraTarget_def Let_def filter_empty_conv split: if_splits sum.splits option.splits)

text \<open>
  C26. A configuration is loaded only when every required variable is set, whatever order the
  check visits them in; the pandora target is there exactly when all three of its variables are; and
  the ports and the chain id are the numbers the variables spell.
\<close>

theorem loadConfig_accepts:
  assumes "\<And>l. set (order l) = set l"
    and "loadConfig order getenv = Inr cfg"
  shows "(\<forall>(name, v) \<in> set (required_env cfg). v \<noteq> [] \<and> v = getenv name)
    \<and> Atoi (envOr getenv ''FORGE_DB_PORT'' ''5432'') = Inr (cfg_DBPort cfg)
    \<and> (if getenv ''FORGE_CHAIN_ID'' = [] then cfg_ChainID cfg = 0
       else ParseInt64 (getenv ''FORGE_CHAIN_ID'') = Inr (cfg_ChainID cfg))
    \<and> (case cfg_Pandora cfg of None \<Rightarrow> \<forall>n \<in> set pandora_vars. getenv n = []
       | Some target \<Rightarrow> (\<forall>n \<in> set pandora_vars. getenv n \<noteq> [])
          \<and> db_Host target = getenv ''FORGE_PANDORA_DB_HOST''
          \<and> Atoi (getenv ''FORGE_PANDORA_DB_PORT'') = Inr (db_Port target)
          \<and> db_MasterSecret target = getenv ''FORGE_PANDORA_DB_MASTER_SECRET_ARN'')"
proof -
  let ?chain = "if getenv ''FORGE_CHAIN_ID'' \<noteq> [] then ParseInt64 (getenv ''FORGE_CHAIN_ID'') else Inr 0"
  from assms(2) obtain port pandora chainID where
      port: "Atoi (envOr getenv ''FORGE_DB_PORT'' ''5432'') = Inr port"
    and pandora: "loadPandoraTarget getenv = Inr pandora"
    and chain: "?chain = Inr chainID"
    unfolding loadConfig_def Let_def by (auto split: sum.splits)
  let ?cfg = "config_from getenv port pandora chainID"
  have loaded: "loadConfig order getenv =
      (if map fst (filter (\<lambda>(name, v). v = []) (order (required_env ?cfg))) \<noteq> [] then
         Inl (Errorf (''missing required environment: ''
           @ join '', '' (map fst (filter (\<lambda>(name, v). v = []) (order (required_env ?cfg))))))
       else Inr ?cfg)"
    unfolding loadConfig_def Let_def port pandora chain sum.case ..
  have missing: "filter (\<lambda>(name, v). v = []) (order (required_env ?cfg)) = []"
  proof (rule ccontr)
    assume "filter (\<lambda>(name, v). v = []) (order (required_env ?cfg)) \<noteq> []"
    then show False using assms(2) unfolding loaded by simp
  qed
  then have "cfg = ?cfg" using assms(2) unfolding loaded by simp
  note missing = missing [folded this]
  have cfg: "cfg_DBPort cfg = port" "cfg_Pandora cfg = pandora" "cfg_ChainID cfg = chainID"
      "cfg_Stage cfg = getenv ''FORGE_STAGE''" "cfg_DBHost cfg = getenv ''FORGE_DB_HOST''"
      "cfg_DBMasterSecret cfg = getenv ''FORGE_DB_MASTER_SECRET_ARN''"
      "cfg_HostnameSuffix cfg = getenv ''FORGE_HOSTNAME_SUFFIX''"
      "cfg_IngotHostnameSuffix cfg = getenv ''FORGE_INGOT_HOSTNAME_SUFFIX''"
    by (simp_all add: \<open>cfg = ?cfg\<close> config_from_def Let_def)
  have "\<forall>(name, v) \<in> set (required_env cfg). v \<noteq> []"
    using missing assms(1) [of "required_env cfg"] by (auto simp: filter_empty_conv)
  moreover have "\<forall>(name, v) \<in> set (required_env cfg). v = getenv name"
    by (simp add: required_env_def cfg)
  ultimately show ?thesis
    using loadPandoraTarget_all_or_none [OF pandora] port chain by (auto simp: cfg split: if_splits)
qed

text \<open>An environment with the required variables only.\<close>

definition test_env :: "string \<Rightarrow> string" where
  "test_env name = (case map_of
     [(''FORGE_STAGE'', ''dev''), (''FORGE_DB_HOST'', ''db''), (''FORGE_DB_MASTER_SECRET_ARN'', ''arn''),
      (''FORGE_HOSTNAME_SUFFIX'', ''dev.fil.one''), (''FORGE_INGOT_HOSTNAME_SUFFIX'', ''dev.filonecontent.com''),
      (''FORGE_CHAIN_ID'', ''314159'')] name of Some v \<Rightarrow> v | None \<Rightarrow> [])"

definition test_config :: config where
  "test_config =
     \<lparr>cfg_Stage = ''dev'', cfg_Region = [], cfg_HostnameSuffix = ''dev.fil.one'',
      cfg_IngotHostnameSuffix = ''dev.filonecontent.com'', cfg_DBHost = ''db'', cfg_DBPort = 5432,
      cfg_DBAdminDatabase = ''postgres'', cfg_DBMasterSecret = ''arn'', cfg_Pandora = None,
      cfg_OpenBaoAddr = [], cfg_ChainRPCURL = [], cfg_ChainID = 314159, cfg_USDFCAddress = [],
      cfg_FilecoinPayAddress = [], cfg_FWSSAddress = [], cfg_PrivateCIDRs = [], cfg_AllowListTable = []\<rparr>"

theorem loadConfig_accepts_witness:
  "loadConfig rev test_env = Inr test_config
   \<and> list_all (\<lambda>(name, v). v \<noteq> [] \<and> v = test_env name) (required_env test_config)"
proof -
  have "loadConfig rev test_env = Inr test_config"
    by (simp add: loadConfig_def config_from_def test_env_def test_config_def envOr_def Let_def Atoi_def ParseInt64_def
        parse_int64_def SetString10_def nat_of_digits_def is_digit_def digits_val_def digit_val_def
        loadPandoraTarget_def pandora_vars_def required_env_def)
  moreover from loadConfig_accepts [OF _ this]
  have "list_all (\<lambda>(name, v). v \<noteq> [] \<and> v = test_env name) (required_env test_config)"
    by (simp add: list_all_iff)
  ultimately show ?thesis ..
qed

end
