(* ===== verification/Proofs.thy ===== *)
theory Proofs
imports Encodings Config
begin

text \<open>
  \<open>internal/keygen/proofs.go\<close>: the UCAN delegations a stage needs, and hilt's per-region delegation.
  Signing one (it carries a random nonce) is an action of the library, reading one back a function.
\<close>

record ucan_proof =
  up_Consumer :: string
  up_Name :: string
  up_Issuer :: string
  up_issuerDID :: string
  up_audience :: string
  up_subject :: string
  up_commands :: "string list"
  up_codec :: string

text \<open>ucandelegate: the request it signs and the result, whose text form is what \<open>WriteTo\<close> writes.\<close>

record ucan_request =
  ur_IssuerDIDWeb :: string
  ur_Audience :: string
  ur_Subject :: string
  ur_Commands :: "string list"
  ur_ContainerCodec :: string

record ucan_result =
  ut_IsText :: bool
  ut_Bytes :: string
  ut_Text :: "go_error + string"

text \<open>\<open>dg_Commands\<close>: the commands of the delegations of a decoded container, in order.\<close>

record 'w delegate_lib =
  IssueFromPEM :: "string \<Rightarrow> ucan_request \<Rightarrow> ('w, ucan_result) act"
  dg_Commands :: "string \<Rightarrow> go_error + string list"

definition did_of :: "(string, string) go_map \<Rightarrow> string \<Rightarrow> string" where
  "did_of did service = (case map_of did service of Some d \<Rightarrow> d | None \<Rightarrow> [])"

definition Proofs :: "(string, string) go_map \<Rightarrow> ucan_proof list" where
  "Proofs did =
     [\<lparr>up_Consumer = ''delegator'', up_Name = ''indexing-service-proof'', up_Issuer = ''indexer'',
       up_issuerDID = did_of did ''indexer'', up_audience = did_of did ''delegator'',
       up_subject = did_of did ''indexer'', up_commands = [''/claim/cache''], up_codec = []\<rparr>,
      \<lparr>up_Consumer = ''delegator'', up_Name = ''egress-tracking-proof'', up_Issuer = ''etracker'',
       up_issuerDID = did_of did ''etracker'', up_audience = did_of did ''delegator'',
       up_subject = did_of did ''etracker'', up_commands = [''/egress/track''], up_codec = []\<rparr>,
      \<lparr>up_Consumer = ''hilt'', up_Name = ''upload-proof'', up_Issuer = ''sprue'',
       up_issuerDID = did_of did ''sprue'', up_audience = did_of did ''hilt'',
       up_subject = did_of did ''sprue'', up_commands = [''/customer/add''], up_codec = ''base64+gzip''\<rparr>]"

definition HiltIngotS3Proof :: "string \<Rightarrow> string \<Rightarrow> string \<Rightarrow> ucan_proof" where
  "HiltIngotS3Proof consumer hiltDIDWeb ingotDID =
     \<lparr>up_Consumer = consumer, up_Name = ''hilt-ingot-s3-proof'', up_Issuer = ''hilt'',
      up_issuerDID = hiltDIDWeb, up_audience = ingotDID, up_subject = hiltDIDWeb,
      up_commands = [''/s3/request/authorize'', ''/s3/bucket/create'', ''/s3/bucket/delete'',
        ''/s3/bucket/info'', ''/s3/bucket/list'', ''/s3/bucket/policy''],
      up_codec = ''base64+gzip''\<rparr>"

definition validateProof :: "ucan_proof \<Rightarrow> go_error option" where
  "validateProof proof =
     (let missing =
        (if up_issuerDID proof = [] then Some ''issuer DID''
         else if up_audience proof = [] then Some ''audience DID''
         else if up_subject proof = [] then Some ''subject DID''
         else if up_commands proof = [] then Some ''commands''
         else None) in
      map_option (\<lambda>m. Errorf (up_Name proof @ '' proof for '' @ up_Consumer proof @ '': missing '' @ m)) missing)"

definition IssueProof :: "'w delegate_lib \<Rightarrow> string \<Rightarrow> ucan_proof \<Rightarrow> ('w, string) act" where
  "IssueProof lib issuerPEM proof =
     (case validateProof proof of
        Some err \<Rightarrow> failE err
      | None \<Rightarrow>
          bindE (mapErr (wrap (''issue '' @ up_Name proof @ '' proof for '' @ up_Consumer proof @ '': ''))
            (IssueFromPEM lib issuerPEM
               \<lparr>ur_IssuerDIDWeb = up_issuerDID proof, ur_Audience = up_audience proof,
                ur_Subject = up_subject proof, ur_Commands = up_commands proof,
                ur_ContainerCodec = up_codec proof\<rparr>)) (\<lambda>result.
          if \<not> ut_IsText result then returnE (b64_EncodeToString (ut_Bytes result))
          else parseE (''encode '' @ up_Name proof @ '' proof: '') (ut_Text result)))"

definition MissingCommands :: "'w delegate_lib \<Rightarrow> string \<Rightarrow> ucan_proof \<Rightarrow> go_error + string list" where
  "MissingCommands lib stored proof =
     (case dg_Commands lib stored of
        Inl err \<Rightarrow> Inl (wrap (''decode the stored '' @ up_Name proof @ '' proof: '') err)
      | Inr granted \<Rightarrow> Inr (filter (\<lambda>command. command \<notin> set granted) (up_commands proof)))"

lemma MissingCommands_none:
  "MissingCommands lib stored proof = Inr [] \<longleftrightarrow>
     (\<exists>granted. dg_Commands lib stored = Inr granted \<and> set (up_commands proof) \<subseteq> set granted)"
  by (auto simp: MissingCommands_def filter_empty_conv split: sum.splits)

text \<open>Every proof of a stage whose services all have a DID can be issued, and no two share a parameter.\<close>

lemma Proofs_valid:
  assumes "did_of did ''indexer'' \<noteq> []" "did_of did ''etracker'' \<noteq> []" "did_of did ''sprue'' \<noteq> []"
    "did_of did ''delegator'' \<noteq> []" "did_of did ''hilt'' \<noteq> []" "p \<in> set (Proofs did)"
  shows "validateProof p = None"
  using assms(6) unfolding Proofs_def list.set
  by (elim insertE emptyE) (simp_all add: validateProof_def assms(1-5) Let_def)

lemma Proofs_distinct: "distinct (map (\<lambda>p. (up_Consumer p, up_Name p)) (Proofs did))"
  by (simp add: Proofs_def)

end
