(* ===== verification/Keygen.thy ===== *)
theory Keygen
imports Encodings
begin

text \<open>
  \<open>internal/keygen\<close>: random secrets (\<open>secret.go\<close>), Ed25519 identities (\<open>identity.go\<close>) and secp256k1
  wallets (\<open>wallet.go\<close>). The key libraries and the hash are parameters; the random source is an action.
\<close>

section \<open>Random secrets\<close>

definition secretBytes :: nat where
  "secretBytes = 24"

definition RandomHex :: "(nat \<Rightarrow> ('w, string) act) \<Rightarrow> ('w, string) act" where
  "RandomHex rand_Read =
     bindE (mapErr (wrap ''read random bytes: '') (rand_Read secretBytes)) (\<lambda>b.
     returnE (hex_EncodeToString b))"

section \<open>Identities\<close>

text \<open>ucantone and ucantool: a signer \<open>'s\<close>, its PEM, its multibase form and its did:key.\<close>

record ('w, 's) signer_lib =
  ed25519_Generate :: "('w, 's) act"
  DecodeSignerFromPEM :: "string \<Rightarrow> go_error + 's"
  EncodeSignerToPEM :: "'s \<Rightarrow> go_error + string"
  FormatSigner :: "'s \<Rightarrow> string"
  signer_DID :: "'s \<Rightarrow> string"

record identity =
  id_PrivatePEM :: string
  id_Multibase :: string
  id_DID :: string

definition newIdentity :: "('w, 's) signer_lib \<Rightarrow> 's \<Rightarrow> go_error + identity" where
  "newIdentity lib signer =
     (case EncodeSignerToPEM lib signer of
        Inl err \<Rightarrow> Inl (wrap ''encode private key PEM: '' err)
      | Inr privatePEM \<Rightarrow>
          Inr \<lparr>id_PrivatePEM = privatePEM, id_Multibase = FormatSigner lib signer, id_DID = signer_DID lib signer\<rparr>)"

definition GenerateIdentity :: "('w, 's) signer_lib \<Rightarrow> ('w, identity) act" where
  "GenerateIdentity lib =
     bindE (mapErr (wrap ''generate ed25519 key: '') (ed25519_Generate lib)) (\<lambda>signer.
     sumE (newIdentity lib signer))"

definition ParseIdentity :: "('w, 's) signer_lib \<Rightarrow> string \<Rightarrow> go_error + identity" where
  "ParseIdentity lib privatePEM =
     (case DecodeSignerFromPEM lib privatePEM of
        Inl err \<Rightarrow> Inl (wrap ''decode private key PEM: '' err)
      | Inr signer \<Rightarrow> newIdentity lib signer)"

text \<open>A stored identity reads back as itself, if the library reads the PEM it writes.\<close>

lemma ParseIdentity_newIdentity:
  assumes "\<And>pem. EncodeSignerToPEM lib signer = Inr pem \<Longrightarrow> DecodeSignerFromPEM lib pem = Inr signer"
    and "newIdentity lib signer = Inr i"
  shows "ParseIdentity lib (id_PrivatePEM i) = Inr i"
  using assms by (auto simp: newIdentity_def ParseIdentity_def split: sum.splits)

section \<open>Wallets\<close>

text \<open>secp256k1-voi and the Keccak hash: a private key \<open>'k\<close>, its bytes and its public key.\<close>

record ('w, 'k) secec_lib =
  secec_GenerateKey :: "('w, 'k) act"
  secec_NewPrivateKey :: "string \<Rightarrow> go_error + 'k"
  secec_Bytes :: "'k \<Rightarrow> string"
  secec_PublicKey :: "'k \<Rightarrow> string"
  keccak256 :: "string \<Rightarrow> string"

record evm_wallet =
  ew_priv :: string
  ew_Address :: string

definition piriWalletType :: string where
  "piriWalletType = ''delegated''"

text \<open>The loop of \<open>toChecksumAddress\<close>; \<open>hash[i]\<close> panics past the end of the hash (\<open>None\<close>).\<close>

fun checksum_chars :: "string \<Rightarrow> string \<Rightarrow> string option" where
  "checksum_chars [] hash = Some []"
| "checksum_chars (c # cs) hash =
     (if is_digit c then map_option (Cons c) (checksum_chars cs (tl hash))
      else
        case hash of
          [] \<Rightarrow> None
        | h # hs \<Rightarrow>
            map_option (Cons (if 56 \<le> byte h then char_of (byte c - 32) else c)) (checksum_chars cs hs))"

definition toChecksumAddress :: "('w, 'k) secec_lib \<Rightarrow> string \<Rightarrow> string option" where
  "toChecksumAddress lib addr =
     (let lower = hex_EncodeToString addr; hash = hex_EncodeToString (keccak256 lib lower) in
      map_option (\<lambda>out. ''0x'' @ out) (checksum_chars lower hash))"

definition newEVMWallet :: "('w, 'k) secec_lib \<Rightarrow> 'k \<Rightarrow> evm_wallet result" where
  "newEVMWallet lib priv =
     (let pub = secec_PublicKey lib priv in
      if length pub \<noteq> 65 then
        Fail (Errorf (''unexpected public key length '' @ itoa (int (length pub)) @ '' (want 65)''))
      else
        case toChecksumAddress lib (drop 12 (keccak256 lib (drop 1 pub))) of
          None \<Rightarrow> Hang
        | Some address \<Rightarrow> Ok \<lparr>ew_priv = secec_Bytes lib priv, ew_Address = address\<rparr>)"

definition GenerateEVMWallet :: "('w, 'k) secec_lib \<Rightarrow> ('w, evm_wallet) act" where
  "GenerateEVMWallet lib =
     bindE (mapErr (wrap ''generate secp256k1 key: '') (secec_GenerateKey lib)) (\<lambda>priv.
     liftE (newEVMWallet lib priv))"

definition newEVMWalletFromKeyBytes :: "('w, 'k) secec_lib \<Rightarrow> string \<Rightarrow> evm_wallet result" where
  "newEVMWalletFromKeyBytes lib key =
     (case secec_NewPrivateKey lib key of
        Inl err \<Rightarrow> Fail (wrap ''parse secp256k1 private key: '' err)
      | Inr priv \<Rightarrow> newEVMWallet lib priv)"

definition newEVMWalletFromKeyHex :: "('w, 'k) secec_lib \<Rightarrow> string \<Rightarrow> evm_wallet result" where
  "newEVMWalletFromKeyHex lib keyHex =
     (case hex_DecodeString keyHex of
        Inl err \<Rightarrow> Fail (wrap ''decode private key hex: '' err)
      | Inr keyBytes \<Rightarrow> newEVMWalletFromKeyBytes lib keyBytes)"

definition ParseEVMWalletRawHex :: "('w, 'k) secec_lib \<Rightarrow> string \<Rightarrow> evm_wallet result" where
  "ParseEVMWalletRawHex lib stored = newEVMWalletFromKeyHex lib (trim_space stored)"

definition ParseEVMWalletHex0x :: "('w, 'k) secec_lib \<Rightarrow> string \<Rightarrow> evm_wallet result" where
  "ParseEVMWalletHex0x lib stored = newEVMWalletFromKeyHex lib (trim_prefix (trim_space stored) ''0x'')"

definition RawHex :: "evm_wallet \<Rightarrow> string" where
  "RawHex w = hex_EncodeToString (ew_priv w)"

definition Hex0x :: "evm_wallet \<Rightarrow> string" where
  "Hex0x w = ''0x'' @ RawHex w"

definition PiriWalletHex :: "evm_wallet \<Rightarrow> string" where
  \<open>PiriWalletHex w =
     hex_EncodeToString (''{"Type":'' @ go_quote piriWalletType @ '',"PrivateKey":"''
       @ b64_EncodeToString (ew_priv w) @ ''"}'')\<close>

section \<open>Facts\<close>

lemma trim_space_hex: "trim_space (hex_EncodeToString s) = hex_EncodeToString s"
  using hex_chars [of s] by (intro trim_space_plain)
    (metis is_hex_plain last_in_set list.set_sel(1) list_all_iff)

lemma trim_space_0x: "trim_space (''0x'' @ hex_EncodeToString s) = ''0x'' @ hex_EncodeToString s"
proof (rule trim_space_plain)
  have "plain_char (last (''0x'' @ hex_EncodeToString s))"
    using hex_chars [of s] is_hex_plain [of "last (hex_EncodeToString s)"]
    by (cases "hex_EncodeToString s = []") (auto simp: plain_char_def list_all_iff)
  then show "''0x'' @ hex_EncodeToString s = [] \<or> plain_char (hd (''0x'' @ hex_EncodeToString s))
      \<and> plain_char (last (''0x'' @ hex_EncodeToString s))"
    by (simp add: plain_char_def)
qed

text \<open>The checksum changes the case of letters only, and never runs past the hash.\<close>

definition lower_hex :: "char \<Rightarrow> char" where
  "lower_hex c = (if 65 \<le> byte c \<and> byte c \<le> 70 then char_of (byte c + 32) else c)"

lemma lower_hex_upper: "is_hex c \<Longrightarrow> \<not> is_digit c \<Longrightarrow> lower_hex (char_of (byte c - 32)) = c"
  by (auto simp: is_hex_def lower_hex_def is_digit_def char_of_eq_iff)

lemma lower_hex_id: "is_hex c \<Longrightarrow> lower_hex c = c"
  by (auto simp: is_hex_def lower_hex_def)

lemma checksum_chars_lower:
  assumes "list_all is_hex cs" "length cs \<le> length hash"
  shows "\<exists>out. checksum_chars cs hash = Some out \<and> map lower_hex out = cs"
  using assms
proof (induction cs arbitrary: hash)
  case (Cons c cs)
  then obtain h hs where hash: "hash = h # hs" by (cases hash) auto
  with Cons obtain out where "checksum_chars cs hs = Some out" "map lower_hex out = cs" by fastforce
  then show ?case using Cons.prems hash by (auto simp: lower_hex_upper lower_hex_id)
qed simp

lemma checksum_chars_nth:
  assumes "checksum_chars cs hash = Some out" "i < length cs" "length cs \<le> length hash"
  shows "out ! i = (if is_digit (cs ! i) \<or> byte (hash ! i) < 56 then cs ! i else char_of (byte (cs ! i) - 32))"
  using assms
proof (induction cs arbitrary: hash out i)
  case (Cons c cs)
  then show ?case by (cases hash; cases i) (auto split: if_splits)
qed simp

lemma checksum_chars_length: "checksum_chars cs hash = Some out \<Longrightarrow> length out = length cs"
  by (induction cs arbitrary: hash out) (auto split: if_splits list.splits)

section \<open>Properties\<close>

text \<open>
  C32. Wallets round trip: the raw and the 0x-prefixed serialization of a wallet both read back as the
  same key and the same address, if the library reads the key bytes it writes.
\<close>

theorem wallet_roundtrip:
  assumes "secec_NewPrivateKey lib (secec_Bytes lib priv) = Inr priv" "newEVMWallet lib priv = Ok w"
  shows "ParseEVMWalletRawHex lib (RawHex w) = Ok w \<and> ParseEVMWalletHex0x lib (Hex0x w) = Ok w"
proof -
  have "ew_priv w = secec_Bytes lib priv"
    using assms(2) by (auto simp: newEVMWallet_def Let_def split: if_splits option.splits)
  then have "newEVMWalletFromKeyHex lib (RawHex w) = Ok w"
    using assms by (simp add: newEVMWalletFromKeyHex_def newEVMWalletFromKeyBytes_def RawHex_def)
  moreover have "trim_prefix (''0x'' @ s) ''0x'' = s" for s
    by (simp add: trim_prefix_def)
  ultimately show ?thesis
    unfolding ParseEVMWalletRawHex_def ParseEVMWalletHex0x_def Hex0x_def RawHex_def trim_space_hex trim_space_0x
    by simp
qed

text \<open>A library whose keys are their bytes and whose hash is a constant.\<close>

definition toy_secec :: "(unit, string) secec_lib" where
  "toy_secec =
     \<lparr>secec_GenerateKey = returnE ''key'', secec_NewPrivateKey = Inr, secec_Bytes = (\<lambda>k. k),
      secec_PublicKey = (\<lambda>k. replicate 65 (CHR 0x04)), keccak256 = (\<lambda>s. replicate 32 (CHR 0xAB))\<rparr>"

lemma toy_wallet:
  "\<exists>w. newEVMWallet toy_secec k = Ok w \<and> ew_priv w = k"
proof -
  have "list_all is_hex (hex_EncodeToString (replicate 20 (CHR 0xAB)))" by (rule hex_chars)
  then obtain out where "checksum_chars (hex_EncodeToString (replicate 20 (CHR 0xAB)))
      (hex_EncodeToString (replicate 32 (CHR 0xAB))) = Some out"
    using checksum_chars_lower [of "hex_EncodeToString (replicate 20 (CHR 0xAB))"
        "hex_EncodeToString (replicate 32 (CHR 0xAB))"] by auto
  then show ?thesis
    by (simp add: newEVMWallet_def toy_secec_def toChecksumAddress_def Let_def)
qed

theorem wallet_roundtrip_witness:
  "\<exists>w. newEVMWallet toy_secec ''secret'' = Ok w \<and> ParseEVMWalletRawHex toy_secec (RawHex w) = Ok w
     \<and> ParseEVMWalletHex0x toy_secec (Hex0x w) = Ok w \<and> RawHex w = ''736563726574''"
proof -
  obtain w where w: "newEVMWallet toy_secec ''secret'' = Ok w" "ew_priv w = ''secret''"
    using toy_wallet by blast
  moreover have "secec_NewPrivateKey toy_secec (secec_Bytes toy_secec ''secret'') = Inr ''secret''"
    by (simp add: toy_secec_def)
  moreover have "RawHex w = ''736563726574''"
    by (simp add: RawHex_def w(2) hex_EncodeToString_def hex_nibble_def char_of_eq_iff)
  ultimately show ?thesis using wallet_roundtrip [of toy_secec "''secret''" w] by blast
qed

text \<open>
  C33. The address is the EIP-55 rendering of the low 20 bytes of the hash of the public key: 42
  characters, \<open>0x\<close> and 40 hex digits, where a letter is upper case exactly when the digit of the
  hash at its place is 8 or more. The loop never reads past the hash.
\<close>

theorem wallet_address:
  assumes "\<And>s. length (keccak256 lib s) = 32" "length (secec_PublicKey lib priv) = 65"
  shows "\<exists>w. newEVMWallet lib priv = Ok w
    \<and> (let lower = hex_EncodeToString (drop 12 (keccak256 lib (tl (secec_PublicKey lib priv))));
           hash = hex_EncodeToString (keccak256 lib lower);
           digits = drop 2 (ew_Address w) in
       take 2 (ew_Address w) = ''0x'' \<and> length digits = 40 \<and> map lower_hex digits = lower
       \<and> (\<forall>i < 40. digits ! i = (if is_digit (lower ! i) \<or> byte (hash ! i) < 56 then lower ! i
            else char_of (byte (lower ! i) - 32))))"
proof -
  let ?lower = "hex_EncodeToString (drop 12 (keccak256 lib (tl (secec_PublicKey lib priv))))"
  let ?hash = "hex_EncodeToString (keccak256 lib ?lower)"
  have len: "length ?lower = 40" "length ?hash = 64" by (simp_all add: assms(1))
  then have "length ?lower \<le> length ?hash" by simp
  from checksum_chars_lower [OF hex_chars this] obtain out
    where out: "checksum_chars ?lower ?hash = Some out" "map lower_hex out = ?lower" by blast
  then have "length out = 40" using checksum_chars_length [OF out(1)] len by simp
  moreover have "out ! i = (if is_digit (?lower ! i) \<or> byte (?hash ! i) < 56 then ?lower ! i
      else char_of (byte (?lower ! i) - 32))" if "i < 40" for i
    using checksum_chars_nth [OF out(1)] that len by simp
  moreover have "newEVMWallet lib priv = Ok \<lparr>ew_priv = secec_Bytes lib priv, ew_Address = ''0x'' @ out\<rparr>"
    using out(1) by (simp add: newEVMWallet_def toChecksumAddress_def assms(2) drop_Suc Let_def)
  ultimately show ?thesis
    using out(2) by (intro exI [of _ "\<lparr>ew_priv = secec_Bytes lib priv, ew_Address = ''0x'' @ out\<rparr>"]) (simp add: Let_def)
qed

theorem wallet_address_witness:
  "\<exists>w. newEVMWallet toy_secec ''secret'' = Ok w \<and> length (drop 2 (ew_Address w)) = 40"
proof -
  have "\<And>s. length (keccak256 toy_secec s) = 32" "length (secec_PublicKey toy_secec ''secret'') = 65"
    by (simp_all add: toy_secec_def)
  from wallet_address [of toy_secec, OF this] show ?thesis by (auto simp: Let_def)
qed

end
