(* ===== verification/Onboard.thy ===== *)
theory Onboard
imports Config
begin

text \<open>
  \<open>internal/onboard/onboard.go\<close>: admitting a regional appliance. \<open>Read\<close> collects what the
  delegator's allow list, sprue, hilt and central's own record hold, \<open>PlanFrom\<close> decides, and
  \<open>Apply\<close> performs the plan's writes in an order that survives stopping anywhere.

  The four interfaces and the proof issuer are records of actions. The locale \<open>onboarding\<close> states
  what they promise, over the abstract \<open>onb_view\<close> of what the services hold; \<open>OnboardClients\<close>
  interprets it on the adapters of this repository.
\<close>

section \<open>Data\<close>

record provider =
  pr_Endpoint :: string
  pr_Weight :: int
  pr_ReplicationWeight :: int

record hilt_provider =
  hp_Region :: string
  hp_Policy :: string

record 'w allow_list =
  al_Has :: "string \<Rightarrow> ('w, bool) act"
  al_Add :: "string \<Rightarrow> ('w, unit) act"

record 'w sprue_admin =
  sa_Provider :: "string \<Rightarrow> ('w, provider option) act"
  sa_Register :: "string \<Rightarrow> string \<Rightarrow> string \<Rightarrow> ('w, unit) act"
  sa_SetProofs :: "string \<Rightarrow> string \<Rightarrow> ('w, unit) act"
  sa_SetWeight :: "string \<Rightarrow> int \<Rightarrow> int \<Rightarrow> ('w, unit) act"

record 'w hilt_admin =
  ha_Provider :: "string \<Rightarrow> ('w, hilt_provider option) act"
  ha_AddProvider :: "string \<Rightarrow> string \<Rightarrow> string list \<Rightarrow> ('w, unit) act"
  ha_SetProviderNodes :: "string \<Rightarrow> string list \<Rightarrow> ('w, unit) act"

record 'w piri_record =
  pc_Recorded :: "string \<Rightarrow> ('w, string list) act"
  pc_Record :: "string \<Rightarrow> string \<Rightarrow> ('w, unit) act"

record onboard_request =
  or_Region :: string
  or_PiriDID :: string
  or_IngotDID :: string
  or_PiriURL :: string
  or_PiriProof :: string
  or_Weight :: int
  or_ReplicationWeight :: int

record 'w onboard_deps =
  od_AllowList :: "'w allow_list"
  od_Sprue :: "'w sprue_admin"
  od_Hilt :: "'w hilt_admin"
  od_IssueProof :: "string \<Rightarrow> string \<Rightarrow> ('w, string) act"
  od_PiriRecord :: "'w piri_record"

record onboard_state =
  st_Region :: string
  st_AllowListed :: bool
  st_Sprue :: "provider option"
  st_HiltRegion :: string
  st_HiltPolicy :: string
  st_RecordedPiris :: "string list"
  st_PiriRecorded :: bool

record onboard_plan = onboard_state +
  pl_Actions :: "string list"
  pl_Blockers :: "string list"

record onboard_result =
  res_Region :: string
  res_Performed :: "string list"
  res_HiltIngotS3Proof :: string

section \<open>Operations\<close>

definition Read :: "'w onboard_deps \<Rightarrow> onboard_request \<Rightarrow> ('w, onboard_state) act" where
  "Read deps req =
     bindE (mapErr (wrap ''read the delegator allow list: '') (al_Has (od_AllowList deps) (or_PiriDID req))) (\<lambda>allowed.
     bindE (mapErr (wrap ''read sprue's providers: '') (sa_Provider (od_Sprue deps) (or_PiriDID req))) (\<lambda>provider.
     bindE (mapErr (wrap ''read hilt's provider record: '') (ha_Provider (od_Hilt deps) (or_IngotDID req))) (\<lambda>hilt.
     bindE (mapErr (wrap ''read the region's recorded Piri DIDs: '')
              (pc_Recorded (od_PiriRecord deps) (or_Region req))) (\<lambda>recorded.
     returnE \<lparr>st_Region = or_Region req, st_AllowListed = allowed, st_Sprue = provider,
       st_HiltRegion = (case hilt of None \<Rightarrow> [] | Some h \<Rightarrow> hp_Region h),
       st_HiltPolicy = (case hilt of None \<Rightarrow> [] | Some h \<Rightarrow> hp_Policy h),
       st_RecordedPiris = recorded, st_PiriRecorded = or_PiriDID req \<in> set recorded\<rparr>))))"

definition nodeSet :: "('a) onboard_state_scheme \<Rightarrow> onboard_request \<Rightarrow> string list" where
  "nodeSet state req =
     (if st_PiriRecorded state then st_RecordedPiris state
      else st_RecordedPiris state @ [or_PiriDID req])"

definition plan_allow :: "onboard_state \<Rightarrow> onboard_request \<Rightarrow> string list" where
  "plan_allow state req =
     (if \<not> st_AllowListed state
      then [''add '' @ or_PiriDID req @ '' to the delegator's allow list''] else [])"

text \<open>The switch over sprue's record: the actions and the blockers it appends.\<close>

definition plan_sprue :: "onboard_state \<Rightarrow> onboard_request \<Rightarrow> string list \<times> string list" where
  "plan_sprue state req =
     (case st_Sprue state of
        None \<Rightarrow>
          if or_PiriProof req = [] then
            ([], [''registering '' @ or_PiriDID req
              @ '' with sprue needs the proof the appliance signed with its Piri key, and the request carries none''])
          else ([''register '' @ or_PiriDID req @ '' with sprue at '' @ or_PiriURL req], [])
      | Some p \<Rightarrow>
          if pr_Endpoint p \<noteq> or_PiriURL req then
            ([], [''sprue has '' @ or_PiriDID req @ '' registered at '' @ pr_Endpoint p @ '', not ''
              @ or_PiriURL req
              @ ''; re-registering moves where uploads are sent, so deregister it deliberately first''])
          else if or_PiriProof req \<noteq> [] then
            ([''replace '' @ or_PiriDID req @ possessive
              @ '' delegation in sprue with the one in the request''], [])
          else ([], []))"

definition plan_weights :: "onboard_state \<Rightarrow> onboard_request \<Rightarrow> string list" where
  "plan_weights state req =
     (if (case st_Sprue state of
            None \<Rightarrow> True
          | Some p \<Rightarrow> pr_Weight p \<noteq> or_Weight req \<or> pr_ReplicationWeight p \<noteq> or_ReplicationWeight req)
      then [''set '' @ or_PiriDID req @ possessive @ '' weights to '' @ itoa (or_Weight req)
              @ '' and '' @ itoa (or_ReplicationWeight req)]
      else [])"

text \<open>The switch over hilt's record.\<close>

definition plan_hilt :: "onboard_state \<Rightarrow> onboard_request \<Rightarrow> string list \<times> string list" where
  "plan_hilt state req =
     (if st_HiltRegion state = [] then
        ([''register '' @ or_IngotDID req @ '' with hilt for region '' @ or_Region req], [])
      else if st_HiltRegion state \<noteq> or_Region req then
        ([], [''hilt has '' @ or_IngotDID req @ '' registered for region '' @ st_HiltRegion state @ '', not ''
          @ or_Region req
          @ ''; hilt has no command to move a provider, so retire the region it names with make retire-region before onboarding again''])
      else if st_HiltPolicy state = [] then
        ([''set '' @ or_IngotDID req @ possessive @ '' storage nodes in hilt to ''
          @ join '', '' (nodeSet state req)], [])
      else if \<not> st_PiriRecorded state then
        ([''add '' @ or_PiriDID req @ '' to '' @ or_IngotDID req @ possessive @ '' storage nodes in hilt''], [])
      else ([], []))"

definition plan_record :: "onboard_state \<Rightarrow> onboard_request \<Rightarrow> string list" where
  "plan_record state req =
     (if \<not> st_PiriRecorded state
      then [''record '' @ or_PiriDID req @ '' as a Piri of region '' @ or_Region req] else [])"

definition PlanFrom :: "onboard_state \<Rightarrow> onboard_request \<Rightarrow> onboard_plan" where
  "PlanFrom state req =
     onboard_state.extend state
       \<lparr>pl_Actions = plan_allow state req @ fst (plan_sprue state req) @ plan_weights state req
          @ fst (plan_hilt state req) @ plan_record state req,
        pl_Blockers = snd (plan_sprue state req) @ snd (plan_hilt state req)\<rparr>"

text \<open>\<open>Apply\<close>, in the five steps it takes after the blockers are checked.\<close>

definition apply_allow ::
  "'w onboard_deps \<Rightarrow> onboard_request \<Rightarrow> onboard_plan \<Rightarrow> ('w, string list) act" where
  "apply_allow deps req plan =
     (if \<not> st_AllowListed plan then
        thenE (mapErr (wrap (''allow-list '' @ or_PiriDID req @ '': ''))
                 (al_Add (od_AllowList deps) (or_PiriDID req)))
          (returnE [''allow-listed '' @ or_PiriDID req])
      else returnE [])"

definition apply_sprue ::
  "'w onboard_deps \<Rightarrow> onboard_request \<Rightarrow> onboard_plan \<Rightarrow> ('w, string list) act" where
  "apply_sprue deps req plan =
     bindE
       (case st_Sprue plan of
          None \<Rightarrow>
            thenE (mapErr (wrap (''register '' @ or_PiriDID req @ '' with sprue: ''))
                     (sa_Register (od_Sprue deps) (or_PiriDID req) (or_PiriURL req) (or_PiriProof req)))
              (returnE [''registered '' @ or_PiriDID req @ '' with sprue''])
        | Some _ \<Rightarrow>
            if or_PiriProof req \<noteq> [] then
              thenE (mapErr (wrap (''replace '' @ or_PiriDID req @ possessive @ '' delegation in sprue: ''))
                       (sa_SetProofs (od_Sprue deps) (or_PiriDID req) (or_PiriProof req)))
                (returnE [''replaced '' @ or_PiriDID req @ possessive @ '' delegation in sprue''])
            else returnE [])
       (\<lambda>performed.
     thenE (mapErr (wrap (''set '' @ or_PiriDID req @ possessive @ '' weights: ''))
              (sa_SetWeight (od_Sprue deps) (or_PiriDID req) (or_Weight req) (or_ReplicationWeight req)))
       (returnE (performed @ [''set sprue weights''])))"

definition apply_hilt ::
  "'w onboard_deps \<Rightarrow> onboard_request \<Rightarrow> onboard_plan \<Rightarrow> ('w, string list) act" where
  "apply_hilt deps req plan =
     (let nodes = nodeSet plan req in
      if st_HiltRegion plan = [] then
        thenE (mapErr (wrap (''register '' @ or_IngotDID req @ '' with hilt: ''))
                 (ha_AddProvider (od_Hilt deps) (or_IngotDID req) (or_Region req) nodes))
          (bindE (mapErr (wrap ''verify hilt's provider record: '')
                    (ha_Provider (od_Hilt deps) (or_IngotDID req))) (\<lambda>hilt.
           if (case hilt of None \<Rightarrow> True | Some h \<Rightarrow> hp_Region h \<noteq> or_Region req) then
             failE (Errorf (''hilt reported success but lists '' @ or_IngotDID req @ '' for region ''
               @ go_quote (case hilt of None \<Rightarrow> [] | Some h \<Rightarrow> hp_Region h) @ '', want ''
               @ go_quote (or_Region req) @ ''; retire that region with make retire-region before retrying''))
           else returnE [''registered '' @ or_IngotDID req @ '' with hilt for '' @ or_Region req]))
      else if st_HiltPolicy plan = [] \<or> \<not> st_PiriRecorded plan then
        thenE (mapErr (wrap (''set '' @ or_IngotDID req @ possessive @ '' storage nodes in hilt: ''))
                 (ha_SetProviderNodes (od_Hilt deps) (or_IngotDID req) nodes))
          (returnE [''set '' @ or_IngotDID req @ possessive @ '' storage nodes in hilt to '' @ join '', '' nodes])
      else returnE [])"

definition apply_record ::
  "'w onboard_deps \<Rightarrow> onboard_request \<Rightarrow> onboard_plan \<Rightarrow> ('w, string list) act" where
  "apply_record deps req plan =
     (if \<not> st_PiriRecorded plan then
        thenE (mapErr (wrap (''record '' @ or_PiriDID req @ '' as a Piri of region '' @ or_Region req @ '': ''))
                 (pc_Record (od_PiriRecord deps) (or_Region req) (or_PiriDID req)))
          (returnE [''recorded '' @ or_PiriDID req @ '' as a Piri of '' @ or_Region req])
      else returnE [])"

definition Apply ::
  "'w onboard_deps \<Rightarrow> onboard_request \<Rightarrow> onboard_plan \<Rightarrow> ('w, onboard_result) act" where
  "Apply deps req plan =
     (if pl_Blockers plan \<noteq> [] then
        failE (Errorf (''refusing to write: '' @ join ''; and '' (pl_Blockers plan)))
      else
        bindE (apply_allow deps req plan) (\<lambda>allowed.
        bindE (apply_sprue deps req plan) (\<lambda>sprue.
        bindE (apply_hilt deps req plan) (\<lambda>hilt.
        bindE (apply_record deps req plan) (\<lambda>recorded.
        bindE (mapErr (wrap (''issue hilt's delegation to '' @ or_IngotDID req @ '': ''))
                 (od_IssueProof deps (or_Region req) (or_IngotDID req))) (\<lambda>proof.
        returnE \<lparr>res_Region = or_Region req, res_Performed = allowed @ sprue @ hilt @ recorded,
          res_HiltIngotS3Proof = proof\<rparr>))))))"

text \<open>What a confirmed run does: read, plan, apply.\<close>

definition onboard_run :: "'w onboard_deps \<Rightarrow> onboard_request \<Rightarrow> ('w, onboard_result) act" where
  "onboard_run deps req = bindE (Read deps req) (\<lambda>state. Apply deps req (PlanFrom state req))"

section \<open>What the services promise\<close>

text \<open>
  \<open>onb_view\<close> is what the services hold: the allow list, sprue's providers, hilt's providers and the
  storage nodes each was given, and the Piri DIDs central has recorded for each region.
\<close>

record onb_view =
  ov_allowed :: "string set"
  ov_sprue :: "string \<Rightarrow> provider option"
  ov_hilt :: "string \<Rightarrow> hilt_provider option"
  ov_nodes :: "string \<Rightarrow> string set"
  ov_recorded :: "string \<Rightarrow> string set"

text \<open>
  A write that returns has taken effect; one that fails did nothing or took effect. Registering with
  hilt tolerates a provider that is already registered, and then changes nothing. Setting a
  provider's nodes gives it a routing policy. \<open>okr\<close> and \<open>okd\<close> are the region labels and Piri DIDs
  the record can hold, and \<open>inv\<close> the invariant of its storage.
\<close>

locale onboarding =
  fixes deps :: "'w onboard_deps"
    and view :: "'w \<Rightarrow> onb_view"
    and inv :: "'w \<Rightarrow> bool"
    and okr :: "string \<Rightarrow> bool"
    and okd :: "string \<Rightarrow> bool"
  assumes has: "inv w \<Longrightarrow> wp (al_Has (od_AllowList deps) did)
      (\<lambda>r w'. inv w' \<and> view w' = view w \<and> r = (did \<in> ov_allowed (view w)))
      (\<lambda>_ w'. inv w' \<and> view w' = view w) w"
    and add: "inv w \<Longrightarrow> wp (al_Add (od_AllowList deps) did)
      (\<lambda>_ w'. inv w' \<and> view w' = (view w)\<lparr>ov_allowed := insert did (ov_allowed (view w))\<rparr>)
      (\<lambda>_ w'. inv w' \<and> (view w' = view w
         \<or> view w' = (view w)\<lparr>ov_allowed := insert did (ov_allowed (view w))\<rparr>)) w"
    and sprue_provider: "inv w \<Longrightarrow> wp (sa_Provider (od_Sprue deps) did)
      (\<lambda>r w'. inv w' \<and> view w' = view w \<and> r = ov_sprue (view w) did)
      (\<lambda>_ w'. inv w' \<and> view w' = view w) w"
    and register: "inv w \<Longrightarrow> ov_sprue (view w) did = None \<Longrightarrow>
      wp (sa_Register (od_Sprue deps) did endpoint piri_proof)
      (\<lambda>_ w'. inv w' \<and> (\<exists>p. pr_Endpoint p = endpoint
         \<and> view w' = (view w)\<lparr>ov_sprue := (ov_sprue (view w))(did \<mapsto> p)\<rparr>))
      (\<lambda>_ w'. inv w' \<and> (view w' = view w \<or> (\<exists>p. pr_Endpoint p = endpoint
         \<and> view w' = (view w)\<lparr>ov_sprue := (ov_sprue (view w))(did \<mapsto> p)\<rparr>))) w"
    and set_proofs: "inv w \<Longrightarrow> wp (sa_SetProofs (od_Sprue deps) did piri_proof)
      (\<lambda>_ w'. inv w' \<and> view w' = view w) (\<lambda>_ w'. inv w' \<and> view w' = view w) w"
    and set_weight: "inv w \<Longrightarrow> ov_sprue (view w) did = Some p \<Longrightarrow>
      wp (sa_SetWeight (od_Sprue deps) did weight replication)
      (\<lambda>_ w'. inv w' \<and> view w' = (view w)\<lparr>ov_sprue := (ov_sprue (view w))
         (did \<mapsto> p\<lparr>pr_Weight := weight, pr_ReplicationWeight := replication\<rparr>)\<rparr>)
      (\<lambda>_ w'. inv w' \<and> (view w' = view w \<or> view w' = (view w)\<lparr>ov_sprue := (ov_sprue (view w))
         (did \<mapsto> p\<lparr>pr_Weight := weight, pr_ReplicationWeight := replication\<rparr>)\<rparr>)) w"
    and hilt_provider: "inv w \<Longrightarrow> wp (ha_Provider (od_Hilt deps) ingot)
      (\<lambda>r w'. inv w' \<and> view w' = view w \<and> r = ov_hilt (view w) ingot)
      (\<lambda>_ w'. inv w' \<and> view w' = view w) w"
    and add_provider: "inv w \<Longrightarrow> nodes \<noteq> [] \<Longrightarrow>
      wp (ha_AddProvider (od_Hilt deps) ingot region nodes)
      (\<lambda>_ w'. inv w' \<and> (if ov_hilt (view w) ingot = None
         then \<exists>policy. policy \<noteq> [] \<and> view w' = (view w)\<lparr>
           ov_hilt := (ov_hilt (view w))(ingot \<mapsto> \<lparr>hp_Region = region, hp_Policy = policy\<rparr>),
           ov_nodes := (ov_nodes (view w))(ingot := set nodes)\<rparr>
         else view w' = view w))
      (\<lambda>_ w'. inv w' \<and> (view w' = view w \<or> ov_hilt (view w) ingot = None
         \<and> (\<exists>policy. policy \<noteq> [] \<and> view w' = (view w)\<lparr>
           ov_hilt := (ov_hilt (view w))(ingot \<mapsto> \<lparr>hp_Region = region, hp_Policy = policy\<rparr>),
           ov_nodes := (ov_nodes (view w))(ingot := set nodes)\<rparr>))) w"
    and set_nodes: "inv w \<Longrightarrow> nodes \<noteq> [] \<Longrightarrow> ov_hilt (view w) ingot = Some h \<Longrightarrow>
      wp (ha_SetProviderNodes (od_Hilt deps) ingot nodes)
      (\<lambda>_ w'. inv w' \<and> (\<exists>policy. policy \<noteq> [] \<and> view w' = (view w)\<lparr>
           ov_hilt := (ov_hilt (view w))(ingot \<mapsto> h\<lparr>hp_Policy := policy\<rparr>),
           ov_nodes := (ov_nodes (view w))(ingot := set nodes)\<rparr>))
      (\<lambda>_ w'. inv w' \<and> (view w' = view w \<or> (\<exists>policy. policy \<noteq> [] \<and> view w' = (view w)\<lparr>
           ov_hilt := (ov_hilt (view w))(ingot \<mapsto> h\<lparr>hp_Policy := policy\<rparr>),
           ov_nodes := (ov_nodes (view w))(ingot := set nodes)\<rparr>))) w"
    and recorded: "inv w \<Longrightarrow> okr region \<Longrightarrow> wp (pc_Recorded (od_PiriRecord deps) region)
      (\<lambda>ds w'. inv w' \<and> view w' = view w \<and> set ds = ov_recorded (view w) region)
      (\<lambda>_ w'. inv w' \<and> view w' = view w) w"
    and record_piri: "inv w \<Longrightarrow> okr region \<Longrightarrow> okd did \<Longrightarrow> wp (pc_Record (od_PiriRecord deps) region did)
      (\<lambda>_ w'. inv w' \<and> view w' = (view w)\<lparr>ov_recorded :=
         (ov_recorded (view w))(region := insert did (ov_recorded (view w) region))\<rparr>)
      (\<lambda>_ w'. inv w' \<and> (view w' = view w \<or> view w' = (view w)\<lparr>ov_recorded :=
         (ov_recorded (view w))(region := insert did (ov_recorded (view w) region))\<rparr>)) w"
    and issue: "inv w \<Longrightarrow> okr region \<Longrightarrow> wp (od_IssueProof deps region ingot)
      (\<lambda>_ w'. inv w' \<and> view w' = view w) (\<lambda>_ w'. inv w' \<and> view w' = view w) w"

text \<open>
  Every Piri central has recorded for a region is a node hilt was given for the region's Ingot, as
  soon as hilt routes that Ingot by a policy.
\<close>

definition told :: "string \<Rightarrow> string \<Rightarrow> onb_view \<Rightarrow> bool" where
  "told region ingot v \<longleftrightarrow>
     (case ov_hilt v ingot of
        None \<Rightarrow> True
      | Some h \<Rightarrow> hp_Region h = region \<and> hp_Policy h \<noteq> [] \<longrightarrow> ov_recorded v region \<subseteq> ov_nodes v ingot)"

text \<open>What a successful run leaves: everything the package comment lists.\<close>

definition onboarded :: "onboard_request \<Rightarrow> onb_view \<Rightarrow> bool" where
  "onboarded req v \<longleftrightarrow>
     or_PiriDID req \<in> ov_allowed v
     \<and> ov_sprue v (or_PiriDID req) = Some \<lparr>pr_Endpoint = or_PiriURL req, pr_Weight = or_Weight req,
         pr_ReplicationWeight = or_ReplicationWeight req\<rparr>
     \<and> (\<exists>h. ov_hilt v (or_IngotDID req) = Some h \<and> hp_Region h = or_Region req \<and> hp_Policy h \<noteq> [])
     \<and> or_PiriDID req \<in> ov_recorded v (or_Region req)
     \<and> ov_recorded v (or_Region req) \<subseteq> ov_nodes v (or_IngotDID req)"

text \<open>What a run may not touch: the other appliances, providers and regions.\<close>

definition others_same :: "onboard_request \<Rightarrow> onb_view \<Rightarrow> onb_view \<Rightarrow> bool" where
  "others_same req v v' \<longleftrightarrow>
     (\<forall>d. d \<noteq> or_PiriDID req \<longrightarrow> (d \<in> ov_allowed v') = (d \<in> ov_allowed v) \<and> ov_sprue v' d = ov_sprue v d)
     \<and> (\<forall>i. i \<noteq> or_IngotDID req \<longrightarrow> ov_hilt v' i = ov_hilt v i \<and> ov_nodes v' i = ov_nodes v i)
     \<and> (\<forall>r. r \<noteq> or_Region req \<longrightarrow> ov_recorded v' r = ov_recorded v r)
     \<and> ov_allowed v \<subseteq> ov_allowed v' \<and> ov_recorded v (or_Region req) \<subseteq> ov_recorded v' (or_Region req)"

lemma onb_view_same [simp]:
  "v\<lparr>ov_allowed := ov_allowed v\<rparr> = v" "v\<lparr>ov_recorded := ov_recorded v\<rparr> = v"
  "v\<lparr>ov_sprue := ov_sprue v\<rparr> = v" "v\<lparr>ov_hilt := ov_hilt v, ov_nodes := ov_nodes v\<rparr> = v"
  by (cases v; simp)+

text \<open>The plan was made from what the services hold now.\<close>

definition fits_hilt :: "onboard_request \<Rightarrow> onb_view \<Rightarrow> 'a onboard_state_scheme \<Rightarrow> bool" where
  "fits_hilt req v st \<longleftrightarrow>
     st_HiltRegion st = (case ov_hilt v (or_IngotDID req) of None \<Rightarrow> [] | Some h \<Rightarrow> hp_Region h)
     \<and> st_HiltPolicy st = (case ov_hilt v (or_IngotDID req) of None \<Rightarrow> [] | Some h \<Rightarrow> hp_Policy h)
     \<and> set (st_RecordedPiris st) = ov_recorded v (or_Region req)
     \<and> st_PiriRecorded st = (or_PiriDID req \<in> ov_recorded v (or_Region req))"

definition plan_fits :: "onboard_request \<Rightarrow> onb_view \<Rightarrow> 'a onboard_state_scheme \<Rightarrow> bool" where
  "plan_fits req v st \<longleftrightarrow>
     st_AllowListed st = (or_PiriDID req \<in> ov_allowed v)
     \<and> st_Sprue st = ov_sprue v (or_PiriDID req) \<and> fits_hilt req v st"

lemma set_nodeSet: "fits_hilt req v st \<Longrightarrow> set (nodeSet st req) = insert (or_PiriDID req) (ov_recorded v (or_Region req))"
  by (auto simp: fits_hilt_def nodeSet_def)

lemma nodeSet_nonempty: "fits_hilt req v st \<Longrightarrow> nodeSet st req \<noteq> []"
  using set_nodeSet by (metis empty_set insert_not_empty)

lemma PlanFrom_select [simp]:
  "onboard_state.truncate (PlanFrom st req) = st"
  "st_AllowListed (PlanFrom st req) = st_AllowListed st" "st_Sprue (PlanFrom st req) = st_Sprue st"
  "st_HiltRegion (PlanFrom st req) = st_HiltRegion st" "st_HiltPolicy (PlanFrom st req) = st_HiltPolicy st"
  "st_RecordedPiris (PlanFrom st req) = st_RecordedPiris st"
  "st_PiriRecorded (PlanFrom st req) = st_PiriRecorded st"
  by (cases st; simp add: PlanFrom_def onboard_state.defs)+

lemma PlanFrom_blockers:
  "pl_Blockers (PlanFrom st req) = snd (plan_sprue st req) @ snd (plan_hilt st req)"
  "pl_Actions (PlanFrom st req) = plan_allow st req @ fst (plan_sprue st req) @ plan_weights st req
          @ fst (plan_hilt st req) @ plan_record st req"
  by (cases st; simp add: PlanFrom_def onboard_state.defs)+

text \<open>A plan is blocked in exactly three cases.\<close>

definition onboard_conflict :: "onboard_state \<Rightarrow> onboard_request \<Rightarrow> bool" where
  "onboard_conflict st req \<longleftrightarrow>
     st_Sprue st = None \<and> or_PiriProof req = []
     \<or> (\<exists>p. st_Sprue st = Some p \<and> pr_Endpoint p \<noteq> or_PiriURL req)
     \<or> st_HiltRegion st \<noteq> [] \<and> st_HiltRegion st \<noteq> or_Region req"

lemma blocked_iff: "pl_Blockers (PlanFrom st req) = [] \<longleftrightarrow> \<not> onboard_conflict st req"
  by (auto simp: PlanFrom_blockers plan_sprue_def plan_hilt_def onboard_conflict_def split: option.splits)

context onboarding
begin

lemma wp_Read:
  assumes "inv w" "okr (or_Region req)"
  shows "wp (Read deps req) (\<lambda>st w'. inv w' \<and> view w' = view w \<and> plan_fits req (view w) st)
      (\<lambda>_ w'. inv w' \<and> view w' = view w) w"
  unfolding Read_def
proof (rule wp_bind_mapErr [OF has [OF assms(1)]], goal_cases)
  case (2 allowed w1)
  note w1 = 2
  then have "inv w1" by simp
  show ?case
  proof (rule wp_bind_mapErr [OF sprue_provider [OF \<open>inv w1\<close>]], goal_cases)
    case (2 p w2)
    note w2 = 2
    then have "inv w2" by simp
    show ?case
    proof (rule wp_bind_mapErr [OF hilt_provider [OF \<open>inv w2\<close>]], goal_cases)
      case (2 h w3)
      note w3 = 2
      then have "inv w3" by simp
      show ?case
        by (rule wp_bind_mapErr [OF recorded [OF \<open>inv w3\<close> assms(2)]])
          (use w1 w2 w3 in \<open>auto simp: wp_returnE plan_fits_def fits_hilt_def\<close>)
    qed (use w1 w2 in auto)
  qed (use w1 in auto)
qed auto

lemma wp_apply_allow:
  assumes "inv w" "st_AllowListed plan = (or_PiriDID req \<in> ov_allowed (view w))"
  shows "wp (apply_allow deps req plan)
      (\<lambda>_ w'. inv w' \<and> view w' = (view w)\<lparr>ov_allowed := insert (or_PiriDID req) (ov_allowed (view w))\<rparr>)
      (\<lambda>_ w'. inv w' \<and> (\<exists>A. (A = ov_allowed (view w) \<or> A = insert (or_PiriDID req) (ov_allowed (view w)))
         \<and> view w' = (view w)\<lparr>ov_allowed := A\<rparr>)) w"
proof (cases "st_AllowListed plan")
  case True
  then have "insert (or_PiriDID req) (ov_allowed (view w)) = ov_allowed (view w)"
    using assms(2) by auto
  then show ?thesis using True assms(1) by (simp add: apply_allow_def wp_returnE)
next
  case False
  then have unfold: "apply_allow deps req plan = thenE (mapErr (wrap (''allow-list '' @ or_PiriDID req @ '': ''))
                 (al_Add (od_AllowList deps) (or_PiriDID req)))
          (returnE [''allow-listed '' @ or_PiriDID req])"
    by (simp add: apply_allow_def)
  show ?thesis
    unfolding unfold
  proof (rule wp_then_mapErr [OF add [OF assms(1)]], goal_cases)
    case (1 e w')
    then show ?case by (metis onb_view_same(1))
  qed (simp add: wp_returnE)
qed

lemma wp_apply_sprue:
  assumes "inv w" "ov_sprue (view w) (or_PiriDID req) = st_Sprue plan"
    and url: "\<And>p. st_Sprue plan = Some p \<Longrightarrow> pr_Endpoint p = or_PiriURL req"
  shows "wp (apply_sprue deps req plan)
      (\<lambda>_ w'. inv w' \<and> view w' = (view w)\<lparr>ov_sprue := (ov_sprue (view w))(or_PiriDID req \<mapsto>
         \<lparr>pr_Endpoint = or_PiriURL req, pr_Weight = or_Weight req,
          pr_ReplicationWeight = or_ReplicationWeight req\<rparr>)\<rparr>)
      (\<lambda>_ w'. inv w' \<and> (\<exists>x. view w' = (view w)\<lparr>ov_sprue := (ov_sprue (view w))(or_PiriDID req := x)\<rparr>)) w"
    (is "wp _ ?Q ?E w")
proof -
  note sprue = assms(2)
  let ?reg = "\<lambda>p w'. inv w' \<and> pr_Endpoint p = or_PiriURL req
      \<and> view w' = (view w)\<lparr>ov_sprue := (ov_sprue (view w))(or_PiriDID req \<mapsto> p)\<rparr>"
  have same: "\<exists>x. view w = (view w)\<lparr>ov_sprue := (ov_sprue (view w))(or_PiriDID req := x)\<rparr>"
    by (rule exI [of _ "ov_sprue (view w) (or_PiriDID req)"]) simp
  have weight: "wp (thenE (mapErr g (sa_SetWeight (od_Sprue deps) (or_PiriDID req) (or_Weight req)
        (or_ReplicationWeight req))) (returnE performed)) ?Q ?E w1"
    if "?reg p w1" for p w1 g performed
  proof -
    have "ov_sprue (view w1) (or_PiriDID req) = Some p" "inv w1" using that by simp_all
    from set_weight [OF this(2,1)] show ?thesis
    proof (rule wp_then_mapErr, goal_cases)
      case (1 e w2)
      then show ?case using that by auto
    next
      case (2 a w2)
      obtain e x y where "p = \<lparr>pr_Endpoint = e, pr_Weight = x, pr_ReplicationWeight = y\<rparr>" by (cases p)
      with that 2 show ?case by (simp add: wp_returnE)
    qed
  qed
  show ?thesis
    unfolding apply_sprue_def
  proof (rule wp_bindI [where ?Q1.0 = "\<lambda>_ w1. \<exists>p. ?reg p w1" and ?E1.0 = ?E], goal_cases)
    case 1
    show ?case
    proof (cases "st_Sprue plan")
      case None
      show ?thesis
        unfolding None option.case
        by (rule wp_then_mapErr [OF register [OF assms(1) sprue [unfolded None]]])
          (use same in \<open>auto simp: wp_returnE\<close>)
    next
      case (Some p)
      then have keep: "?reg p w1" if "inv w1" "view w1 = view w" for w1
        using that sprue url [OF Some] by (simp add: fun_upd_idem)
      have skip: "wp (returnE []) (\<lambda>_ w1. \<exists>p. ?reg p w1) ?E w"
        unfolding wp_returnE using keep [OF assms(1) refl] by blast
      have "wp (thenE (mapErr g (sa_SetProofs (od_Sprue deps) (or_PiriDID req) (or_PiriProof req)))
          (returnE performed)) (\<lambda>_ w1. \<exists>p. ?reg p w1) ?E w" for g performed
        by (rule wp_then_mapErr [OF set_proofs [OF assms(1)]])
          (use same keep in \<open>auto simp: wp_returnE\<close>)
      with skip show ?thesis
        unfolding Some option.case by (intro wp_ifI)
    qed
  next
    case (2 performed w1)
    then show ?case using weight by blast
  qed
qed

lemma wp_apply_hilt:
  assumes "inv w" "fits_hilt req (view w) plan" and told: "told (or_Region req) (or_IngotDID req) (view w)"
    and region: "or_Region req \<noteq> []"
    and fits: "st_HiltRegion plan = [] \<or> st_HiltRegion plan = or_Region req"
  shows "wp (apply_hilt deps req plan)
      (\<lambda>_ w'. inv w' \<and> (\<exists>h n. view w' = (view w)\<lparr>ov_hilt := (ov_hilt (view w))(or_IngotDID req \<mapsto> h),
             ov_nodes := (ov_nodes (view w))(or_IngotDID req := n)\<rparr>
         \<and> hp_Region h = or_Region req \<and> hp_Policy h \<noteq> []
         \<and> insert (or_PiriDID req) (ov_recorded (view w) (or_Region req)) \<subseteq> n))
      (\<lambda>_ w'. inv w' \<and> told (or_Region req) (or_IngotDID req) (view w')
         \<and> (\<exists>h n. view w' = (view w)\<lparr>ov_hilt := (ov_hilt (view w))(or_IngotDID req := h),
             ov_nodes := (ov_nodes (view w))(or_IngotDID req := n)\<rparr>)) w"
    (is "wp _ ?Q ?E w")
proof -
  let ?i = "or_IngotDID req" and ?r = "or_Region req" and ?v = "view w"
  let ?new = "\<lambda>h n w'. inv w' \<and> view w' = ?v\<lparr>ov_hilt := (ov_hilt ?v)(?i \<mapsto> h), ov_nodes := (ov_nodes ?v)(?i := n)\<rparr>"
  let ?nodes = "set (nodeSet plan req)"
  note nodes = set_nodeSet [OF assms(2)] nodeSet_nonempty [OF assms(2)]
  have same: "?E e w'" if "inv w'" "view w' = ?v" for e w'
    using that told by (auto intro!: exI [of _ "ov_hilt ?v ?i"] exI [of _ "ov_nodes ?v ?i"])
  have wrote: "?E e w'" if "?new h ?nodes w'" for e h w'
    using that nodes(1) by (auto simp: told_def)
  have ready: "?Q a w'" if "?new h ?nodes w'" "hp_Region h = ?r" "hp_Policy h \<noteq> []" for a h w'
    using that nodes(1) by auto
  have hilt: "st_HiltRegion plan = (case ov_hilt ?v ?i of None \<Rightarrow> [] | Some h \<Rightarrow> hp_Region h)"
      "st_HiltPolicy plan = (case ov_hilt ?v ?i of None \<Rightarrow> [] | Some h \<Rightarrow> hp_Policy h)"
      "st_PiriRecorded plan = (or_PiriDID req \<in> ov_recorded ?v ?r)"
    using assms(2) by (simp_all add: fits_hilt_def)
  have verify: "wp (bindE (mapErr g (ha_Provider (od_Hilt deps) ?i)) (\<lambda>hilt.
      if (case hilt of None \<Rightarrow> True | Some h \<Rightarrow> hp_Region h \<noteq> ?r) then failE (err hilt) else returnE perf)) ?Q ?E w1"
    if added: "inv w1" "if ov_hilt ?v ?i = None
         then \<exists>policy. policy \<noteq> [] \<and> ?new \<lparr>hp_Region = ?r, hp_Policy = policy\<rparr> ?nodes w1
         else view w1 = ?v" and none: "st_HiltRegion plan = []" for w1 g err perf
  proof (rule wp_bind_mapErr [OF hilt_provider [OF added(1)]], goal_cases)
    case (1 e w2)
    show ?case
    proof (cases "ov_hilt ?v ?i")
      case None
      then obtain policy where "?new \<lparr>hp_Region = ?r, hp_Policy = policy\<rparr> ?nodes w2" using 1 added by auto
      then show ?thesis by (rule wrote)
    next
      case (Some h)
      then show ?thesis using 1 added by (intro same) auto
    qed
  next
    case (2 h w2)
    show ?case
    proof (cases "ov_hilt ?v ?i")
      case None
      then obtain policy where "policy \<noteq> []" "?new \<lparr>hp_Region = ?r, hp_Policy = policy\<rparr> ?nodes w2"
        using added(2) 2 by auto
      moreover from this have "h = Some \<lparr>hp_Region = ?r, hp_Policy = policy\<rparr>"
        using 2 by simp
      ultimately show ?thesis
        using ready [of w2 "\<lparr>hp_Region = ?r, hp_Policy = policy\<rparr>"] by (simp add: wp_returnE)
    next
      case (Some h0)
      then have "h = Some h0" "hp_Region h0 \<noteq> ?r" "view w2 = ?v"
        using 2 added(2) hilt(1) none region by auto
      then show ?thesis
        using same [of w2] 2 by (simp add: wp_failE)
    qed
  qed
  show ?thesis
    unfolding apply_hilt_def Let_def
  proof (intro wp_ifI, goal_cases)
    case 1
    show ?case
    proof (rule wp_then_mapErr [OF add_provider [OF assms(1) nodes(2)]], goal_cases)
      case (1 e w1)
      then show ?case using same wrote by blast
    next
      case (2 a w1)
      then show ?case by (intro verify) (use 1 in auto)
    qed
  next
    case 2
    then obtain h where h: "ov_hilt ?v ?i = Some h" "hp_Region h = ?r"
      using fits hilt(1) by (auto split: option.splits)
    show ?case
    proof (rule wp_then_mapErr [OF set_nodes [OF assms(1) nodes(2) h(1)]], goal_cases)
      case (1 e w1)
      then show ?case using same wrote by blast
    next
      case (2 a w1)
      then obtain policy where "policy \<noteq> []" "?new (h\<lparr>hp_Policy := policy\<rparr>) ?nodes w1" by blast
      then show ?case
        using ready [of w1 "h\<lparr>hp_Policy := policy\<rparr>"] h(2) by (simp add: wp_returnE)
    qed
  next
    case 3
    then obtain h where h: "ov_hilt ?v ?i = Some h" "hp_Region h = ?r" "hp_Policy h \<noteq> []"
        "or_PiriDID req \<in> ov_recorded ?v ?r"
      using fits hilt by (auto split: option.splits)
    then have "ov_recorded ?v ?r \<subseteq> ov_nodes ?v ?i" using told by (simp add: told_def)
    with h show ?case
      using assms(1) by (auto simp: wp_returnE fun_upd_idem intro!: exI [of _ h] exI [of _ "ov_nodes ?v ?i"])
  qed
qed

lemma wp_apply_record:
  assumes "inv w" "st_PiriRecorded plan = (or_PiriDID req \<in> ov_recorded (view w) (or_Region req))"
    and ok: "okr (or_Region req)" "okd (or_PiriDID req)"
  shows "wp (apply_record deps req plan)
      (\<lambda>_ w'. inv w' \<and> view w' = (view w)\<lparr>ov_recorded := (ov_recorded (view w))
         (or_Region req := insert (or_PiriDID req) (ov_recorded (view w) (or_Region req)))\<rparr>)
      (\<lambda>_ w'. inv w' \<and> (view w' = view w \<or> view w' = (view w)\<lparr>ov_recorded := (ov_recorded (view w))
         (or_Region req := insert (or_PiriDID req) (ov_recorded (view w) (or_Region req)))\<rparr>)) w"
  unfolding apply_record_def
proof (intro wp_ifI, goal_cases)
  case 1
  show ?case
    by (rule wp_then_mapErr [OF record_piri [OF assms(1) ok]]) (auto simp: wp_returnE)
next
  case 2
  then show ?case
    using assms(1,2) by (simp add: wp_returnE insert_absorb fun_upd_idem)
qed

text \<open>The writes together, for a plan that fits what the services hold and is not blocked.\<close>

abbreviation kept :: "onboard_request \<Rightarrow> onb_view \<Rightarrow> 'w \<Rightarrow> bool" where
  "kept req v w' \<equiv> inv w' \<and> told (or_Region req) (or_IngotDID req) (view w') \<and> others_same req v (view w')"

lemma wp_Apply:
  assumes "inv w" "told (or_Region req) (or_IngotDID req) (view w)"
    and fits: "plan_fits req (view w) st"
    and ok: "or_Region req \<noteq> []" "okr (or_Region req)" "okd (or_PiriDID req)"
  shows "wp (Apply deps req (PlanFrom st req))
      (\<lambda>res w'. kept req (view w) w' \<and> onboarded req (view w') \<and> \<not> onboard_conflict st req)
      (\<lambda>_ w'. kept req (view w) w' \<and> (onboard_conflict st req \<longrightarrow> w' = w)) w"
    (is "wp _ ?Q ?E w")
proof (cases "onboard_conflict st req")
  case True
  then have "pl_Blockers (PlanFrom st req) \<noteq> []" by (simp add: blocked_iff)
  then show ?thesis
    using assms(1,2) True by (simp add: Apply_def wp_failE others_same_def)
next
  case False
  let ?v = "view w" and ?p = "PlanFrom st req" and ?d = "or_PiriDID req" and ?i = "or_IngotDID req"
    and ?r = "or_Region req"
  let ?A = "insert ?d (ov_allowed ?v)"
    and ?S = "(ov_sprue ?v)(?d \<mapsto> \<lparr>pr_Endpoint = or_PiriURL req, pr_Weight = or_Weight req,
         pr_ReplicationWeight = or_ReplicationWeight req\<rparr>)"
  let ?H = "\<lambda>h n. ?v\<lparr>ov_allowed := ?A, ov_sprue := ?S, ov_hilt := (ov_hilt ?v)(?i \<mapsto> h),
      ov_nodes := (ov_nodes ?v)(?i := n)\<rparr>"
  let ?rec = "(ov_recorded ?v)(?r := insert ?d (ov_recorded ?v ?r))"
  from False have url: "pr_Endpoint p = or_PiriURL req" if "st_Sprue st = Some p" for p
    using that by (auto simp: onboard_conflict_def)
  from False have region: "st_HiltRegion st = [] \<or> st_HiltRegion st = ?r"
    by (auto simp: onboard_conflict_def)
  have err: "?E e w'" if "kept req ?v w'" for e w' using that False by simp
  have unfold: "Apply deps req ?p =
      bindE (apply_allow deps req ?p) (\<lambda>allowed. bindE (apply_sprue deps req ?p) (\<lambda>sprue.
      bindE (apply_hilt deps req ?p) (\<lambda>hilt. bindE (apply_record deps req ?p) (\<lambda>recorded.
      bindE (mapErr (wrap (''issue hilt's delegation to '' @ ?i @ '': '')) (od_IssueProof deps ?r ?i)) (\<lambda>proof.
      returnE \<lparr>res_Region = ?r, res_Performed = allowed @ sprue @ hilt @ recorded, res_HiltIngotS3Proof = proof\<rparr>)))))"
    using False by (simp add: Apply_def blocked_iff)
  show ?thesis
    unfolding unfold
  proof (rule wp_bindI [OF wp_apply_allow [OF assms(1)]], goal_cases)
    case 1
    then show ?case using fits by (simp add: plan_fits_def)
  next
    case (2 allowed w1)
    then have w1: "inv w1" "view w1 = ?v\<lparr>ov_allowed := ?A\<rparr>" by auto
    show ?case
    proof (rule wp_bindI [OF wp_apply_sprue [OF w1(1)]], goal_cases)
      case 1
      then show ?case using fits w1(2) by (simp add: plan_fits_def)
    next
      case (2 p)
      then show ?case using url by simp
    next
      case (3 sprue w2)
      then have w2: "inv w2" "view w2 = ?v\<lparr>ov_allowed := ?A, ov_sprue := ?S\<rparr>" using w1(2) by auto
      show ?case
      proof (rule wp_bindI [OF wp_apply_hilt [OF w2(1)]], goal_cases)
        case 1
        then show ?case using fits w2(2) by (simp add: plan_fits_def fits_hilt_def)
      next
        case 2
        then show ?case using assms(2) w2(2) by (auto simp: told_def split: option.splits)
      next
        case (5 hilt w3)
        then obtain h n where w3: "inv w3" "view w3 = ?H h n" "hp_Region h = ?r" "hp_Policy h \<noteq> []"
            "insert ?d (ov_recorded ?v ?r) \<subseteq> n"
          using w2(2) by auto
        show ?case
        proof (rule wp_bindI [OF wp_apply_record [OF w3(1) _ ok(2,3)]], goal_cases)
          case 1
          then show ?case using fits w3(2) by (simp add: plan_fits_def fits_hilt_def)
        next
          case (2 recorded w4)
          then have w4: "inv w4" "view w4 = (?H h n)\<lparr>ov_recorded := ?rec\<rparr>" using w3(2) by auto
          have "?Q a w5" "?E e w5" if "inv w5" "view w5 = view w4" for a e w5
            using that w4(2) w3(3-5) False by (auto simp: told_def others_same_def onboarded_def)
          then show ?case
            by (intro wp_bind_mapErr [OF issue [OF w4(1) ok(2)]]) (auto simp: wp_returnE)
        next
          case (3 e w4)
          then show ?case
            using w3 by (intro err) (auto simp: told_def others_same_def split: option.splits)
        qed
      next
        case (6 e w3)
        then show ?case
          using w2(2) by (intro err) (auto simp: told_def others_same_def split: option.splits)
      qed (use ok region in simp_all)
    next
      case (4 e w2)
      then show ?case
        using w1(2) assms(2) by (intro err) (auto simp: told_def others_same_def split: option.splits)
    qed
  next
    case (3 e w1)
    then show ?case
      using assms(2) by (intro err) (auto simp: told_def others_same_def split: option.splits)
  qed
qed

end

end
