(* ===== verification/SsmStore.thy ===== *)
theory SsmStore
imports Go_Base
begin

text \<open>
  \<open>internal/ssmstore/ssmstore.go\<close>: one stage's parameters in the SSM parameter store.

  The SSM client is not under src/: it is the parameter \<open>ssm_api\<close>, one action per call the package
  makes. What the package relies on is stated by the locales \<open>ssm_shared\<close> (other runs may create
  parameters while this one works) and \<open>ssm_service\<close> (nobody else writes). The repository's own
  test double, \<open>fakeSSM\<close> of \<open>ssmstore_test.go\<close>, is modelled too and interprets both.
\<close>

section \<open>The client and the store\<close>

datatype param_type = SecureString | PlainString

record 'w ssm_api =
  GetParameter :: "string \<Rightarrow> bool \<Rightarrow> ('w, string) act"
  PutParameter :: "string \<Rightarrow> string \<Rightarrow> param_type \<Rightarrow> bool \<Rightarrow> ('w, unit) act"
  GetParametersByPath :: "string \<Rightarrow> string option \<Rightarrow> ('w, (string \<times> string) list \<times> string option) act"
  DeleteParameters :: "string list \<Rightarrow> ('w, unit) act"

record 'w ssm_store =
  ssm_client :: "'w ssm_api"
  ssm_stage :: string

definition Path :: "'w ssm_store \<Rightarrow> string \<Rightarrow> string \<Rightarrow> string" where
  "Path s service name = ''/forge-central/'' @ ssm_stage s @ ''/'' @ service @ ''/'' @ name"

definition Prefix :: "'w ssm_store \<Rightarrow> string \<Rightarrow> string" where
  "Prefix s service = ''/forge-central/'' @ ssm_stage s @ ''/'' @ service"

section \<open>Operations\<close>

definition ssm_get :: "'w ssm_store \<Rightarrow> string \<Rightarrow> bool \<Rightarrow> ('w, string option) act" where
  "ssm_get s path decrypt =
     catchE
       (bindE (GetParameter (ssm_client s) path decrypt) (\<lambda>value. returnE (Some value)))
       (\<lambda>err. if ParameterNotFound \<in> set (err_deps err) then returnE None
              else failE (wrap (''read '' @ path @ '': '') err))"

definition ssm_put ::
  "'w ssm_store \<Rightarrow> string \<Rightarrow> string \<Rightarrow> param_type \<Rightarrow> bool \<Rightarrow> ('w, unit) act" where
  "ssm_put s path value paramType overwrite =
     mapErr (wrap (''write '' @ path @ '': ''))
       (PutParameter (ssm_client s) path value paramType overwrite)"

definition isAlreadyExists :: "go_error \<Rightarrow> bool" where
  "isAlreadyExists err \<longleftrightarrow>
     ParameterAlreadyExists \<in> set (err_deps err)
     \<or> contains (err_text err) ''ParameterAlreadyExists''"

text \<open>The error \<open>put\<close> hands back carries the path, which is not to be taken for the API's refusal.\<close>

lemma isAlreadyExists_write:
  assumes "\<not> contains p ''ParameterAlreadyExists''"
  shows "isAlreadyExists (wrap (''write '' @ p @ '': '') e) = isAlreadyExists e"
proof -
  let ?n = "''ParameterAlreadyExists''"
  have "contains (''write'' @ CHR '' '' # p @ CHR '':'' # CHR '' '' # t) ?n \<longleftrightarrow> contains t ?n" for t
    using assms by (subst sublist_around, simp)+ (simp add: sublist_code)
  from this [of "err_text e"] show ?thesis by (simp add: isAlreadyExists_def)
qed

definition ensure ::
  "'w ssm_store \<Rightarrow> string \<Rightarrow> string \<Rightarrow> param_type \<Rightarrow> ('w, string) act \<Rightarrow> ('w, string \<times> bool) act" where
  "ensure s service name paramType generate =
     (let path = Path s service name;
          decrypt = (paramType = SecureString) in
      bindE (ssm_get s path decrypt) (\<lambda>existing.
      case existing of
        Some v \<Rightarrow> returnE (v, False)
      | None \<Rightarrow>
          bindE (mapErr (wrap (''generate '' @ path @ '': '')) generate) (\<lambda>value.
          bindE (tryE (ssm_put s path value paramType False)) (\<lambda>put.
          case put of
            Inr _ \<Rightarrow> returnE (value, True)
          | Inl err \<Rightarrow>
              if isAlreadyExists err then
                bindE (ssm_get s path decrypt) (\<lambda>existing.
                returnE (case existing of Some v \<Rightarrow> v | None \<Rightarrow> [], False))
              else failE err))))"

definition EnsureSecret ::
  "'w ssm_store \<Rightarrow> string \<Rightarrow> string \<Rightarrow> ('w, string) act \<Rightarrow> ('w, string \<times> bool) act" where
  "EnsureSecret s service name generate = ensure s service name SecureString generate"

definition EnsurePublic ::
  "'w ssm_store \<Rightarrow> string \<Rightarrow> string \<Rightarrow> ('w, string) act \<Rightarrow> ('w, string \<times> bool) act" where
  "EnsurePublic s service name generate = ensure s service name PlainString generate"

definition PutPublic :: "'w ssm_store \<Rightarrow> string \<Rightarrow> string \<Rightarrow> string \<Rightarrow> ('w, unit) act" where
  "PutPublic s service name value = ssm_put s (Path s service name) value PlainString True"

definition PutSecret :: "'w ssm_store \<Rightarrow> string \<Rightarrow> string \<Rightarrow> string \<Rightarrow> ('w, unit) act" where
  "PutSecret s service name value =
     (let path = Path s service name in
      mapErr (wrap (''write '' @ path @ '': ''))
        (PutParameter (ssm_client s) path value SecureString True))"

definition LookupSecret :: "'w ssm_store \<Rightarrow> string \<Rightarrow> string \<Rightarrow> ('w, string option) act" where
  "LookupSecret s service name = ssm_get s (Path s service name) True"

definition LookupPublic :: "'w ssm_store \<Rightarrow> string \<Rightarrow> string \<Rightarrow> ('w, string option) act" where
  "LookupPublic s service name = ssm_get s (Path s service name) False"

definition GetSecret :: "'w ssm_store \<Rightarrow> string \<Rightarrow> string \<Rightarrow> ('w, string) act" where
  "GetSecret s service name =
     bindE (ssm_get s (Path s service name) True) (\<lambda>found.
     case found of
       None \<Rightarrow> failE (Errorf (''parameter '' @ Path s service name @ '' not found''))
     | Some value \<Rightarrow> returnE value)"

text \<open>\<open>for batch := range slices.Chunk(names, 10)\<close>, the tail \<open>Delete\<close> and \<open>DeletePrefix\<close> share.\<close>

definition delete_batches :: "'w ssm_store \<Rightarrow> string \<Rightarrow> string list \<Rightarrow> ('w, unit) act" where
  "delete_batches s service names =
     forE (\<lambda>batch. mapErr (wrap (''delete under '' @ Prefix s service @ '': ''))
                      (DeleteParameters (ssm_client s) batch))
       (chunk 10 names)"

definition present_step ::
  "'w ssm_store \<Rightarrow> string \<Rightarrow> string \<Rightarrow> string list \<Rightarrow> ('w, string list) act" where
  "present_step s service name present =
     bindE (ssm_get s (Path s service name) False) (\<lambda>found.
     returnE (if found \<noteq> None then present @ [Path s service name] else present))"

definition Delete :: "'w ssm_store \<Rightarrow> string \<Rightarrow> string list \<Rightarrow> ('w, string list) act" where
  "Delete s service names =
     bindE (foldE (present_step s service) names []) (\<lambda>present.
     if present = [] then returnE []
     else thenE (delete_batches s service present) (returnE present))"

text \<open>
  The paginated read both \<open>ListPublic\<close> and \<open>DeletePrefix\<close> open with. The loop follows tokens as
  long as the service hands one out, so it gets fuel: one unit per page.
\<close>

primrec params_by_path ::
  "nat \<Rightarrow> 'w ssm_store \<Rightarrow> string \<Rightarrow> string option \<Rightarrow> (string \<times> string) list
     \<Rightarrow> ('w, (string \<times> string) list) act" where
  "params_by_path 0 s path token found = hangE"
| "params_by_path (Suc fuel) s path token found =
     bindE (mapErr (wrap (''list '' @ path @ '': ''))
              (GetParametersByPath (ssm_client s) path token)) (\<lambda>(parameters, next).
     case next of
       None \<Rightarrow> returnE (found @ parameters)
     | Some t \<Rightarrow> params_by_path fuel s path (Some t) (found @ parameters))"

definition by_last_segment :: "(string \<times> string) list \<Rightarrow> (string, string) go_map" where
  "by_last_segment ps = foldl (\<lambda>m (name, value). AList.update (last_segment name) value m) [] ps"

definition ListPublic ::
  "nat \<Rightarrow> 'w ssm_store \<Rightarrow> string \<Rightarrow> string \<Rightarrow> ('w, (string, string) go_map) act" where
  "ListPublic fuel s service subPrefix =
     bindE (params_by_path fuel s (Path s service subPrefix) None []) (\<lambda>parameters.
     returnE (by_last_segment parameters))"

definition DeletePrefix :: "nat \<Rightarrow> 'w ssm_store \<Rightarrow> string \<Rightarrow> ('w, string list) act" where
  "DeletePrefix fuel s service =
     bindE (params_by_path fuel s (Prefix s service) None []) (\<lambda>parameters.
     let names = map fst parameters in
     thenE (delete_batches s service names) (returnE names))"

section \<open>What the package relies on\<close>

text \<open>
  \<open>params w\<close> is the table the service holds in world \<open>w\<close>. Under \<open>ssm_shared\<close> other runs may add
  parameters at any moment, and nobody removes or replaces one: a read that succeeds returns what
  is stored, a write without \<open>Overwrite\<close> never replaces a value, and an "already exists" refusal
  means there is one. A call may fail for any other reason.
\<close>

locale ssm_shared =
  fixes api :: "'w ssm_api"
    and params :: "'w \<Rightarrow> string \<Rightarrow> string option"
  assumes get_grows: "GetParameter api p d w = (r, w') \<Longrightarrow> params w \<subseteq>\<^sub>m params w'"
    and get_returns: "GetParameter api p d w = (r, w') \<Longrightarrow> r \<noteq> Hang"
    and get_Ok: "GetParameter api p d w = (Ok v, w') \<Longrightarrow> params w' p = Some v"
    and get_absent: "GetParameter api p d w = (Fail e, w') \<Longrightarrow>
          ParameterNotFound \<in> set (err_deps e) \<Longrightarrow> params w p = None"
    and put_grows: "PutParameter api p v t False w = (q, w') \<Longrightarrow> params w \<subseteq>\<^sub>m params w'"
    and put_returns: "PutParameter api p v t ow w = (q, w') \<Longrightarrow> q \<noteq> Hang"
    and put_Ok: "PutParameter api p v t False w = (Ok u, w') \<Longrightarrow>
          params w p = None \<and> params w' p = Some v"
    and put_exists: "PutParameter api p v t False w = (Fail e, w') \<Longrightarrow>
          isAlreadyExists e \<Longrightarrow> params w' p \<noteq> None"
begin

lemma wp_get:
  assumes "\<And>v w'. params w \<subseteq>\<^sub>m params w' \<Longrightarrow> params w' p = Some v \<Longrightarrow> Q v w'"
    and "\<And>e w'. params w \<subseteq>\<^sub>m params w' \<Longrightarrow>
           (ParameterNotFound \<in> set (err_deps e) \<Longrightarrow> params w p = None) \<Longrightarrow> E e w'"
  shows "wp (GetParameter api p d) Q E w"
  by (rule wp_cases) (auto intro: assms get_grows get_Ok dest: get_absent get_returns)

lemma wp_put_new:
  assumes "\<And>w'. params w \<subseteq>\<^sub>m params w' \<Longrightarrow> params w p = None \<Longrightarrow> params w' p = Some v \<Longrightarrow> Q () w'"
    and "\<And>e w'. params w \<subseteq>\<^sub>m params w' \<Longrightarrow>
           (isAlreadyExists e \<Longrightarrow> params w' p \<noteq> None) \<Longrightarrow> E e w'"
  shows "wp (PutParameter api p v t False) Q E w"
  by (rule wp_cases) (auto intro: assms put_grows dest: put_Ok put_exists put_returns)

lemma wp_ssm_get:
  assumes "ssm_client s = api"
    and "\<And>v w'. params w \<subseteq>\<^sub>m params w' \<Longrightarrow> params w' p = Some v \<Longrightarrow> Q (Some v) w'"
    and "\<And>w'. params w \<subseteq>\<^sub>m params w' \<Longrightarrow> params w p = None \<Longrightarrow> Q None w'"
    and "\<And>e w'. params w \<subseteq>\<^sub>m params w' \<Longrightarrow> E e w'"
  shows "wp (ssm_get s p d) Q E w"
  unfolding ssm_get_def assms(1) wp_simps
  by (rule wp_get) (use assms(2-4) in \<open>auto simp: wp_simps\<close>)

lemma wp_ensure:
  assumes client: "ssm_client s = api"
    and path: "\<not> contains (Path s service name) ''ParameterAlreadyExists''"
    and gen: "\<And>w. wp gen (\<lambda>_ w'. params w \<subseteq>\<^sub>m params w') (\<lambda>_ w'. params w \<subseteq>\<^sub>m params w') w"
    and Q: "\<And>v w'. params w \<subseteq>\<^sub>m params w' \<Longrightarrow> params w' (Path s service name) = Some v \<Longrightarrow> Q (v, False) w'"
    and Q': "\<And>v w'. params w \<subseteq>\<^sub>m params w' \<Longrightarrow> params w (Path s service name) = None \<Longrightarrow>
               params w' (Path s service name) = Some v \<Longrightarrow> Q (v, True) w'"
    and E: "\<And>e w'. params w \<subseteq>\<^sub>m params w' \<Longrightarrow> E e w'"
  shows "wp (ensure s service name t gen) Q E w"
  unfolding ensure_def Let_def wp_simps
proof (rule wp_ssm_get [OF client], goal_cases)
  case (2 w1)
  show ?case
    unfolding option.case
  proof (rule wp_weaken [OF gen], goal_cases)
    case (1 v w2)
    with 2 have w2: "params w \<subseteq>\<^sub>m params w2" by (blast intro: map_le_trans)
    show ?case
      unfolding ssm_put_def client wp_simps
    proof (rule wp_put_new, goal_cases)
      case (1 w3)
      with w2 2 show ?case by (simp add: wp_simps) (blast intro: Q' map_le_trans)
    next
      case (2 e w3)
      from w2 2(1) have w3: "params w \<subseteq>\<^sub>m params w3" by (rule map_le_trans)
      have "wp (ssm_get s (Path s service name) (t = SecureString))
              (\<lambda>a. Q (case a of None \<Rightarrow> [] | Some v \<Rightarrow> v, False)) E w3"
        if "isAlreadyExists e"
        by (rule wp_ssm_get [OF client])
          (use 2(2) that w3 in \<open>auto intro: Q E map_le_trans dest: map_le_trans\<close>)
      with w3 show ?case
        unfolding sum.case wp_simps isAlreadyExists_write [OF path] by (auto intro: E)
    qed
  next
    case (2 e w2)
    with \<open>params w \<subseteq>\<^sub>m params w1\<close> show ?case by (blast intro: E map_le_trans)
  qed
qed (auto simp: wp_simps intro: Q E)

end

text \<open>
  \<open>ssm_service\<close>: this run is the only writer. Reads leave the table alone; a write that returns has
  stored its value, and one that fails either did nothing or did what it was allowed to (the
  response can be lost after the write). A refusal to overwrite changes nothing. At most ten names
  can be deleted at once, and a failed deletion may have removed some of them. \<open>pages\<close> is the
  paging of a by-path read: which page a token stands for, and that following the tokens from the
  first page lists each parameter under the path exactly once.
\<close>

definition under_path :: "string \<Rightarrow> string \<Rightarrow> bool" where
  "under_path path name \<longleftrightarrow> has_prefix name (trim_suffix path ''/'' @ ''/'')"

locale ssm_service = ssm_shared api params
  for api :: "'w ssm_api" and params :: "'w \<Rightarrow> string \<Rightarrow> string option" +
  fixes pages :: "(string \<Rightarrow> string option) \<Rightarrow> string \<Rightarrow> string option \<Rightarrow> (string \<times> string) list list"
  assumes get_frame: "GetParameter api p d w = (r, w') \<Longrightarrow> params w' = params w"
    and put_done: "PutParameter api p v t ow w = (Ok u, w') \<Longrightarrow> params w' = (params w)(p \<mapsto> v)"
    and put_failed: "PutParameter api p v t ow w = (Fail e, w') \<Longrightarrow>
          params w' = params w \<or> (ow \<or> params w p = None) \<and> params w' = (params w)(p \<mapsto> v)"
    and put_refused: "PutParameter api p v t False w = (Fail e, w') \<Longrightarrow> isAlreadyExists e \<Longrightarrow>
          params w' = params w \<and> params w p \<noteq> None"
    and del_returns: "DeleteParameters api ns w \<noteq> (Hang, w')"
    and del_done: "DeleteParameters api ns w = (Ok u, w') \<Longrightarrow> length ns \<le> 10 \<Longrightarrow>
          params w' = params w |` (- set ns)"
    and del_failed: "DeleteParameters api ns w = (Fail e, w') \<Longrightarrow>
          \<exists>S \<subseteq> set ns. params w' = params w |` (- S)"
    and list_returns: "GetParametersByPath api path tok w \<noteq> (Hang, w')"
    and list_failed: "GetParametersByPath api path tok w = (Fail e, w') \<Longrightarrow> params w' = params w"
    and list_page: "GetParametersByPath api path tok w = (Ok (ps, next), w') \<Longrightarrow>
          params w' = params w
          \<and> pages (params w) path tok =
              ps # (case next of None \<Rightarrow> [] | Some tok' \<Rightarrow> pages (params w) path (Some tok'))"
    and pages_nonempty: "pages T path tok \<noteq> []"
    and pages_complete: "set (concat (pages (params w) path None)) = {(n, v). params w n = Some v \<and> under_path path n}"
    and pages_distinct: "distinct (map fst (concat (pages (params w) path None)))"
begin

lemma wp_get_frame:
  assumes "\<And>v w'. params w' = params w \<Longrightarrow> params w p = Some v \<Longrightarrow> Q v w'"
    and "\<And>e w'. params w' = params w \<Longrightarrow>
           (ParameterNotFound \<in> set (err_deps e) \<Longrightarrow> params w p = None) \<Longrightarrow> E e w'"
  shows "wp (GetParameter api p d) Q E w"
proof (rule wp_cases, goal_cases)
  case (1 v w')
  then show ?case using assms(1) get_Ok get_frame by metis
qed (auto intro: assms dest: get_absent get_returns get_frame)

lemma wp_ssm_get_frame:
  assumes "ssm_client s = api"
    and "\<And>v w'. params w' = params w \<Longrightarrow> params w p = Some v \<Longrightarrow> Q (Some v) w'"
    and "\<And>w'. params w' = params w \<Longrightarrow> params w p = None \<Longrightarrow> Q None w'"
    and "\<And>e w'. params w' = params w \<Longrightarrow> E e w'"
  shows "wp (ssm_get s p d) Q E w"
  unfolding ssm_get_def assms(1) wp_simps
  by (rule wp_get_frame) (use assms(2-4) in \<open>auto simp: wp_simps\<close>)

lemma wp_ssm_put:
  assumes "ssm_client s = api"
    and "\<And>w'. params w' = (params w)(p \<mapsto> v) \<Longrightarrow> Q () w'"
    and "\<And>e w'. params w' = params w \<or> (ow \<or> params w p = None) \<and> params w' = (params w)(p \<mapsto> v) \<Longrightarrow>
           (\<not> ow \<Longrightarrow> isAlreadyExists e \<Longrightarrow> params w' = params w \<and> params w p \<noteq> None) \<Longrightarrow>
           E (wrap (''write '' @ p @ '': '') e) w'"
  shows "wp (ssm_put s p v t ow) Q E w"
  unfolding ssm_put_def assms(1) wp_simps
proof (rule wp_cases, goal_cases)
  case (2 e w')
  then show ?case
    by (intro assms(3)) (cases ow, auto dest: put_failed put_refused)
qed (auto intro: assms(2) dest: put_done put_returns)

lemma wp_ensure_frame:
  assumes client: "ssm_client s = api"
    and path: "\<not> contains (Path s service name) ''ParameterAlreadyExists''"
    and gen: "\<And>w1. params w1 = params w \<Longrightarrow>
                wp gen (\<lambda>v w'. G v \<and> params w' = params w) (\<lambda>_ w'. params w' = params w) w1"
    and Q: "\<And>v w'. params w' = params w \<Longrightarrow> params w (Path s service name) = Some v \<Longrightarrow> Q (v, False) w'"
    and Q': "\<And>v w'. G v \<Longrightarrow> params w (Path s service name) = None \<Longrightarrow>
               params w' = (params w)(Path s service name \<mapsto> v) \<Longrightarrow> Q (v, True) w'"
    and E: "\<And>e w'. params w' = params w \<or>
               (\<exists>v. G v \<and> params w (Path s service name) = None
                    \<and> params w' = (params w)(Path s service name \<mapsto> v)) \<Longrightarrow> E e w'"
  shows "wp (ensure s service name t gen) Q E w"
  unfolding ensure_def Let_def wp_simps
proof (rule wp_ssm_get_frame [OF client], goal_cases)
  case (2 w1)
  show ?case
    unfolding option.case
  proof (rule wp_weaken [OF gen [OF 2(1)]], goal_cases)
    case (1 v w2)
    show ?case
    proof (rule wp_ssm_put [OF client], goal_cases)
      case (1 w3)
      with \<open>G v \<and> params w2 = params w\<close> 2 show ?case by (auto intro: Q')
    next
      case (2 e w3)
      have "\<not> isAlreadyExists e"
        using 2(2) \<open>G v \<and> params w2 = params w\<close> \<open>params w (Path s service name) = None\<close> by auto
      with 2(1) \<open>G v \<and> params w2 = params w\<close> show ?case
        unfolding wp_simps sum.case isAlreadyExists_write [OF path] by (auto intro: E)
    qed
  qed (auto intro: E)
qed (auto simp: wp_simps intro: Q E)

lemma wp_present:
  assumes client: "ssm_client s = api"
    and "\<And>w'. params w' = params w \<Longrightarrow>
           Q (acc @ filter (\<lambda>p. params w p \<noteq> None) (map (Path s service) names)) w'"
    and "\<And>e w'. params w' = params w \<Longrightarrow> E e w'"
  shows "wp (foldE (present_step s service) names acc) Q E w"
  using assms(2,3)
proof (induction names arbitrary: acc w)
  case Nil
  then show ?case by (simp add: wp_simps)
next
  case (Cons n names)
  have "wp (present_step s service n acc)
          (\<lambda>acc' w'. params w' = params w \<and>
             acc' = acc @ (if params w (Path s service n) \<noteq> None then [Path s service n] else []))
          (\<lambda>_ w'. params w' = params w) w"
    unfolding present_step_def wp_simps
    by (rule wp_ssm_get_frame [OF client]) auto
  then show ?case
    unfolding foldE.simps wp_simps
  proof (rule wp_weaken, goal_cases)
    case (1 acc' w')
    then show ?case using Cons.prems by (intro Cons.IH) auto
  qed (use Cons.prems in auto)
qed

lemma wp_delete_batches:
  assumes client: "ssm_client s = api"
    and "\<And>w'. params w' = params w |` (- set names) \<Longrightarrow> Q () w'"
    and "\<And>e S w'. S \<subseteq> set names \<Longrightarrow> params w' = params w |` (- S) \<Longrightarrow> E e w'"
  shows "wp (delete_batches s service names) Q E w"
proof -
  have batches: "wp (forE (\<lambda>batch. mapErr f (DeleteParameters api batch)) bs) Q E w"
    if "\<forall>b \<in> set bs. length b \<le> 10"
      and "\<And>w'. params w' = params w |` (- set (concat bs)) \<Longrightarrow> Q () w'"
      and "\<And>e S w'. S \<subseteq> set (concat bs) \<Longrightarrow> params w' = params w |` (- S) \<Longrightarrow> E e w'"
    for bs f w
    using that
  proof (induction bs arbitrary: w)
    case Nil
    then show ?case by (simp add: wp_simps)
  next
    case (Cons b bs)
    show ?case
      unfolding forE_Cons wp_simps
    proof (rule wp_cases, goal_cases)
      case (1 a w1)
      with Cons.prems(1) have w1: "params w1 = params w |` (- set b)" by (auto dest: del_done)
      show ?case
      proof (rule Cons.IH)
        show "E e w'" if "S \<subseteq> set (concat bs)" "params w' = params w1 |` (- S)" for e S w'
          using that w1 by (intro Cons.prems(3) [of "set b \<union> S"]) (auto simp: Compl_Un)
      qed (use Cons.prems w1 in \<open>auto simp: Compl_Un\<close>)
    next
      case (2 e w1)
      then obtain S where "S \<subseteq> set b" "params w1 = params w |` (- S)"
        by (auto dest: del_failed)
      then show ?case by (intro Cons.prems(3)) auto
    qed (simp add: del_returns)
  qed
  show ?thesis
    unfolding delete_batches_def client
  proof (rule batches)
    show "\<forall>b \<in> set (chunk 10 names). length b \<le> 10"
      by (auto dest: chunk_length)
    show "Q () w'" if "params w' = params w |` (- set (concat (chunk 10 names)))" for w'
      using that by (intro assms(2)) simp
    show "E e w'" if "S \<subseteq> set (concat (chunk 10 names))" "params w' = params w |` (- S)" for e S w'
      using that by (intro assms(3)) simp_all
  qed
qed

lemma wp_Delete:
  assumes client: "ssm_client s = api"
    and Q: "\<And>w'. params w' = params w |` (- Path s service ` set names) \<Longrightarrow>
              Q (filter (\<lambda>p. params w p \<noteq> None) (map (Path s service) names)) w'"
    and E: "\<And>e S w'. S \<subseteq> Path s service ` set names \<Longrightarrow> params w' = params w |` (- S) \<Longrightarrow> E e w'"
  shows "wp (Delete s service names) Q E w"
  unfolding Delete_def wp_simps
proof (rule wp_present [OF client], goal_cases)
  case (1 w1)
  let ?ps = "filter (\<lambda>p. params w p \<noteq> None) (map (Path s service) names)"
  have restr: "params w |` (- set ?ps) = params w |` (- Path s service ` set names)"
    by (rule ext) (auto simp: restrict_map_def)
  show ?case
  proof (cases "?ps = []")
    case True
    then have "params w = params w |` (- Path s service ` set names)"
      using restr by simp
    with 1 True show ?thesis using Q [of w1] by simp
  next
    case False
    have "wp (delete_batches s service ?ps) (\<lambda>_. Q ?ps) E w1"
    proof (rule wp_delete_batches [OF client], goal_cases)
      case (1 w2)
      with \<open>params w1 = params w\<close> show ?case using restr by (intro Q) simp
    next
      case (2 e S w2)
      with \<open>params w1 = params w\<close> show ?case by (intro E [of S]) auto
    qed
    with False show ?thesis by simp
  qed
next
  case (2 e w1)
  then show ?case by (intro E [of "{}"]) auto
qed

lemma wp_params_by_path:
  assumes client: "ssm_client s = api"
    and fuel: "length (pages (params w) path tok) \<le> fuel"
    and Q: "\<And>w'. params w' = params w \<Longrightarrow> Q (acc @ concat (pages (params w) path tok)) w'"
    and E: "\<And>e w'. params w' = params w \<Longrightarrow> E e w'"
  shows "wp (params_by_path fuel s path tok acc) Q E w"
  using fuel Q E
proof (induction fuel arbitrary: tok acc w)
  case 0
  then show ?case by (simp add: pages_nonempty)
next
  case (Suc fuel)
  show ?case
    unfolding params_by_path.simps client wp_simps
  proof (rule wp_cases, goal_cases)
    case (1 a w1)
    then obtain ps nxt where a: "a = (ps, nxt)" by (cases a)
    with 1 have page: "params w1 = params w"
        "pages (params w) path tok =
           ps # (case nxt of None \<Rightarrow> [] | Some t \<Rightarrow> pages (params w) path (Some t))"
      by (auto dest: list_page)
    show ?case
    proof (cases nxt)
      case None
      with page Suc.prems(2) [of w1] a show ?thesis by simp
    next
      case (Some t)
      have "wp (params_by_path fuel s path (Some t) (acc @ ps)) Q E w1"
      proof (rule Suc.IH)
        show "length (pages (params w1) path (Some t)) \<le> fuel"
          using Suc.prems(1) page Some by simp
        show "Q ((acc @ ps) @ concat (pages (params w1) path (Some t))) w'"
          if "params w' = params w1" for w'
          using Suc.prems(2) [of w'] page Some that by simp
        show "E e w'" if "params w' = params w1" for e w'
          using Suc.prems(3) page that by simp
      qed
      with a Some show ?thesis by simp
    qed
  next
    case (2 e w1)
    then show ?case using Suc.prems(3) by (auto dest: list_failed)
  qed (simp add: list_returns)
qed

lemma pages_names: "fst ` set (concat (pages (params w) path None)) = {n \<in> dom (params w). under_path path n}"
  unfolding pages_complete by force

lemma wp_DeletePrefix:
  assumes client: "ssm_client s = api"
    and fuel: "length (pages (params w) (Prefix s service) None) \<le> fuel"
    and Q: "\<And>names w'. distinct names \<Longrightarrow>
              set names = {n \<in> dom (params w). under_path (Prefix s service) n} \<Longrightarrow>
              params w' = params w |` (- set names) \<Longrightarrow> Q names w'"
    and E: "\<And>e S w'. S \<subseteq> {n. under_path (Prefix s service) n} \<Longrightarrow>
              params w' = params w |` (- S) \<Longrightarrow> E e w'"
  shows "wp (DeletePrefix fuel s service) Q E w"
  unfolding DeletePrefix_def Let_def wp_simps
proof (rule wp_params_by_path [OF client fuel], goal_cases)
  case (1 w1)
  let ?names = "map fst (concat (pages (params w) (Prefix s service) None))"
  have names: "set ?names = {n \<in> dom (params w). under_path (Prefix s service) n}"
    using pages_names by simp
  have "wp (delete_batches s service ?names) (\<lambda>_. Q ?names) E w1"
  proof (rule wp_delete_batches [OF client], goal_cases)
    case (1 w2)
    with \<open>params w1 = params w\<close> names show ?case by (intro Q pages_distinct) simp_all
  next
    case (2 e S w2)
    with \<open>params w1 = params w\<close> names show ?case by (intro E [of S]) auto
  qed
  then show ?case by simp
next
  case (2 e w1)
  then show ?case by (intro E [of "{}"]) auto
qed

lemma wp_ListPublic:
  assumes client: "ssm_client s = api"
    and fuel: "length (pages (params w) (Path s service sub) None) \<le> fuel"
    and Q: "\<And>ps w'. params w' = params w \<Longrightarrow> distinct (map fst ps) \<Longrightarrow>
              set ps = {(n, v). params w n = Some v \<and> under_path (Path s service sub) n} \<Longrightarrow>
              Q (by_last_segment ps) w'"
    and E: "\<And>e w'. params w' = params w \<Longrightarrow> E e w'"
  shows "wp (ListPublic fuel s service sub) Q E w"
  unfolding ListPublic_def wp_simps
proof (rule wp_params_by_path [OF client fuel], goal_cases)
  case (1 w1)
  then show ?case
    using Q [of w1 "concat (pages (params w) (Path s service sub) None)"]
    by (simp only: append_Nil pages_complete pages_distinct)
qed (auto intro: E)

end

section \<open>The map \<open>ListPublic\<close> returns\<close>

lemma map_of_fold_update:
  "map_of (foldl (\<lambda>m (n, v). AList.update (f n) v m) m ps)
     = map_of m ++ map_of (rev (map (\<lambda>(n, v). (f n, v)) ps))"
proof (induction ps arbitrary: m)
  case (Cons p ps)
  then show ?case by (cases p) (simp add: update_conv' map_add_def fun_eq_iff split: option.split)
qed simp

lemma map_of_by_last_segment:
  assumes "distinct (map (last_segment \<circ> fst) ps)"
  shows "map_of (by_last_segment ps) k = Some v \<longleftrightarrow> (\<exists>n. (n, v) \<in> set ps \<and> last_segment n = k)"
proof -
  have "distinct (map fst (rev (map (\<lambda>(n, v). (last_segment n, v)) ps)))"
    using assms by (simp add: rev_map [symmetric] comp_def case_prod_beta)
  then show ?thesis
    unfolding by_last_segment_def map_of_fold_update
    by (auto simp: map_of_eq_Some_iff)
qed

lemma distinct_keys_by_last_segment: "distinct (map fst (by_last_segment ps))"
proof -
  have "distinct (map fst m) \<Longrightarrow>
      distinct (map fst (foldl (\<lambda>m (n, v). AList.update (last_segment n) v m) m ps))" for m
    by (induction ps arbitrary: m) (auto simp: distinct_update)
  then show ?thesis by (simp add: by_last_segment_def)
qed

section \<open>Where a service's parameters live\<close>

lemma Path_inject [simp]: "Path s service a = Path s service b \<longleftrightarrow> a = b"
  by (simp add: Path_def)

lemma under_path_iff:
  assumes "path \<noteq> []" "last path \<noteq> CHR ''/''"
  shows "under_path path name \<longleftrightarrow> (\<exists>t. name = path @ ''/'' @ t)"
proof -
  from assms have "\<not> has_suffix path ''/''" by (auto simp: suffix_def)
  then show ?thesis by (simp add: under_path_def trim_suffix_def) (auto simp: prefix_def)
qed

lemma under_Prefix_iff:
  assumes "service \<noteq> []" "last service \<noteq> CHR ''/''"
  shows "under_path (Prefix s service) name \<longleftrightarrow> (\<exists>t. name = Path s service t)"
  using assms by (subst under_path_iff) (auto simp: Prefix_def Path_def)

lemma under_Path_iff:
  assumes "sub \<noteq> []" "last sub \<noteq> CHR ''/''"
  shows "under_path (Path s service sub) name \<longleftrightarrow> (\<exists>t. name = Path s service (sub @ ''/'' @ t))"
  using assms by (subst under_path_iff) (auto simp: Path_def)

text \<open>Two regions' prefixes share no parameter, whatever prefix their labels have in common.\<close>

lemma Path_inject_region:
  assumes "CHR ''/'' \<notin> set r" "CHR ''/'' \<notin> set r'"
  shows "Path s (d @ ''/'' @ r) n = Path s (d @ ''/'' @ r') n' \<longleftrightarrow> r = r' \<and> n = n'"
proof -
  have "takeWhile (\<lambda>c. c \<noteq> CHR ''/'') (x @ ''/'' @ y) = x" if "CHR ''/'' \<notin> set x" for x y
    using that by (subst takeWhile_append2) auto
  with assms have "r @ ''/'' @ n = r' @ ''/'' @ n' \<Longrightarrow> r = r'"
    by metis
  then show ?thesis by (auto simp: Path_def)
qed

section \<open>Frames\<close>

lemma keeps_ssm_get:
  "world_order R \<Longrightarrow> (\<And>p d. keeps R (GetParameter (ssm_client s) p d)) \<Longrightarrow> keeps R (ssm_get s p d)"
  unfolding ssm_get_def by (auto intro!: keeps_intros)

lemma keeps_Delete:
  assumes "world_order R" "\<And>p d. keeps R (GetParameter (ssm_client s) p d)"
    and "\<And>ns. keeps R (DeleteParameters (ssm_client s) ns)"
  shows "keeps R (Delete s service names)"
  unfolding Delete_def present_step_def delete_batches_def
  by (auto intro!: keeps_intros keeps_ssm_get assms)

lemma keeps_ssm_put:
  "(\<And>p v t ow. keeps R (PutParameter (ssm_client s) p v t ow)) \<Longrightarrow> keeps R (ssm_put s p v t ow)"
  unfolding ssm_put_def by (auto intro!: keeps_intros)

lemma keeps_ensure:
  assumes "world_order R" "\<And>p d. keeps R (GetParameter (ssm_client s) p d)"
    and "\<And>p v t ow. keeps R (PutParameter (ssm_client s) p v t ow)" "keeps R gen"
  shows "keeps R (ensure s service name t gen)"
  unfolding ensure_def Let_def
  by (auto intro!: keeps_intros keeps_ssm_get keeps_ssm_put assms split: sum.split)

lemma keeps_params_by_path:
  assumes "world_order R" "\<And>p tok. keeps R (GetParametersByPath (ssm_client s) p tok)"
  shows "keeps R (params_by_path fuel s path tok found)"
  by (induction fuel arbitrary: tok found) (auto intro!: keeps_intros assms split: option.split)

section \<open>The parameters of a stage\<close>

text \<open>A stage's parameters by \<open>service/name\<close>.\<close>

definition slot :: "string \<Rightarrow> string \<Rightarrow> string" where
  "slot service name = service @ ''/'' @ name"

lemma Path_slot: "Path s service name = ''/forge-central/'' @ ssm_stage s @ ''/'' @ slot service name"
  by (simp add: Path_def slot_def)

definition stage_view :: "string \<Rightarrow> (string \<Rightarrow> 'v option) \<Rightarrow> string \<Rightarrow> 'v option" where
  "stage_view pre T k = T (pre @ k)"

lemma stage_view_mono: "T \<subseteq>\<^sub>m T' \<Longrightarrow> stage_view p T \<subseteq>\<^sub>m stage_view p T'"
  by (auto simp: stage_view_def map_le_def dom_def)

lemma stage_view_restrict:
  "stage_view p (T |` (- (\<lambda>n. p @ f n) ` N)) = stage_view p T |` (- f ` N)"
  by (auto simp: stage_view_def restrict_map_def fun_eq_iff)

lemma stage_view_deleted:
  assumes "S \<subseteq> (\<lambda>n. p @ f n) ` N" "T' = T |` (- S)"
  shows "\<exists>S' \<subseteq> f ` N. stage_view p T' = stage_view p T |` (- S')"
proof -
  obtain M where "M \<subseteq> N" "S = (\<lambda>n. p @ f n) ` M" using assms(1) by (auto simp: subset_image_iff)
  then show ?thesis
    using assms(2) by (intro exI [of _ "f ` M"]) (auto simp: stage_view_restrict)
qed

section \<open>The repository's in-memory SSM\<close>

text \<open>
  \<open>fakeSSM\<close> of \<open>ssmstore_test.go\<close>, which reproduces the two behaviours the package leans on, and
  \<open>raceSSM\<close>, whose \<open>PutParameter\<close> lets a concurrent run win first.
\<close>

record fake_ssm =
  fs_params :: "(string, string) go_map"
  fs_deleteBatches :: "string list list"

definition fake_held :: "fake_ssm \<Rightarrow> string \<Rightarrow> string option" where
  "fake_held f = map_of (fs_params f)"

definition fake_GetParameter :: "string \<Rightarrow> bool \<Rightarrow> (fake_ssm, string) act" where
  "fake_GetParameter name decrypt f =
     (case map_of (fs_params f) name of
        None \<Rightarrow> (Fail (Dep ParameterNotFound ''ParameterNotFound: ''), f)
      | Some value \<Rightarrow> (Ok value, f))"

definition fake_PutParameter ::
  "string \<Rightarrow> string \<Rightarrow> param_type \<Rightarrow> bool \<Rightarrow> (fake_ssm, unit) act" where
  "fake_PutParameter name value t overwrite f =
     (if map_of (fs_params f) name \<noteq> None \<and> \<not> overwrite
      then (Fail (Dep ParameterAlreadyExists ''ParameterAlreadyExists: ''), f)
      else (Ok (), f\<lparr>fs_params := AList.update name value (fs_params f)\<rparr>))"

definition fake_listing :: "fake_ssm \<Rightarrow> string \<Rightarrow> (string \<times> string) list" where
  "fake_listing f path =
     map (\<lambda>n. (n, the (map_of (fs_params f) n)))
       (sort (filter (\<lambda>n. has_prefix n (trim_suffix path ''/'' @ ''/'')) (map_keys (fs_params f))))"

definition fake_GetParametersByPath ::
  "string \<Rightarrow> string option \<Rightarrow> (fake_ssm, (string \<times> string) list \<times> string option) act" where
  "fake_GetParametersByPath path token f = (Ok (fake_listing f path, None), f)"

definition fake_DeleteParameters :: "string list \<Rightarrow> (fake_ssm, unit) act" where
  "fake_DeleteParameters names f =
     (Ok (), f\<lparr>fs_deleteBatches := fs_deleteBatches f @ [names],
               fs_params := fold AList.delete names (fs_params f)\<rparr>)"

definition fake_ssm_api :: "fake_ssm ssm_api" where
  "fake_ssm_api =
     \<lparr>GetParameter = fake_GetParameter, PutParameter = fake_PutParameter,
      GetParametersByPath = fake_GetParametersByPath, DeleteParameters = fake_DeleteParameters\<rparr>"

definition race_PutParameter ::
  "string \<Rightarrow> string \<Rightarrow> param_type \<Rightarrow> bool \<Rightarrow> (fake_ssm, unit) act" where
  "race_PutParameter name value t overwrite f =
     fake_PutParameter name value t overwrite
       (if map_of (fs_params f) name \<noteq> None then f
        else f\<lparr>fs_params := AList.update name ''raced-in-first'' (fs_params f)\<rparr>)"

definition race_ssm_api :: "fake_ssm ssm_api" where
  "race_ssm_api = fake_ssm_api\<lparr>PutParameter := race_PutParameter\<rparr>"

definition fake_pages ::
  "(string \<Rightarrow> string option) \<Rightarrow> string \<Rightarrow> string option \<Rightarrow> (string \<times> string) list list" where
  "fake_pages T path token =
     [map (\<lambda>n. (n, the (T n))) (sorted_list_of_set {n \<in> dom T. under_path path n})]"

lemmas fake_ssm_defs = fake_ssm_api_def fake_GetParameter_def fake_PutParameter_def
  fake_GetParametersByPath_def fake_DeleteParameters_def fake_held_def

lemma fake_listing_eq: "fake_listing f path =
    map (\<lambda>n. (n, the (fake_held f n))) (sorted_list_of_set {n \<in> dom (fake_held f). under_path path n})"
proof -
  have "{n \<in> dom (fake_held f). under_path path n} =
      set (filter (\<lambda>n. has_prefix n (trim_suffix path ''/'' @ ''/'')) (map_keys (fs_params f)))"
    by (auto simp: fake_held_def under_path_def)
  then show ?thesis
    by (simp add: fake_listing_def fake_held_def sorted_list_of_set_sort_remdups distinct_remdups_id
        del: set_filter)
qed

lemma map_of_fold_delete: "map_of (fold AList.delete ns m) = map_of m |` (- set ns)"
proof (induction ns arbitrary: m)
  case (Cons n ns)
  have "map_of (fold AList.delete (n # ns) m) = map_of (AList.delete n m) |` (- set ns)"
    by (simp add: Cons.IH)
  also have "\<dots> = map_of m |` (- set (n # ns))"
    by (rule ext) (auto simp: delete_conv' restrict_map_def)
  finally show ?case .
qed simp

interpretation fake_ssm: ssm_service fake_ssm_api fake_held fake_pages
proof (unfold_locales, goal_cases)
  case (18 path tok w ps nxt w')
  then show ?case by (auto simp: fake_ssm_defs fake_pages_def fake_listing_eq [unfolded fake_held_def])
next
  case (20 w path)
  have "finite {n \<in> dom (fake_held w). under_path path n}"
    by (rule finite_subset [of _ "dom (fake_held w)"]) (auto simp: fake_held_def finite_dom_map_of)
  then show ?case by (auto simp: fake_pages_def)
qed (auto simp: fake_ssm_defs fake_pages_def isAlreadyExists_def map_le_def update_conv' map_of_fold_delete
      comp_def split: if_splits option.splits)

interpretation race_ssm: ssm_shared race_ssm_api fake_held
  by unfold_locales
    (auto simp: fake_ssm_defs race_ssm_api_def race_PutParameter_def isAlreadyExists_def map_le_def
       update_conv' split: if_splits option.splits)

definition fake_store :: "fake_ssm ssm_store" where
  "fake_store = \<lparr>ssm_client = fake_ssm_api, ssm_stage = ''test''\<rparr>"

definition race_store :: "fake_ssm ssm_store" where
  "race_store = \<lparr>ssm_client = race_ssm_api, ssm_stage = ''test''\<rparr>"

definition fake_with :: "(string, string) go_map \<Rightarrow> fake_ssm" where
  "fake_with m = \<lparr>fs_params = m, fs_deleteBatches = []\<rparr>"

lemmas fake_store_defs = fake_store_def race_store_def fake_with_def fake_ssm_api_def race_ssm_api_def
  fake_GetParameter_def fake_PutParameter_def fake_GetParametersByPath_def fake_DeleteParameters_def
  race_PutParameter_def Path_def Prefix_def fake_held_def

section \<open>Properties\<close>

text \<open>
  C18. Nothing is ever regenerated: when the parameter is there, \<open>EnsureSecret\<close> and \<open>EnsurePublic\<close>
  return it with created=false or fail, the table of parameters is what it was, and the outcome does
  not depend on \<open>generate\<close>, which is not run.
\<close>

theorem ensure_keeps_existing:
  assumes "ssm_service (ssm_client s) params pages"
    and "params w (Path s service name) = Some v"
  shows "params (snd (ensure s service name t gen w)) = params w
    \<and> (fst (ensure s service name t gen w) = Ok (v, False)
       \<or> (\<exists>e. fst (ensure s service name t gen w) = Fail e))
    \<and> ensure s service name t gen w = ensure s service name t gen' w"
proof -
  let ?get = "ssm_get s (Path s service name) (t = SecureString)"
  have get: "wp ?get (\<lambda>r w'. r = Some v \<and> params w' = params w) (\<lambda>_ w'. params w' = params w) w"
    by (rule ssm_service.wp_ssm_get_frame [OF assms(1) refl]) (simp_all add: assms(2))
  have run: "(\<exists>w'. ensure s service name t g w = (Ok (v, False), w') \<and> ?get w = (Ok (Some v), w')) \<or>
      (\<exists>e w'. ensure s service name t g w = (Fail e, w') \<and> ?get w = (Fail e, w'))" for g
    using get by (cases "?get w")
      (auto simp: wp_def ensure_def Let_def bindE_def returnE_def split: result.splits)
  show ?thesis
    using run [of gen] run [of gen'] get by (auto simp: wp_def)
qed

theorem ensure_keeps_existing_witness:
  "let w = fake_with [(''/forge-central/test/svc/key'', ''minted-earlier'')] in
     fake_held w (Path fake_store ''svc'' ''key'') = Some ''minted-earlier''
     \<and> fake_held (snd (ensure fake_store ''svc'' ''key'' SecureString (returnE ''fresh'') w)) = fake_held w"
proof -
  let ?w = "fake_with [(''/forge-central/test/svc/key'', ''minted-earlier'')]"
  have *: "fake_held ?w (Path fake_store ''svc'' ''key'') = Some ''minted-earlier''"
    by (simp add: fake_store_defs)
  have "ssm_service (ssm_client fake_store) fake_held fake_pages"
    using fake_ssm.ssm_service_axioms by (simp add: fake_store_def)
  from ensure_keeps_existing [where params = fake_held, OF this *, of SecureString "returnE ''fresh''"] *
  show ?thesis unfolding Let_def by blast
qed



text \<open>
  C19. \<open>Delete\<close> removes exactly the named parameters of the service and reports, in the order given,
  those that existed; nothing else is touched. When it fails it has removed nothing but some of them.
\<close>

theorem Delete_exact:
  assumes "ssm_service (ssm_client s) params pages"
  shows "wp (Delete s service names)
      (\<lambda>deleted w'. deleted = filter (\<lambda>p. params w p \<noteq> None) (map (Path s service) names)
         \<and> params w' = params w |` (- Path s service ` set names))
      (\<lambda>_ w'. \<exists>S \<subseteq> Path s service ` set names. params w' = params w |` (- S)) w"
  by (rule ssm_service.wp_Delete [OF assms refl]) auto

theorem Delete_exact_witness:
  "\<exists>w. wp (Delete fake_store ''appliance/us-east-9'' [''hilt-ingot-s3-proof'', ''gone''])
      (\<lambda>deleted w'. deleted = filter (\<lambda>p. fake_held w p \<noteq> None)
           (map (Path fake_store ''appliance/us-east-9'') [''hilt-ingot-s3-proof'', ''gone''])
         \<and> fake_held w' = fake_held w |` (- Path fake_store ''appliance/us-east-9'' `
             set [''hilt-ingot-s3-proof'', ''gone'']))
      (\<lambda>_ w'. \<exists>S \<subseteq> Path fake_store ''appliance/us-east-9'' ` set [''hilt-ingot-s3-proof'', ''gone''].
         fake_held w' = fake_held w |` (- S)) w
   \<and> fst (Delete fake_store ''appliance/us-east-9'' [''hilt-ingot-s3-proof'', ''gone''] w)
       = Ok [''/forge-central/test/appliance/us-east-9/hilt-ingot-s3-proof'']"
proof (intro exI conjI)
  let ?w = "fake_with [(''/forge-central/test/appliance/us-east-9/unseal-token.accessor'', ''hmac-1''),
                       (''/forge-central/test/appliance/us-east-9/hilt-ingot-s3-proof'', ''proof'')]"
  have "ssm_service (ssm_client fake_store) fake_held fake_pages"
    using fake_ssm.ssm_service_axioms by (simp add: fake_store_def)
  then show "wp (Delete fake_store ''appliance/us-east-9'' [''hilt-ingot-s3-proof'', ''gone''])
      (\<lambda>deleted w'. deleted = filter (\<lambda>p. fake_held ?w p \<noteq> None)
           (map (Path fake_store ''appliance/us-east-9'') [''hilt-ingot-s3-proof'', ''gone''])
         \<and> fake_held w' = fake_held ?w |` (- Path fake_store ''appliance/us-east-9'' `
             set [''hilt-ingot-s3-proof'', ''gone'']))
      (\<lambda>_ w'. \<exists>S \<subseteq> Path fake_store ''appliance/us-east-9'' ` set [''hilt-ingot-s3-proof'', ''gone''].
         fake_held w' = fake_held ?w |` (- S)) ?w"
    by (rule Delete_exact)
  show "fst (Delete fake_store ''appliance/us-east-9'' [''hilt-ingot-s3-proof'', ''gone''] ?w)
       = Ok [''/forge-central/test/appliance/us-east-9/hilt-ingot-s3-proof'']"
    by (simp add: Delete_def present_step_def delete_batches_def ssm_get_def act_defs fake_store_defs chunk.simps)
qed

text \<open>
  C20. \<open>DeletePrefix\<close> terminates with one unit of fuel per page the service has, removes exactly the
  parameters under the service's prefix and reports each of them once, in any number of pages and
  batches. A region whose label merely starts with the retired one keeps its parameters.
\<close>

theorem DeletePrefix_exact:
  assumes "ssm_service (ssm_client s) params pages"
    and "length (pages (params w) (Prefix s (''appliance/'' @ region)) None) \<le> fuel"
    and "region \<noteq> []" "CHR ''/'' \<notin> set region"
  shows "wp (DeletePrefix fuel s (''appliance/'' @ region))
      (\<lambda>deleted w'. distinct deleted
         \<and> set deleted = {p. params w p \<noteq> None \<and> (\<exists>n. p = Path s (''appliance/'' @ region) n)}
         \<and> params w' = params w |` (- set deleted)
         \<and> (\<forall>other n. CHR ''/'' \<notin> set other \<longrightarrow> other \<noteq> region \<longrightarrow>
              params w' (Path s (''appliance/'' @ other) n) = params w (Path s (''appliance/'' @ other) n)))
      (\<lambda>_ w'. \<exists>S. S \<subseteq> range (Path s (''appliance/'' @ region)) \<and> params w' = params w |` (- S)) w"
proof -
  have last: "last (''appliance/'' @ region) \<noteq> CHR ''/''"
    using assms(3,4) by (auto simp: last_append dest: last_in_set)
  have under: "under_path (Prefix s (''appliance/'' @ region)) p \<longleftrightarrow> (\<exists>n. p = Path s (''appliance/'' @ region) n)" for p
    by (rule under_Prefix_iff [OF _ last]) simp
  have other: "Path s (''appliance/'' @ other) n \<noteq> Path s (''appliance/'' @ region) m"
    if "CHR ''/'' \<notin> set other" "other \<noteq> region" for other n m
    using Path_inject_region [OF that(1) assms(4), of s "''appliance''" n m] that(2)
    unfolding append_assoc [symmetric] append.simps by blast
  show ?thesis
  proof (rule ssm_service.wp_DeletePrefix [OF assms(1) refl assms(2)], goal_cases)
    case (1 names w')
    then have names: "set names = {p. params w p \<noteq> None \<and> (\<exists>n. p = Path s (''appliance/'' @ region) n)}"
      unfolding under by blast
    have "params w' (Path s (''appliance/'' @ other) n) = params w (Path s (''appliance/'' @ other) n)"
      if "CHR ''/'' \<notin> set other" "other \<noteq> region" for other n
    proof -
      have "Path s (''appliance/'' @ other) n \<notin> set names"
        unfolding names using other [OF that] by blast
      with 1(3) show ?thesis by (simp add: restrict_map_def)
    qed
    with 1 names show ?case by blast
  next
    case (2 e S w')
    then show ?case unfolding under by blast
  qed
qed

text \<open>The world of the next witness: us-east-9 is retired beside us-east-90.\<close>

definition two_regions :: fake_ssm where
  "two_regions = fake_with
     [(''/forge-central/test/appliance/us-east-9/hilt-ingot-s3-proof'', ''p9''),
      (''/forge-central/test/appliance/us-east-90/hilt-ingot-s3-proof'', ''p90''),
      (''/forge-central/test/appliance/us-east-9/unseal-token.accessor'', ''a9'')]"

theorem DeletePrefix_exact_witness:
  "wp (DeletePrefix 1 fake_store (''appliance/'' @ ''us-east-9''))
      (\<lambda>deleted w'. distinct deleted
         \<and> set deleted = {p. fake_held two_regions p \<noteq> None
              \<and> (\<exists>n. p = Path fake_store (''appliance/'' @ ''us-east-9'') n)}
         \<and> fake_held w' = fake_held two_regions |` (- set deleted)
         \<and> (\<forall>other n. CHR ''/'' \<notin> set other \<longrightarrow> other \<noteq> ''us-east-9'' \<longrightarrow>
              fake_held w' (Path fake_store (''appliance/'' @ other) n)
                = fake_held two_regions (Path fake_store (''appliance/'' @ other) n)))
      (\<lambda>_ w'. \<exists>S. S \<subseteq> range (Path fake_store (''appliance/'' @ ''us-east-9''))
         \<and> fake_held w' = fake_held two_regions |` (- S)) two_regions
   \<and> map fst (fs_params (snd (DeletePrefix 1 fake_store ''appliance/us-east-9'' two_regions)))
       = [''/forge-central/test/appliance/us-east-90/hilt-ingot-s3-proof'']"
proof
  have "ssm_service (ssm_client fake_store) fake_held fake_pages"
    using fake_ssm.ssm_service_axioms by (simp add: fake_store_def)
  then show "wp (DeletePrefix 1 fake_store (''appliance/'' @ ''us-east-9''))
      (\<lambda>deleted w'. distinct deleted
         \<and> set deleted = {p. fake_held two_regions p \<noteq> None
              \<and> (\<exists>n. p = Path fake_store (''appliance/'' @ ''us-east-9'') n)}
         \<and> fake_held w' = fake_held two_regions |` (- set deleted)
         \<and> (\<forall>other n. CHR ''/'' \<notin> set other \<longrightarrow> other \<noteq> ''us-east-9'' \<longrightarrow>
              fake_held w' (Path fake_store (''appliance/'' @ other) n)
                = fake_held two_regions (Path fake_store (''appliance/'' @ other) n)))
      (\<lambda>_ w'. \<exists>S. S \<subseteq> range (Path fake_store (''appliance/'' @ ''us-east-9''))
         \<and> fake_held w' = fake_held two_regions |` (- S)) two_regions"
    by (rule DeletePrefix_exact [where params = fake_held and pages = fake_pages])
      (simp_all add: fake_pages_def)
  have chunk2: "chunk 10 [a, b] = [[a, b]]" for a b :: string
    by (simp add: chunk.simps)
  show "map fst (fs_params (snd (DeletePrefix 1 fake_store ''appliance/us-east-9'' two_regions)))
       = [''/forge-central/test/appliance/us-east-90/hilt-ingot-s3-proof'']"
    by (simp add: DeletePrefix_def delete_batches_def act_defs fake_store_defs two_regions_def
        fake_listing_def trim_suffix_def suffix_def map_keys_def Let_def chunk2)
qed

end
