(* ===== verification/PiriRecord.thy ===== *)
theory PiriRecord
imports Config SsmStore
begin

text \<open>
  \<open>cmd/provision/pirirecord.go\<close>: central's record of which Piri DIDs belong to which region, one
  public parameter per DID under the region's prefix.

  The interface \<open>publicStore\<close> is a record of actions with the locale \<open>public_store\<close>; it is
  interpreted on \<open>ssmstore.Store\<close> over any SSM client that keeps its laws.
\<close>

section \<open>Operations\<close>

record 'w publicStore =
  ps_EnsurePublic :: "string \<Rightarrow> string \<Rightarrow> ('w, string) act \<Rightarrow> ('w, string \<times> bool) act"
  ps_ListPublic :: "string \<Rightarrow> string \<Rightarrow> ('w, (string, string) go_map) act"

definition piriSubPrefix :: string where
  "piriSubPrefix = ''piri''"

definition piriParameterName :: "string \<Rightarrow> go_error + string" where
  "piriParameterName piriDID =
     (case cut_prefix piriDID ''did:key:'' of
        Some (c # tail) \<Rightarrow> Inr (piriSubPrefix @ ''/'' @ (c # tail))
      | _ \<Rightarrow> Inl (Errorf (''a Piri identity has to be a did:key, and '' @ go_quote piriDID
          @ '' is not; central records a region's Piri DIDs under names SSM accepts, which a colon is not'')))"

text \<open>The values of the map come in any order; sorting them makes the result depend on the map alone.\<close>

definition Recorded :: "'w publicStore \<Rightarrow> string \<Rightarrow> ('w, string list) act" where
  "Recorded store region =
     bindE (ps_ListPublic store (applianceService region) piriSubPrefix) (\<lambda>values.
     returnE (sort (map snd (map_entries values))))"

definition Record :: "'w publicStore \<Rightarrow> string \<Rightarrow> string \<Rightarrow> ('w, unit) act" where
  "Record store region piriDID =
     (case piriParameterName piriDID of
        Inl err \<Rightarrow> failE err
      | Inr name \<Rightarrow>
          bindE (ps_EnsurePublic store (applianceService region) name (returnE piriDID)) (\<lambda>_.
          returnE ()))"

definition ssm_publicStore :: "nat \<Rightarrow> 'w ssm_store \<Rightarrow> 'w publicStore" where
  "ssm_publicStore fuel s = \<lparr>ps_EnsurePublic = EnsurePublic s, ps_ListPublic = ListPublic fuel s\<rparr>"

section \<open>Names\<close>

lemma piriParameterName_Inr:
  "piriParameterName d = Inr name \<longleftrightarrow> (\<exists>t. t \<noteq> [] \<and> d = ''did:key:'' @ t \<and> name = ''piri/'' @ t)"
proof -
  have pre: "piriSubPrefix @ ''/'' @ t = ''piri/'' @ t" for t
    by (simp add: piriSubPrefix_def)
  show ?thesis
  proof (cases "cut_prefix d ''did:key:''")
    case None
    then have "d \<noteq> ''did:key:'' @ t" for t by (auto simp: cut_prefix_def)
    then show ?thesis unfolding piriParameterName_def None by auto
  next
    case (Some t)
    then have d: "d = ''did:key:'' @ t" by simp
    show ?thesis
      unfolding piriParameterName_def Some unfolding d
      by (cases t) (simp_all add: piriSubPrefix_def eq_commute)
  qed
qed

text \<open>Two DIDs are never recorded under the same name.\<close>

lemma piriParameterName_inject:
  "piriParameterName d = Inr name \<Longrightarrow> piriParameterName d' = Inr name \<Longrightarrow> d = d'"
  by (auto simp: piriParameterName_Inr)

section \<open>What the record relies on\<close>

text \<open>
  \<open>pub w\<close> is the table of public parameters, by \<open>service/name\<close>; a list maps the names one level
  below the sub-prefix to their values, as long as nothing sits deeper.
\<close>

locale public_store =
  fixes store :: "'w publicStore"
    and pub :: "'w \<Rightarrow> string \<Rightarrow> string option"
    and oks :: "string \<Rightarrow> bool"
  assumes ensure: "oks (slot service name) \<Longrightarrow> wp (ps_EnsurePublic store service name (returnE v))
      (\<lambda>(r, created) w'. case pub w (slot service name) of
           Some x \<Rightarrow> r = x \<and> \<not> created \<and> pub w' = pub w
         | None \<Rightarrow> r = v \<and> created \<and> pub w' = (pub w)(slot service name \<mapsto> v))
      (\<lambda>_ w'. pub w' = pub w \<or> pub w (slot service name) = None
         \<and> pub w' = (pub w)(slot service name \<mapsto> v)) w"
    and list_public: "sub \<noteq> [] \<Longrightarrow> last sub \<noteq> CHR ''/'' \<Longrightarrow>
      (\<And>k. pub w (slot service (sub @ ''/'' @ k)) \<noteq> None \<Longrightarrow> CHR ''/'' \<notin> set k) \<Longrightarrow>
      wp (ps_ListPublic store service sub)
      (\<lambda>m w'. pub w' = pub w \<and> (\<forall>k. map_of m k = pub w (slot service (sub @ ''/'' @ k))))
      (\<lambda>_ w'. pub w' = pub w) w"

text \<open>
  \<open>piri_wf\<close> is the invariant of the record: under a region's sub-prefix every parameter is named by
  the tail of the \<open>did:key\<close> it holds. \<open>piri_set\<close> is the set of DIDs it records.
\<close>

definition piri_slot :: "string \<Rightarrow> string \<Rightarrow> string" where
  "piri_slot region k = slot (applianceService region) (piriSubPrefix @ ''/'' @ k)"

definition piri_wf :: "(string \<Rightarrow> string option) \<Rightarrow> bool" where
  "piri_wf T \<longleftrightarrow> (\<forall>region k v. CHR ''/'' \<notin> set region \<longrightarrow> T (piri_slot region k) = Some v \<longrightarrow>
     CHR ''/'' \<notin> set k \<and> v = ''did:key:'' @ k)"

definition piri_set :: "(string \<Rightarrow> string option) \<Rightarrow> string \<Rightarrow> string set" where
  "piri_set T region = {''did:key:'' @ k | k. T (piri_slot region k) \<noteq> None}"

lemma piri_slot_inject:
  assumes "CHR ''/'' \<notin> set r" "CHR ''/'' \<notin> set r'"
  shows "piri_slot r k = piri_slot r' k' \<longleftrightarrow> r = r' \<and> k = k'"
proof -
  have "takeWhile (\<lambda>c. c \<noteq> CHR ''/'') (x @ ''/'' @ y) = x" if "CHR ''/'' \<notin> set x" for x y
    using that by (subst takeWhile_append2) auto
  with assms have "r @ ''/'' @ n = r' @ ''/'' @ n' \<Longrightarrow> r = r'" for n n'
    by metis
  from this [of "''piri/'' @ k" "''piri/'' @ k'"] show ?thesis
    by (auto simp: piri_slot_def slot_def applianceService_def piriSubPrefix_def)
qed

lemma piri_wf_update:
  assumes "piri_wf T" "CHR ''/'' \<notin> set region" "CHR ''/'' \<notin> set k"
  shows "piri_wf (T(piri_slot region k \<mapsto> ''did:key:'' @ k))"
  using assms unfolding piri_wf_def by (auto simp: piri_slot_inject)

lemma piri_set_update:
  assumes "CHR ''/'' \<notin> set region" "CHR ''/'' \<notin> set r"
  shows "piri_set (T(piri_slot region k \<mapsto> v)) r =
    (if r = region then insert (''did:key:'' @ k) (piri_set T r) else piri_set T r)"
  using assms unfolding piri_set_def by (auto simp: piri_slot_inject)

context public_store
begin

lemma wp_Recorded:
  assumes wf: "piri_wf (pub w)" "CHR ''/'' \<notin> set region"
  shows "wp (Recorded store region)
      (\<lambda>ds w'. pub w' = pub w \<and> set ds = piri_set (pub w) region \<and> sorted ds \<and> distinct ds)
      (\<lambda>_ w'. pub w' = pub w) w"
  unfolding Recorded_def
proof (rule wp_bindI [OF list_public], goal_cases)
  case (3 k)
  then have "pub w (piri_slot region k) \<noteq> None" by (simp add: piri_slot_def)
  with wf show ?case unfolding piri_wf_def by blast
next
  case (4 m w')
  then have m: "map_of m k = pub w (piri_slot region k)" for k by (simp add: piri_slot_def)
  have v: "map_of m k = Some v \<Longrightarrow> v = ''did:key:'' @ k" for k v
    using wf unfolding m piri_wf_def by blast
  have "set (map snd (map_entries m)) = piri_set (pub w) region"
    using v by (force simp: piri_set_def m image_iff)
  moreover have "distinct (map snd (map_entries m))"
  proof -
    have "the (map_of m k) = ''did:key:'' @ k" if k: "k \<in> set (map_keys m)" for k
    proof -
      obtain y where y: "map_of m k = Some y" using k by auto
      with v [OF y] show ?thesis by simp
    qed
    then have "map snd (map_entries m) = map (\<lambda>k. ''did:key:'' @ k) (map_keys m)"
      unfolding map_entries_def map_map comp_def snd_conv by (intro map_cong refl)
    then show ?thesis by (auto simp: distinct_map inj_on_def)
  qed
  ultimately show ?case using 4 by (simp add: wp_returnE)
qed (simp_all add: piriSubPrefix_def)

lemma wp_Record:
  assumes wf: "piri_wf (pub w)" "CHR ''/'' \<notin> set region" "CHR ''/'' \<notin> set d"
    and oks: "\<And>k. d = ''did:key:'' @ k \<Longrightarrow> oks (piri_slot region k)"
  shows "wp (Record store region d)
      (\<lambda>_ w'. piri_wf (pub w') \<and> piri_set (pub w') region = insert d (piri_set (pub w) region)
         \<and> (\<forall>r. CHR ''/'' \<notin> set r \<longrightarrow> r \<noteq> region \<longrightarrow> piri_set (pub w') r = piri_set (pub w) r))
      (\<lambda>_ w'. piri_wf (pub w') \<and> (piri_set (pub w') region = piri_set (pub w) region
           \<or> piri_set (pub w') region = insert d (piri_set (pub w) region))
         \<and> (\<forall>r. CHR ''/'' \<notin> set r \<longrightarrow> r \<noteq> region \<longrightarrow> piri_set (pub w') r = piri_set (pub w) r)) w"
    (is "wp _ ?Q ?E w")
proof (cases "piriParameterName d")
  case (Inl err)
  then show ?thesis using wf by (simp add: Record_def wp_failE)
next
  case (Inr name)
  then obtain t where t: "d = ''did:key:'' @ t" "name = ''piri/'' @ t"
    by (auto simp: piriParameterName_Inr)
  then have t': "CHR ''/'' \<notin> set t" using wf(3) by auto
  have slot: "slot (applianceService region) name = piri_slot region t"
    by (simp add: piri_slot_def t piriSubPrefix_def)
  have new: "?Q a w'" "?E e w'" if "pub w' = (pub w)(piri_slot region t \<mapsto> d)" for a e w'
    using that piri_wf_update [OF wf(1,2) t'] wf(2) by (auto simp: t(1) piri_set_update)
  have old: "d \<in> piri_set (pub w) region" if "pub w (piri_slot region t) \<noteq> None"
    using that by (auto simp: piri_set_def t(1))
  have oks': "oks (slot (applianceService region) name)"
    unfolding slot by (rule oks [OF t(1)])
  show ?thesis
    unfolding Record_def Inr sum.case
  proof (rule wp_bindI [OF ensure [OF oks']], goal_cases)
    case (1 r w')
    then show ?case
      using wf(1) new(1) [of w'] old unfolding slot wp_returnE
      by (auto simp: insert_absorb split: option.splits)
  next
    case (2 e w')
    then show ?case
      using wf(1) new(2) [of w'] unfolding slot by auto
  qed
qed

end

section \<open>The real store\<close>

locale ssm_publics = ssm: ssm_service api params pages
  for api :: "'w ssm_api" and params pages +
  fixes stage :: string and fuel :: nat
  assumes enough_fuel: "length (pages (params w) path None) \<le> fuel"

sublocale ssm_publics \<subseteq> publics: public_store
    "ssm_publicStore fuel \<lparr>ssm_client = api, ssm_stage = stage\<rparr>"
    "\<lambda>w. stage_view (''/forge-central/'' @ stage @ ''/'') (params w)"
    "\<lambda>k. \<not> contains (''/forge-central/'' @ stage @ ''/'' @ k) ''ParameterAlreadyExists''"
proof (unfold_locales, goal_cases)
  case (1 service name v w)
  let ?s = "\<lparr>ssm_client = api, ssm_stage = stage\<rparr>"
  have upd: "stage_view (''/forge-central/'' @ stage @ ''/'') (T(Path ?s service name \<mapsto> v))
      = (stage_view (''/forge-central/'' @ stage @ ''/'') T)(slot service name \<mapsto> v)" for T
    by (auto simp: stage_view_def Path_slot fun_eq_iff)
  show ?case
    unfolding ssm_publicStore_def publicStore.simps EnsurePublic_def
  proof (rule ssm.wp_ensure_frame [where G = "\<lambda>x. x = v"], goal_cases)
    case 2
    then show ?case using 1 by (simp add: Path_slot)
  next
    case (4 x w')
    then show ?case by (simp add: stage_view_def Path_slot)
  next
    case (5 x w')
    then show ?case using upd by (simp add: stage_view_def Path_slot)
  next
    case (6 e w')
    then show ?case using upd by (auto simp: stage_view_def Path_slot)
  qed (simp_all add: wp_returnE)
next
  case (2 sub w service)
  let ?s = "\<lparr>ssm_client = api, ssm_stage = stage\<rparr>" and ?pre = "''/forge-central/'' @ stage @ ''/''"
  have path: "Path ?s service (sub @ ''/'' @ k) = ?pre @ slot service (sub @ ''/'' @ k)" for k
    by (simp add: Path_slot)
  have seg: "last_segment (Path ?s service (sub @ ''/'' @ k)) = k" if "CHR ''/'' \<notin> set k" for k
    using last_segment_append [OF that, of "''/forge-central/'' @ stage @ ''/'' @ service @ ''/''" sub]
    by (simp add: Path_def)
  show ?case
    unfolding ssm_publicStore_def publicStore.simps
  proof (rule ssm.wp_ListPublic [OF _ enough_fuel], goal_cases)
    case (2 ps w')
    have under: "(n, v) \<in> set ps \<longleftrightarrow> (\<exists>k. n = Path ?s service (sub @ ''/'' @ k) \<and> params w n = Some v)" for n v
      unfolding 2(3) using under_Path_iff [OF \<open>sub \<noteq> []\<close> \<open>last sub \<noteq> CHR ''/''\<close>] by blast
    have flat: "CHR ''/'' \<notin> set k" if "params w (Path ?s service (sub @ ''/'' @ k)) \<noteq> None" for k
      using that \<open>\<And>k. stage_view ?pre (params w) (slot service (sub @ ''/'' @ k)) \<noteq> None \<Longrightarrow> CHR ''/'' \<notin> set k\<close>
      by (simp only: path stage_view_def append_assoc)
    have "inj_on last_segment (fst ` set ps)"
      by (rule inj_onI) (use under flat seg in \<open>force simp: image_iff\<close>)
    then have "distinct (map (last_segment \<circ> fst) ps)"
      using 2(2) by (simp add: distinct_map comp_inj_on)
    note look = map_of_by_last_segment [OF this]
    have "map_of (by_last_segment ps) k = Some v \<longleftrightarrow> params w (Path ?s service (sub @ ''/'' @ k)) = Some v" for k v
      unfolding look under using flat seg by (metis option.distinct(1))
    then have "map_of (by_last_segment ps) k = params w (Path ?s service (sub @ ''/'' @ k))" for k
      by (metis not_Some_eq)
    with 2(1) show ?case unfolding stage_view_def path by simp
  qed simp_all
qed

interpretation fake_publics: ssm_publics fake_ssm_api fake_held fake_pages "''test''" 1
  by (intro ssm_publics.intro fake_ssm.ssm_service_axioms ssm_publics_axioms.intro)
    (simp add: fake_pages_def)

section \<open>Properties\<close>

text \<open>
  C27. Recording a Piri DID and reading the region back returns the DIDs the region had and the new
  one, each once and in order; other regions' sets are untouched, recording a DID twice is the same
  as once, and the record stays well formed whether the calls succeed or fail.
\<close>

theorem piri_record_roundtrip:
  assumes "public_store store pub oks" "piri_wf (pub w)"
    and "CHR ''/'' \<notin> set region" "CHR ''/'' \<notin> set d"
    and "\<And>k. d = ''did:key:'' @ k \<Longrightarrow> oks (piri_slot region k)"
  shows "wp (bindE (Record store region d) (\<lambda>_. Recorded store region))
      (\<lambda>ds w'. piri_wf (pub w') \<and> set ds = insert d (piri_set (pub w) region) \<and> sorted ds \<and> distinct ds
         \<and> (\<forall>r. CHR ''/'' \<notin> set r \<longrightarrow> r \<noteq> region \<longrightarrow> piri_set (pub w') r = piri_set (pub w) r))
      (\<lambda>_ w'. piri_wf (pub w') \<and> piri_set (pub w) region \<subseteq> piri_set (pub w') region) w"
proof (rule wp_bindI [OF public_store.wp_Record [OF assms(1-4)]], goal_cases)
  case (1 k)
  then show ?case by (rule assms(5))
next
  case (2 u w1)
  then show ?case
    by (intro wp_weaken [OF public_store.wp_Recorded [OF assms(1)]]) (use assms(3) in auto)
qed auto

theorem piri_record_roundtrip_witness:
  "let s = ssm_publicStore 1 fake_store; pub = (\<lambda>w. stage_view ''/forge-central/test/'' (fake_held w));
       w = fake_with [(''/forge-central/test/appliance/us-east-9/piri/z6MkTwo'', ''did:key:z6MkTwo'')] in
   wp (bindE (Record s ''us-east-9'' ''did:key:z6MkOne'') (\<lambda>_. Recorded s ''us-east-9''))
      (\<lambda>ds w'. piri_wf (pub w') \<and> set ds = insert ''did:key:z6MkOne'' (piri_set (pub w) ''us-east-9'')
         \<and> sorted ds \<and> distinct ds
         \<and> (\<forall>r. CHR ''/'' \<notin> set r \<longrightarrow> r \<noteq> ''us-east-9'' \<longrightarrow> piri_set (pub w') r = piri_set (pub w) r))
      (\<lambda>_ w'. piri_wf (pub w') \<and> piri_set (pub w) ''us-east-9'' \<subseteq> piri_set (pub w') ''us-east-9'') w
   \<and> piri_set (pub w) ''us-east-9'' = {''did:key:z6MkTwo''}"
  (is "let s = ?s; pub = ?pub; w = ?w in ?W s pub w \<and> _")
proof -
  have two: "?pub ?w = [piri_slot ''us-east-9'' ''z6MkTwo'' \<mapsto> ''did:key:z6MkTwo'']"
    by (rule ext) (auto simp: stage_view_def fake_held_def fake_with_def piri_slot_def slot_def
        applianceService_def piriSubPrefix_def)
  have wf: "piri_wf (?pub ?w)"
    unfolding two piri_wf_def by (auto simp: piri_slot_inject split: if_splits)
  have store: "public_store ?s ?pub (\<lambda>k. \<not> contains (''/forge-central/test/'' @ k) ''ParameterAlreadyExists'')"
    using fake_publics.publics.public_store_axioms by (simp add: fake_store_def)
  have noslash: "CHR ''/'' \<notin> set ''us-east-9''" "CHR ''/'' \<notin> set ''did:key:z6MkOne''"
    by simp_all
  have oks: "\<not> contains (''/forge-central/test/'' @ piri_slot ''us-east-9'' k) ''ParameterAlreadyExists''"
    if "''did:key:z6MkOne'' = ''did:key:'' @ k" for k
    using that by (intro not_contains [of "CHR ''P''"])
      (auto simp: piri_slot_def slot_def applianceService_def piriSubPrefix_def)
  note rt = piri_record_roundtrip [where store = ?s and pub = ?pub and w = ?w
      and region = "''us-east-9''" and d = "''did:key:z6MkOne''", OF store wf noslash]
  have "?W ?s ?pub ?w"
    by (rule rt) (rule oks)
  moreover have "piri_set (?pub ?w) ''us-east-9'' = {''did:key:z6MkTwo''}"
    unfolding two piri_set_def by (auto simp: piri_slot_inject split: if_splits)
  ultimately show ?thesis by (simp only: Let_def simp_thms)
qed

end
