(* ===== verification/SecretStore.thy ===== *)
theory SecretStore
imports Go_Base
begin

text \<open>
  \<open>internal/secretstore/secretstore.go\<close>: one stage's private keys in Secrets Manager.

  The Secrets Manager client is the parameter \<open>secrets_api\<close>. \<open>secrets w\<close> is the table the service
  holds in world \<open>w\<close>: the value and the ARN of each name. The locale \<open>secrets_shared\<close> states what the
  package relies on while other runs may create secrets, \<open>secrets_service\<close> what holds when this run
  is the only writer. The test doubles of \<open>secretstore_test.go\<close> interpret them.
\<close>

section \<open>The client and the store\<close>

text \<open>A response carries the secret's value and its ARN; a write's response only the ARN.\<close>

record 'w secrets_api =
  GetSecretValue :: "string \<Rightarrow> ('w, string \<times> string) act"
  CreateSecret :: "string \<Rightarrow> string \<Rightarrow> ('w, string) act"
  PutSecretValue :: "string \<Rightarrow> string \<Rightarrow> ('w, string) act"

record 'w secret_store =
  sec_client :: "'w secrets_api"
  sec_stage :: string

record secret =
  sec_Value :: string
  sec_ARN :: string

definition sec_Name :: "'w secret_store \<Rightarrow> string \<Rightarrow> string \<Rightarrow> string" where
  "sec_Name s service name = ''forge-central/'' @ sec_stage s @ ''/'' @ service @ ''/'' @ name"

section \<open>Operations\<close>

definition sec_get :: "'w secret_store \<Rightarrow> string \<Rightarrow> ('w, secret option) act" where
  "sec_get s secretName =
     catchE
       (bindE (GetSecretValue (sec_client s) secretName) (\<lambda>(value, arn).
        returnE (Some \<lparr>sec_Value = value, sec_ARN = arn\<rparr>)))
       (\<lambda>err. if ResourceNotFoundException \<in> set (err_deps err) then returnE None
              else failE (wrap (''read '' @ secretName @ '': '') err))"

definition sec_Lookup :: "'w secret_store \<Rightarrow> string \<Rightarrow> string \<Rightarrow> ('w, secret option) act" where
  "sec_Lookup s service name = sec_get s (sec_Name s service name)"

definition sec_Get :: "'w secret_store \<Rightarrow> string \<Rightarrow> string \<Rightarrow> ('w, secret) act" where
  "sec_Get s service name =
     bindE (sec_Lookup s service name) (\<lambda>found.
     case found of
       None \<Rightarrow> failE (Errorf (''secret '' @ sec_Name s service name @ '' not found''))
     | Some secret \<Rightarrow> returnE secret)"

definition sec_Create ::
  "'w secret_store \<Rightarrow> string \<Rightarrow> string \<Rightarrow> string \<Rightarrow> ('w, secret \<times> bool) act" where
  "sec_Create s service name value =
     (let secretName = sec_Name s service name in
      bindE (tryE (CreateSecret (sec_client s) secretName value)) (\<lambda>out.
      case out of
        Inl err \<Rightarrow>
          if ResourceExistsException \<in> set (err_deps err) then
            bindE (sec_Get s service name) (\<lambda>existing. returnE (existing, False))
          else failE (wrap (''create '' @ secretName @ '': '') err)
      | Inr arn \<Rightarrow> returnE (\<lparr>sec_Value = value, sec_ARN = arn\<rparr>, True)))"

definition sec_Ensure ::
  "'w secret_store \<Rightarrow> string \<Rightarrow> string \<Rightarrow> ('w, string) act \<Rightarrow> ('w, secret \<times> bool) act" where
  "sec_Ensure s service name generate =
     bindE (sec_Lookup s service name) (\<lambda>found.
     case found of
       Some existing \<Rightarrow> returnE (existing, False)
     | None \<Rightarrow>
         bindE (mapErr (wrap (''generate '' @ sec_Name s service name @ '': '')) generate) (\<lambda>value.
         sec_Create s service name value))"

definition PutIfChanged ::
  "'w secret_store \<Rightarrow> string \<Rightarrow> string \<Rightarrow> string \<Rightarrow> ('w, secret) act" where
  "PutIfChanged s service name value =
     (let secretName = sec_Name s service name in
      bindE (sec_Lookup s service name) (\<lambda>found.
      case found of
        None \<Rightarrow>
          bindE (sec_Create s service name value) (\<lambda>(created, _).
          if sec_Value created \<noteq> value then
            failE (Errorf (secretName @ '' was created concurrently with a different value''))
          else returnE created)
      | Some existing \<Rightarrow>
          if sec_Value existing = value then returnE existing
          else
            bindE (mapErr (wrap (''write '' @ secretName @ '': ''))
                     (PutSecretValue (sec_client s) (sec_ARN existing) value)) (\<lambda>arn.
            returnE \<lparr>sec_Value = value, sec_ARN = arn\<rparr>)))"

section \<open>What the package relies on\<close>

text \<open>
  A \<open>SecretId\<close> is a name or an ARN; the code reads by name, and no name it uses starts with
  \<open>arn:\<close>. Under \<open>secrets_shared\<close> other runs may create secrets at any moment and nobody
  replaces or removes one.
\<close>

locale secrets_shared =
  fixes api :: "'w secrets_api"
    and secrets :: "'w \<Rightarrow> string \<Rightarrow> secret option"
  assumes get_grows: "GetSecretValue api n w = (r, w') \<Longrightarrow> secrets w \<subseteq>\<^sub>m secrets w'"
    and get_returns: "GetSecretValue api n w = (r, w') \<Longrightarrow> r \<noteq> Hang"
    and get_Ok: "GetSecretValue api n w = (Ok (v, arn), w') \<Longrightarrow> \<not> has_prefix n ''arn:'' \<Longrightarrow>
          secrets w' n = Some \<lparr>sec_Value = v, sec_ARN = arn\<rparr>"
    and get_absent: "GetSecretValue api n w = (Fail e, w') \<Longrightarrow> \<not> has_prefix n ''arn:'' \<Longrightarrow>
          ResourceNotFoundException \<in> set (err_deps e) \<Longrightarrow> secrets w n = None"
    and create_grows: "CreateSecret api n v w = (q, w') \<Longrightarrow> secrets w \<subseteq>\<^sub>m secrets w'"
    and create_returns: "CreateSecret api n v w = (q, w') \<Longrightarrow> q \<noteq> Hang"
    and create_Ok: "CreateSecret api n v w = (Ok arn, w') \<Longrightarrow>
          secrets w n = None \<and> secrets w' n = Some \<lparr>sec_Value = v, sec_ARN = arn\<rparr>"
    and create_exists: "CreateSecret api n v w = (Fail e, w') \<Longrightarrow>
          ResourceExistsException \<in> set (err_deps e) \<Longrightarrow> secrets w' n \<noteq> None"

lemma sec_Name_not_arn [simp]: "\<not> has_prefix (sec_Name s service name) ''arn:''"
  by (simp add: sec_Name_def)

lemma sec_Name_inject [simp]:
  "CHR ''/'' \<notin> set service \<Longrightarrow> CHR ''/'' \<notin> set service' \<Longrightarrow>
     sec_Name s service name = sec_Name s service' name' \<longleftrightarrow> service = service' \<and> name = name'"
  by (auto simp: sec_Name_def) (metis cut_at_append prod.inject)+

context secrets_shared
begin

lemma wp_sec_Lookup:
  assumes "sec_client s = api"
    and "\<And>sec w'. secrets w \<subseteq>\<^sub>m secrets w' \<Longrightarrow> secrets w' (sec_Name s service name) = Some sec \<Longrightarrow>
           Q (Some sec) w'"
    and "\<And>w'. secrets w \<subseteq>\<^sub>m secrets w' \<Longrightarrow> secrets w (sec_Name s service name) = None \<Longrightarrow> Q None w'"
    and "\<And>e w'. secrets w \<subseteq>\<^sub>m secrets w' \<Longrightarrow> E e w'"
  shows "wp (sec_Lookup s service name) Q E w"
  unfolding sec_Lookup_def sec_get_def assms(1) wp_simps
  by (rule wp_cases)
    (auto simp: wp_simps intro!: assms(2-4) dest: get_returns get_Ok get_absent intro: get_grows)

lemma wp_sec_Create:
  assumes client: "sec_client s = api"
    and "\<And>sec w'. secrets w \<subseteq>\<^sub>m secrets w' \<Longrightarrow> secrets w' (sec_Name s service name) = Some sec \<Longrightarrow>
           Q (sec, False) w'"
    and "\<And>sec w'. secrets w \<subseteq>\<^sub>m secrets w' \<Longrightarrow> secrets w (sec_Name s service name) = None \<Longrightarrow>
           secrets w' (sec_Name s service name) = Some sec \<Longrightarrow> sec_Value sec = v \<Longrightarrow> Q (sec, True) w'"
    and "\<And>e w'. secrets w \<subseteq>\<^sub>m secrets w' \<Longrightarrow> E e w'"
  shows "wp (sec_Create s service name v) Q E w"
  unfolding sec_Create_def Let_def client wp_simps
proof (rule wp_cases, goal_cases)
  case (1 arn w1)
  then show ?case
    using create_Ok [OF 1] create_grows [OF 1] by (simp add: assms(3))
next
  case (2 e w1)
  have "wp (sec_Lookup s service name)
          (\<lambda>a. wp (case a of None \<Rightarrow> failE (Errorf (''secret '' @ sec_Name s service name @ '' not found''))
                          | Some sec \<Rightarrow> returnE sec) (\<lambda>existing. Q (existing, False)) E) E w1"
    by (rule wp_sec_Lookup [OF client])
      (use create_grows [OF 2] in \<open>auto simp: wp_simps intro: assms(2,4) map_le_trans\<close>)
  then show ?case
    using create_grows [OF 2] by (auto simp: wp_simps sec_Get_def intro: assms(4))
next
  case (3 w1)
  then show ?case by (meson create_returns)
qed

lemma wp_sec_Ensure:
  assumes client: "sec_client s = api"
    and gen: "\<And>w. wp gen (\<lambda>_ w'. secrets w \<subseteq>\<^sub>m secrets w') (\<lambda>_ w'. secrets w \<subseteq>\<^sub>m secrets w') w"
    and Q: "\<And>sec w'. secrets w \<subseteq>\<^sub>m secrets w' \<Longrightarrow> secrets w' (sec_Name s service name) = Some sec \<Longrightarrow>
           Q (sec, False) w'"
    and Q': "\<And>sec w'. secrets w \<subseteq>\<^sub>m secrets w' \<Longrightarrow> secrets w (sec_Name s service name) = None \<Longrightarrow>
           secrets w' (sec_Name s service name) = Some sec \<Longrightarrow> Q (sec, True) w'"
    and E: "\<And>e w'. secrets w \<subseteq>\<^sub>m secrets w' \<Longrightarrow> E e w'"
  shows "wp (sec_Ensure s service name gen) Q E w"
  unfolding sec_Ensure_def wp_simps
proof (rule wp_sec_Lookup [OF client], goal_cases)
  case (2 w1)
  then show ?case
    unfolding option.case
    by (intro wp_weaken [OF gen] wp_sec_Create [OF client])
      (auto intro: Q Q' E map_le_trans dest: map_le_trans)
qed (auto simp: wp_simps intro: Q E)

end

text \<open>
  \<open>secrets_service\<close>: this run is the only writer. A refused write changes nothing, a failed one may
  still have been carried out, and a new version keeps the secret's ARN.
\<close>

locale secrets_service = secrets_shared api secrets
  for api :: "'w secrets_api" and secrets :: "'w \<Rightarrow> string \<Rightarrow> secret option" +
  assumes get_frame: "GetSecretValue api n w = (r, w') \<Longrightarrow> secrets w' = secrets w"
    and create_Ok_eq: "CreateSecret api n v w = (Ok arn, w') \<Longrightarrow>
          secrets w' = (secrets w)(n \<mapsto> \<lparr>sec_Value = v, sec_ARN = arn\<rparr>)"
    and create_exists_eq: "CreateSecret api n v w = (Fail e, w') \<Longrightarrow>
          ResourceExistsException \<in> set (err_deps e) \<Longrightarrow> secrets w' = secrets w"
    and create_Fail_eq: "CreateSecret api n v w = (Fail e, w') \<Longrightarrow>
          secrets w' = secrets w \<or>
          secrets w n = None \<and> (\<exists>arn. secrets w' = (secrets w)(n \<mapsto> \<lparr>sec_Value = v, sec_ARN = arn\<rparr>))"
    and write_returns: "PutSecretValue api i v w = (q, w') \<Longrightarrow> q \<noteq> Hang"
    and write_Ok: "PutSecretValue api i v w = (Ok arn, w') \<Longrightarrow> secrets w n = Some old \<Longrightarrow>
          sec_ARN old = i \<Longrightarrow>
          arn = i \<and> secrets w' = (secrets w)(n \<mapsto> \<lparr>sec_Value = v, sec_ARN = i\<rparr>)"
    and write_Fail: "PutSecretValue api i v w = (Fail e, w') \<Longrightarrow> secrets w n = Some old \<Longrightarrow>
          sec_ARN old = i \<Longrightarrow>
          secrets w' = secrets w \<or> secrets w' = (secrets w)(n \<mapsto> \<lparr>sec_Value = v, sec_ARN = i\<rparr>)"
begin

lemma wp_sec_Lookup_frame:
  assumes "sec_client s = api"
    and "\<And>w'. secrets w' = secrets w \<Longrightarrow> Q (secrets w (sec_Name s service name)) w'"
    and "\<And>e w'. secrets w' = secrets w \<Longrightarrow> E e w'"
  shows "wp (sec_Lookup s service name) Q E w"
  unfolding sec_Lookup_def sec_get_def assms(1) wp_simps
proof (rule wp_cases, goal_cases)
  case (1 a w')
  obtain v arn where a: "a = (v, arn)" by (cases a)
  from get_Ok [OF 1 [unfolded a]] get_frame [OF 1] assms(2) [of w']
  show ?case by (simp add: a wp_simps)
next
  case (2 e w')
  from get_absent [OF 2] get_frame [OF 2] assms(2) [of w'] assms(3) [of w']
  show ?case by (auto simp: wp_simps)
qed (meson get_returns)

lemma wp_sec_Create_frame:
  assumes client: "sec_client s = api"
    and old: "\<And>sec w'. secrets w' = secrets w \<Longrightarrow> secrets w (sec_Name s service name) = Some sec \<Longrightarrow>
           Q (sec, False) w'"
    and new: "\<And>arn w'. secrets w (sec_Name s service name) = None \<Longrightarrow>
           secrets w' = (secrets w)(sec_Name s service name \<mapsto> \<lparr>sec_Value = v, sec_ARN = arn\<rparr>) \<Longrightarrow>
           Q (\<lparr>sec_Value = v, sec_ARN = arn\<rparr>, True) w'"
    and err: "\<And>e w'. secrets w' = secrets w \<Longrightarrow> E e w'"
    and err': "\<And>e arn w'. secrets w (sec_Name s service name) = None \<Longrightarrow>
           secrets w' = (secrets w)(sec_Name s service name \<mapsto> \<lparr>sec_Value = v, sec_ARN = arn\<rparr>) \<Longrightarrow> E e w'"
  shows "wp (sec_Create s service name v) Q E w"
  unfolding sec_Create_def Let_def client wp_simps
proof (rule wp_cases, goal_cases)
  case (1 arn w1)
  then show ?case
    using create_Ok [OF 1] create_Ok_eq [OF 1] by (simp add: new)
next
  case (2 e w1)
  have "wp (sec_Lookup s service name)
          (\<lambda>a. wp (case a of None \<Rightarrow> failE (Errorf (''secret '' @ sec_Name s service name @ '' not found''))
                          | Some sec \<Rightarrow> returnE sec) (\<lambda>existing. Q (existing, False)) E) E w1"
    if "ResourceExistsException \<in> set (err_deps e)"
    by (rule wp_sec_Lookup_frame [OF client])
      (use create_exists_eq [OF 2 that] create_exists [OF 2 that] in
        \<open>auto simp: wp_simps intro: old err\<close>)
  then show ?case
    using create_Fail_eq [OF 2] by (auto simp: wp_simps sec_Get_def intro: err err')
next
  case (3 w1)
  then show ?case by (meson create_returns)
qed

lemma wp_PutIfChanged:
  assumes client: "sec_client s = api"
    and Q: "\<And>sec w'. sec_Value sec = v \<Longrightarrow> secrets w' = (secrets w)(sec_Name s service name \<mapsto> sec) \<Longrightarrow>
           (\<And>old. secrets w (sec_Name s service name) = Some old \<Longrightarrow> sec_ARN sec = sec_ARN old) \<Longrightarrow> Q sec w'"
    and E: "\<And>e w'. secrets w' = secrets w \<Longrightarrow> E e w'"
    and E': "\<And>e sec w'. sec_Value sec = v \<Longrightarrow> secrets w' = (secrets w)(sec_Name s service name \<mapsto> sec) \<Longrightarrow>
           E e w'"
  shows "wp (PutIfChanged s service name v) Q E w"
  unfolding PutIfChanged_def Let_def wp_simps client
proof (rule wp_sec_Lookup_frame [OF client], goal_cases)
  case (1 w1)
  let ?n = "sec_Name s service name"
  show ?case
  proof (cases "secrets w ?n")
    case None
    show ?thesis
      unfolding None option.case wp_simps
      by (rule wp_sec_Create_frame [OF client])
        (use 1 None in \<open>auto simp: wp_simps intro: Q E E' [of "\<lparr>sec_Value = v, sec_ARN = arn\<rparr>" for arn]\<close>)
  next
    case (Some old)
    have same: "secrets w = (secrets w)(?n \<mapsto> old)" using Some by (simp add: fun_upd_idem)
    have put: "wp (PutSecretValue api (sec_ARN old) v) (\<lambda>arn. Q \<lparr>sec_Value = v, sec_ARN = arn\<rparr>)
        (\<lambda>e. E (wrap (''write '' @ ?n @ '': '') e)) w1"
    proof (rule wp_cases, goal_cases)
      case (1 arn w2)
      with write_Ok [OF 1, of ?n old] Some \<open>secrets w1 = secrets w\<close> show ?case
        by (intro Q) auto
    next
      case (2 e w2)
      with write_Fail [OF 2, of ?n old] Some \<open>secrets w1 = secrets w\<close> show ?case
        by (auto intro: E E' [of "\<lparr>sec_Value = v, sec_ARN = sec_ARN old\<rparr>"])
    qed (meson write_returns)
    have "Q old w1" if "sec_Value old = v"
      by (rule Q) (use that 1 same Some in auto)
    with put Some show ?thesis by (simp add: wp_simps)
  qed
qed (rule E)

end

section \<open>The test doubles\<close>

record fake_secrets =
  fk_values :: "(string, string) go_map"
  fk_creates :: "(string \<times> string) list"
  fk_puts :: "(string \<times> string) list"

definition fakeARN :: "string \<Rightarrow> string" where
  "fakeARN name = ''arn:aws:secretsmanager:us-east-2:111111111111:secret:'' @ name @ ''-AbCdEf''"

definition fake_GetSecretValue :: "string \<Rightarrow> (fake_secrets, string \<times> string) act" where
  "fake_GetSecretValue name f =
     (case find (\<lambda>(stored, _). name = stored \<or> name = fakeARN stored) (map_entries (fk_values f)) of
        Some (stored, value) \<Rightarrow> (Ok (value, fakeARN stored), f)
      | None \<Rightarrow> (Fail (Dep ResourceNotFoundException ''ResourceNotFoundException: ''), f))"

definition fake_CreateSecret :: "string \<Rightarrow> string \<Rightarrow> (fake_secrets, string) act" where
  "fake_CreateSecret name v f =
     (let f' = f\<lparr>fk_creates := fk_creates f @ [(name, v)]\<rparr> in
      if map_of (fk_values f) name \<noteq> None
      then (Fail (Dep ResourceExistsException ''ResourceExistsException: ''), f')
      else (Ok (fakeARN name), f'\<lparr>fk_values := AList.update name v (fk_values f)\<rparr>))"

definition fake_PutSecretValue :: "string \<Rightarrow> string \<Rightarrow> (fake_secrets, string) act" where
  "fake_PutSecretValue i v f =
     (let f' = f\<lparr>fk_puts := fk_puts f @ [(i, v)]\<rparr> in
      case find (\<lambda>stored. i = fakeARN stored) (map_keys (fk_values f)) of
        Some stored \<Rightarrow> (Ok i, f'\<lparr>fk_values := AList.update stored v (fk_values f)\<rparr>)
      | None \<Rightarrow> (Fail (Dep ResourceNotFoundException ''ResourceNotFoundException: ''), f'))"

text \<open>
  \<open>raceSecrets\<close>: a concurrent run creates the secret between this run's check and its write. The
  double is only used on a name that is absent, which is when it differs from \<open>fakeSecrets\<close> here.
\<close>

definition race_CreateSecret :: "string \<Rightarrow> string \<Rightarrow> string \<Rightarrow> (fake_secrets, string) act" where
  "race_CreateSecret winner name v f =
     fake_CreateSecret name v
       (if map_of (fk_values f) name \<noteq> None then f
        else f\<lparr>fk_values := AList.update name winner (fk_values f)\<rparr>)"

definition fake_secrets_api :: "fake_secrets secrets_api" where
  "fake_secrets_api =
     \<lparr>GetSecretValue = fake_GetSecretValue, CreateSecret = fake_CreateSecret,
      PutSecretValue = fake_PutSecretValue\<rparr>"

definition race_secrets_api :: "string \<Rightarrow> fake_secrets secrets_api" where
  "race_secrets_api winner = fake_secrets_api\<lparr>CreateSecret := race_CreateSecret winner\<rparr>"

definition fake_secrets_held :: "fake_secrets \<Rightarrow> string \<Rightarrow> secret option" where
  "fake_secrets_held f n =
     map_option (\<lambda>v. \<lparr>sec_Value = v, sec_ARN = fakeARN n\<rparr>) (map_of (fk_values f) n)"

lemmas fake_secrets_defs = fake_secrets_api_def fake_GetSecretValue_def fake_CreateSecret_def
  fake_PutSecretValue_def race_secrets_api_def race_CreateSecret_def fake_secrets_held_def

lemma fakeARN_inject [simp]: "fakeARN a = fakeARN b \<longleftrightarrow> a = b"
  by (simp add: fakeARN_def)

lemma fakeARN_is_arn [simp]: "prefix ''arn:'' (fakeARN a)"
  by (simp add: fakeARN_def)

lemma fake_get_by_name:
  assumes "\<not> has_prefix n ''arn:''"
  shows "fake_GetSecretValue n f =
     (case map_of (fk_values f) n of
        Some v \<Rightarrow> (Ok (v, fakeARN n), f)
      | None \<Rightarrow> (Fail (Dep ResourceNotFoundException ''ResourceNotFoundException: ''), f))"
proof -
  have "n \<noteq> fakeARN stored" for stored using assms by auto
  then show ?thesis
    unfolding fake_GetSecretValue_def
    by (cases "find (\<lambda>(stored, _). n = stored \<or> n = fakeARN stored) (map_entries (fk_values f))")
      (auto simp: find_None_iff find_Some_iff split: option.split dest: nth_mem)
qed

lemma fake_put_by_arn:
  "fake_PutSecretValue (fakeARN n) v f =
     (let f' = f\<lparr>fk_puts := fk_puts f @ [(fakeARN n, v)]\<rparr> in
      if map_of (fk_values f) n \<noteq> None then (Ok (fakeARN n), f'\<lparr>fk_values := AList.update n v (fk_values f)\<rparr>)
      else (Fail (Dep ResourceNotFoundException ''ResourceNotFoundException: ''), f'))"
proof -
  have "find (\<lambda>stored. fakeARN n = fakeARN stored) (map_keys (fk_values f)) =
      (if map_of (fk_values f) n \<noteq> None then Some n else None)"
    by (cases "find (\<lambda>stored. fakeARN n = fakeARN stored) (map_keys (fk_values f))")
      (auto simp: find_None_iff find_Some_iff dest: nth_mem)
  then show ?thesis by (simp add: fake_PutSecretValue_def Let_def)
qed

interpretation fake_secrets: secrets_service fake_secrets_api fake_secrets_held
proof (unfold_locales, goal_cases)
  case (3 n w v arn w')
  then show ?case
    by (auto simp: fake_secrets_api_def fake_get_by_name fake_secrets_held_def split: option.splits)
next
  case (4 n w e w')
  then show ?case
    by (auto simp: fake_secrets_api_def fake_get_by_name fake_secrets_held_def split: option.splits)
next
  case (14 i v w arn w' n old)
  then show ?case
    by (auto simp: fake_secrets_api_def fake_put_by_arn fake_secrets_held_def update_conv' Let_def
        fun_eq_iff split: if_splits)
next
  case (15 i v w e w' n old)
  then show ?case
    by (auto simp: fake_secrets_api_def fake_put_by_arn fake_secrets_held_def update_conv' Let_def
        fun_eq_iff split: if_splits)
qed (auto simp: fake_secrets_defs Let_def map_le_def update_conv' fun_eq_iff split: if_splits option.splits)

interpretation race_secrets: secrets_shared "race_secrets_api winner" fake_secrets_held for winner
proof (unfold_locales, goal_cases)
  case (3 n w v arn w')
  then show ?case
    by (auto simp: race_secrets_api_def fake_secrets_api_def fake_get_by_name fake_secrets_held_def
        split: option.splits)
next
  case (4 n w e w')
  then show ?case
    by (auto simp: race_secrets_api_def fake_secrets_api_def fake_get_by_name fake_secrets_held_def
        split: option.splits)
qed (auto simp: fake_secrets_defs Let_def map_le_def update_conv' split: if_splits option.splits)

section \<open>Properties\<close>

definition race_secret_store :: "fake_secrets secret_store" where
  "race_secret_store = \<lparr>sec_client = race_secrets_api ''winner'', sec_stage = ''test''\<rparr>"

definition fake_secret_store :: "fake_secrets secret_store" where
  "fake_secret_store = \<lparr>sec_client = fake_secrets_api, sec_stage = ''test''\<rparr>"

definition fake_secrets_with :: "(string, string) go_map \<Rightarrow> fake_secrets" where
  "fake_secrets_with m = \<lparr>fk_values = m, fk_creates = [], fk_puts = []\<rparr>"

text \<open>
  C21. While other runs may create secrets, \<open>Ensure\<close> returns the secret the service holds when it
  returns, ARN included; created=true is reported only for a secret that was absent; and no secret
  held before is lost or changed, on failure either.
\<close>

theorem Ensure_agrees_under_races:
  assumes "secrets_shared (sec_client s) secrets"
    and "\<And>w. wp gen (\<lambda>_ w'. secrets w \<subseteq>\<^sub>m secrets w') (\<lambda>_ w'. secrets w \<subseteq>\<^sub>m secrets w') w"
  shows "wp (sec_Ensure s service name gen)
      (\<lambda>(sec, created) w'. secrets w' (sec_Name s service name) = Some sec
         \<and> (created \<longrightarrow> secrets w (sec_Name s service name) = None) \<and> secrets w \<subseteq>\<^sub>m secrets w')
      (\<lambda>_ w'. secrets w \<subseteq>\<^sub>m secrets w') w"
  by (rule secrets_shared.wp_sec_Ensure [OF assms(1) refl assms(2)]) auto

theorem Ensure_agrees_under_races_witness:
  "wp (sec_Ensure race_secret_store ''svc'' ''key'' (returnE ''loser''))
      (\<lambda>(sec, created) w'. fake_secrets_held w' (sec_Name race_secret_store ''svc'' ''key'') = Some sec
         \<and> (created \<longrightarrow> fake_secrets_held (fake_secrets_with []) (sec_Name race_secret_store ''svc'' ''key'') = None)
         \<and> fake_secrets_held (fake_secrets_with []) \<subseteq>\<^sub>m fake_secrets_held w')
      (\<lambda>_ w'. fake_secrets_held (fake_secrets_with []) \<subseteq>\<^sub>m fake_secrets_held w') (fake_secrets_with [])
   \<and> map_result (sec_Value \<circ> fst) (fst (sec_Ensure race_secret_store ''svc'' ''key'' (returnE ''loser'')
        (fake_secrets_with []))) = Ok ''winner''"
proof
  have "secrets_shared (sec_client race_secret_store) fake_secrets_held"
    using race_secrets.secrets_shared_axioms by (simp add: race_secret_store_def)
  then show "wp (sec_Ensure race_secret_store ''svc'' ''key'' (returnE ''loser''))
      (\<lambda>(sec, created) w'. fake_secrets_held w' (sec_Name race_secret_store ''svc'' ''key'') = Some sec
         \<and> (created \<longrightarrow> fake_secrets_held (fake_secrets_with []) (sec_Name race_secret_store ''svc'' ''key'') = None)
         \<and> fake_secrets_held (fake_secrets_with []) \<subseteq>\<^sub>m fake_secrets_held w')
      (\<lambda>_ w'. fake_secrets_held (fake_secrets_with []) \<subseteq>\<^sub>m fake_secrets_held w') (fake_secrets_with [])"
    by (rule Ensure_agrees_under_races) (simp add: wp_simps)
  show "map_result (sec_Value \<circ> fst) (fst (sec_Ensure race_secret_store ''svc'' ''key'' (returnE ''loser'')
        (fake_secrets_with []))) = Ok ''winner''"
    by (simp add: sec_Ensure_def sec_Create_def sec_Get_def sec_Lookup_def sec_get_def act_defs
        fake_secrets_defs race_secret_store_def fake_secrets_with_def sec_Name_def Let_def map_entries_def
        map_keys_def)
qed



end
