(* ===== verification/Keys.thy ===== *)
theory Keys
imports SsmStore SecretStore
begin

text \<open>
  \<open>cmd/provision/keys.go\<close>: the move of a service's private key from SSM to Secrets Manager.

  The two interfaces \<open>keyStore\<close> and \<open>legacyStore\<close> are records of actions. The locale \<open>key_stores\<close>
  states what the move needs of them while other runs may be creating secrets; \<open>key_stores_alone\<close>
  adds that this run is the only writer. They are interpreted on the fakes of \<open>keys_test.go\<close>, and
  on the real \<open>secretstore\<close> and \<open>ssmstore\<close> over any Secrets Manager and SSM that keep their laws.
\<close>

section \<open>The interfaces\<close>

record keySpec =
  key_service :: string
  key_name :: string
  publicName :: string
  derive :: "string \<Rightarrow> go_error + string"
  legacyNames :: "string list"

record 'w legacyStore =
  ls_LookupSecret :: "string \<Rightarrow> string \<Rightarrow> ('w, string option) act"
  ls_LookupPublic :: "string \<Rightarrow> string \<Rightarrow> ('w, string option) act"
  ls_Delete :: "string \<Rightarrow> string list \<Rightarrow> ('w, string list) act"

record 'w keyStore =
  ks_Lookup :: "string \<Rightarrow> string \<Rightarrow> ('w, secret option) act"
  ks_Create :: "string \<Rightarrow> string \<Rightarrow> string \<Rightarrow> ('w, secret \<times> bool) act"

section \<open>Operations\<close>

definition checkPublicRecord :: "'w legacyStore \<Rightarrow> keySpec \<Rightarrow> string \<Rightarrow> ('w, unit) act" where
  "checkPublicRecord legacy spec value =
     (let secretName = key_service spec @ ''/'' @ key_name spec in
      bindE (ls_LookupPublic legacy (key_service spec) (publicName spec)) (\<lambda>found.
      case found of
        None \<Rightarrow>
          failE (Errorf (secretName @ '' has no '' @ publicName spec
            @ '' record to check the copy against; refusing to move it''))
      | Some recorded \<Rightarrow>
          (case derive spec value of
             Inl err \<Rightarrow> failE (wrap (''derive the public half of '' @ secretName @ '': '') err)
           | Inr derived \<Rightarrow>
               if derived \<noteq> recorded then
                 failE (Errorf (secretName @ '' derives '' @ derived @ '', but '' @ publicName spec
                   @ '' records '' @ recorded @ ''; refusing to move it''))
               else returnE ())))"

definition ensureKey ::
  "'w keyStore \<Rightarrow> 'w legacyStore \<Rightarrow> keySpec \<Rightarrow> ('w, string) act \<Rightarrow> ('w, secret \<times> bool \<times> bool) act" where
  "ensureKey keys legacy spec generate =
     (let secretName = key_service spec @ ''/'' @ key_name spec in
      bindE (ks_Lookup keys (key_service spec) (key_name spec)) (\<lambda>found.
      case legacyNames spec of
        [] \<Rightarrow> panicE
      | legacyName # _ \<Rightarrow>
          bindE (ls_LookupSecret legacy (key_service spec) legacyName) (\<lambda>legacyFound.
          case (found, legacyFound) of
            (Some secret, Some legacyValue) \<Rightarrow>
              if sec_Value secret \<noteq> legacyValue then
                failE (Errorf (secretName
                  @ '' differs between Secrets Manager and SSM; refusing to delete either, resolve it by hand''))
              else returnE (secret, False, True)
          | (Some secret, None) \<Rightarrow> returnE (secret, False, False)
          | (None, Some legacyValue) \<Rightarrow>
              thenE (checkPublicRecord legacy spec legacyValue)
                (bindE (ks_Create keys (key_service spec) (key_name spec) legacyValue) (\<lambda>(secret, _).
                 if sec_Value secret \<noteq> legacyValue then
                   failE (Errorf (secretName
                     @ '' was created concurrently with a different value; refusing to delete the SSM copy''))
                 else returnE (secret, False, True)))
          | (None, None) \<Rightarrow>
              bindE (mapErr (wrap (''generate '' @ secretName @ '': '')) generate) (\<lambda>value.
              bindE (ks_Create keys (key_service spec) (key_name spec) value) (\<lambda>(secret, created).
              returnE (secret, created, False))))))"

definition deleteMovedKeys :: "'w legacyStore \<Rightarrow> keySpec list \<Rightarrow> ('w, unit) act" where
  "deleteMovedKeys legacy moved =
     forE (\<lambda>spec. bindE (ls_Delete legacy (key_service spec) (legacyNames spec)) (\<lambda>_. returnE ())) moved"

section \<open>What the move relies on\<close>

text \<open>
  \<open>held\<close> is Secrets Manager's table, \<open>old\<close> the SecureStrings still in SSM and \<open>public\<close> the published
  records, all by \<open>service/name\<close>. Only \<open>ls_Delete\<close> removes anything, and only from SSM.
\<close>

definition legacy_slots :: "keySpec list \<Rightarrow> string set" where
  "legacy_slots specs = (\<Union>spec\<in>set specs. slot (key_service spec) ` set (legacyNames spec))"

lemma legacy_slots_simps [simp]:
  "legacy_slots [] = {}"
  "legacy_slots (spec # specs) = slot (key_service spec) ` set (legacyNames spec) \<union> legacy_slots specs"
  by (simp_all add: legacy_slots_def)

locale key_stores =
  fixes keys :: "'w keyStore" and legacy :: "'w legacyStore"
    and held :: "'w \<Rightarrow> string \<Rightarrow> secret option"
    and old :: "'w \<Rightarrow> string \<Rightarrow> string option"
    and public :: "'w \<Rightarrow> string \<Rightarrow> string option"
  assumes lookup: "wp (ks_Lookup keys service name)
      (\<lambda>r w'. held w \<subseteq>\<^sub>m held w' \<and> old w' = old w \<and> public w' = public w
         \<and> (case r of None \<Rightarrow> held w (slot service name) = None
                    | Some sec \<Rightarrow> held w' (slot service name) = Some sec))
      (\<lambda>_ w'. held w \<subseteq>\<^sub>m held w' \<and> old w' = old w \<and> public w' = public w) w"
    and create: "wp (ks_Create keys service name value)
      (\<lambda>(sec, created) w'. held w \<subseteq>\<^sub>m held w' \<and> old w' = old w \<and> public w' = public w
         \<and> held w' (slot service name) = Some sec
         \<and> (created \<longrightarrow> held w (slot service name) = None \<and> sec_Value sec = value))
      (\<lambda>_ w'. held w \<subseteq>\<^sub>m held w' \<and> old w' = old w \<and> public w' = public w) w"
    and lookup_secret: "wp (ls_LookupSecret legacy service name)
      (\<lambda>r w'. held w \<subseteq>\<^sub>m held w' \<and> old w' = old w \<and> public w' = public w \<and> r = old w (slot service name))
      (\<lambda>_ w'. held w \<subseteq>\<^sub>m held w' \<and> old w' = old w \<and> public w' = public w) w"
    and lookup_public: "wp (ls_LookupPublic legacy service name)
      (\<lambda>r w'. held w \<subseteq>\<^sub>m held w' \<and> old w' = old w \<and> public w' = public w \<and> r = public w (slot service name))
      (\<lambda>_ w'. held w \<subseteq>\<^sub>m held w' \<and> old w' = old w \<and> public w' = public w) w"
    and delete: "wp (ls_Delete legacy service names)
      (\<lambda>_ w'. held w \<subseteq>\<^sub>m held w' \<and> old w' = old w |` (- slot service ` set names))
      (\<lambda>_ w'. held w \<subseteq>\<^sub>m held w' \<and> (\<exists>S \<subseteq> slot service ` set names. old w' = old w |` (- S))) w"
begin

abbreviation same_ssm :: "'w \<Rightarrow> 'w \<Rightarrow> bool" where
  "same_ssm w w' \<equiv> held w \<subseteq>\<^sub>m held w' \<and> old w' = old w \<and> public w' = public w"

lemma wp_checkPublicRecord:
  assumes "\<And>w' p. same_ssm w w' \<Longrightarrow> public w (slot (key_service spec) (publicName spec)) = Some p \<Longrightarrow>
      derive spec v = Inr p \<Longrightarrow> Q () w'"
    and "\<And>e w'. same_ssm w w' \<Longrightarrow> E e w'"
  shows "wp (checkPublicRecord legacy spec v) Q E w"
  unfolding checkPublicRecord_def Let_def wp_simps
  by (rule wp_weaken [OF lookup_public]) (auto simp: wp_simps intro: assms split: option.splits sum.splits)

lemma wp_ensureKey:
  assumes spec: "legacyNames spec = legacyName # others"
    and gen: "\<And>w. wp gen (\<lambda>_ w'. same_ssm w w') (\<lambda>_ w'. same_ssm w w') w"
  shows "wp (ensureKey keys legacy spec gen)
      (\<lambda>(sec, created, moved) w'. same_ssm w w'
         \<and> held w' (slot (key_service spec) (key_name spec)) = Some sec
         \<and> (created \<longrightarrow> held w (slot (key_service spec) (key_name spec)) = None
              \<and> old w (slot (key_service spec) legacyName) = None)
         \<and> old w (slot (key_service spec) legacyName) = (if moved then Some (sec_Value sec) else None))
      (\<lambda>_ w'. same_ssm w w') w"
proof -
  let ?key = "slot (key_service spec) (key_name spec)" and ?old = "slot (key_service spec) legacyName"
  let ?Q = "\<lambda>(sec, created, moved) w'. same_ssm w w' \<and> held w' ?key = Some sec
         \<and> (created \<longrightarrow> held w ?key = None \<and> old w ?old = None)
         \<and> old w ?old = (if moved then Some (sec_Value sec) else None)"
  have trans: "same_ssm a b \<Longrightarrow> same_ssm b c \<Longrightarrow> same_ssm a c" for a b c :: 'w
    by (auto intro: map_le_trans)
  have grow: "held a k = Some x \<Longrightarrow> same_ssm a b \<Longrightarrow> held b k = Some x" for a b :: 'w and k x
    by (auto intro: map_le_Some)
  let ?E = "\<lambda>_ w'. same_ssm w w'"
  have minted: "wp (bindE (mapErr f gen) (\<lambda>v. bindE (ks_Create keys (key_service spec) (key_name spec) v)
      (\<lambda>(secret, created). returnE (secret, created, False)))) ?Q ?E w2"
    if w2: "same_ssm w w2" and none: "held w ?key = None" "old w ?old = None" for w2 f
  proof (rule wp_bindI [OF wp_mapErrI [OF gen]], assumption, assumption, goal_cases)
    case (1 v w3)
    then have w3: "same_ssm w w3" using trans [OF w2] by blast
    show ?case
      by (rule wp_bindI [OF create]) (use trans [OF w3] none in \<open>auto simp: wp_simps\<close>)
  next
    case (2 e w3)
    then show ?case using trans [OF w2] by blast
  qed
  have copied: "wp (thenE (checkPublicRecord legacy spec v)
      (bindE (ks_Create keys (key_service spec) (key_name spec) v) (\<lambda>(secret, _).
         if sec_Value secret \<noteq> v then failE err else returnE (secret, False, True)))) ?Q ?E w2"
    if w2: "same_ssm w w2" and v: "old w ?old = Some v" for w2 v err
    unfolding wp_thenE
  proof (rule wp_checkPublicRecord, goal_cases)
    case (1 w3)
    then have w3: "same_ssm w w3" using trans [OF w2] by blast
    show ?case
      by (rule wp_bindI [OF create]) (use trans [OF w3] v in \<open>auto simp: wp_simps\<close>)
  next
    case (2 e w3)
    then show ?case using trans [OF w2] by blast
  qed
  show ?thesis
    unfolding ensureKey_def Let_def spec list.case
  proof (rule wp_bindI [OF lookup], goal_cases)
    case (1 found w1)
    note w1 = 1
    show ?case
    proof (rule wp_bindI [OF lookup_secret], goal_cases)
      case (1 legacyFound w2)
      with w1 have w2: "same_ssm w w2" and old: "old w ?old = legacyFound"
        by (auto intro: map_le_trans)
      have key: "held w2 ?key = Some sec" if "found = Some sec" for sec
        using that 1 w1 by (auto intro: grow)
      have none: "held w ?key = None" if "found = None"
        using that w1 by auto
      show ?case
      proof (cases found; cases legacyFound)
        assume "found = None" "legacyFound = None"
        with old none have *: "held w ?key = None" "old w ?old = None" by simp_all
        show ?case
          unfolding \<open>found = None\<close> \<open>legacyFound = None\<close> prod.case option.case
          by (rule minted [OF w2 *])
      next
        fix v
        assume "found = None" "legacyFound = Some v"
        with old have *: "old w ?old = Some v" by simp
        show ?case
          unfolding \<open>found = None\<close> \<open>legacyFound = Some v\<close> prod.case option.case
          by (rule copied [OF w2 *])
      next
        fix sec
        assume "found = Some sec" "legacyFound = None"
        with old key w2 show ?case by (simp add: wp_returnE)
      next
        fix sec v
        assume "found = Some sec" "legacyFound = Some v"
        with old key w2 show ?case by (simp add: wp_simps)
      qed
    next
      case (2 e w2)
      with w1 trans show ?case by blast
    qed
  qed blast
qed

lemma wp_deleteMovedKeys:
  "wp (deleteMovedKeys legacy moved)
     (\<lambda>_ w'. held w \<subseteq>\<^sub>m held w' \<and> old w' = old w |` (- legacy_slots moved))
     (\<lambda>_ w'. held w \<subseteq>\<^sub>m held w' \<and> (\<exists>S \<subseteq> legacy_slots moved. old w' = old w |` (- S))) w"
proof (induction moved arbitrary: w)
  case Nil
  then show ?case by (simp add: deleteMovedKeys_def wp_simps)
next
  case (Cons spec moved)
  let ?K = "slot (key_service spec) ` set (legacyNames spec)"
  let ?Q = "\<lambda>_ w'. held w \<subseteq>\<^sub>m held w' \<and> old w' = old w |` (- legacy_slots (spec # moved))"
  let ?E = "\<lambda>_ w'. held w \<subseteq>\<^sub>m held w' \<and> (\<exists>S \<subseteq> legacy_slots (spec # moved). old w' = old w |` (- S))"
  have rest: "wp (deleteMovedKeys legacy moved) ?Q ?E w1"
    if "held w \<subseteq>\<^sub>m held w1" "old w1 = old w |` (- ?K)" for w1
  proof (rule wp_weaken [OF Cons.IH [of w1]], goal_cases)
    case (1 u w2)
    then show ?case
      using that by (auto simp: Int_commute intro: map_le_trans)
  next
    case (2 e w2)
    then obtain S where S: "S \<subseteq> legacy_slots moved" "old w2 = old w1 |` (- S)" by blast
    have "old w2 = old w |` (- (?K \<union> S))" "?K \<union> S \<subseteq> legacy_slots (spec # moved)"
      using S that by (auto simp: Int_commute)
    moreover have "held w \<subseteq>\<^sub>m held w2"
      using 2 that by (blast intro: map_le_trans)
    ultimately show ?case by blast
  qed
  have "wp (ls_Delete legacy (key_service spec) (legacyNames spec))
      (\<lambda>_ w1. wp (deleteMovedKeys legacy moved) ?Q ?E w1) ?E w"
  proof (rule wp_weaken [OF delete], goal_cases)
    case (1 a w1)
    then show ?case by (intro rest) auto
  next
    case (2 e w1)
    then obtain S where "S \<subseteq> ?K" "old w1 = old w |` (- S)" by blast
    then show ?case
      using 2 by (auto intro!: exI [of _ S])
  qed
  moreover have "deleteMovedKeys legacy (spec # moved) =
      thenE (bindE (ls_Delete legacy (key_service spec) (legacyNames spec)) (\<lambda>_. returnE ()))
        (deleteMovedKeys legacy moved)"
    by (simp add: deleteMovedKeys_def)
  ultimately show ?case
    by (simp only: wp_simps)
qed

text \<open>
  A move, as the seed phase makes it: the key is ensured, and its SSM copies are deleted later.
\<close>

lemma wp_move:
  assumes "legacyNames spec = legacyName # others"
    and "\<And>w. wp gen (\<lambda>_ w'. same_ssm w w') (\<lambda>_ w'. same_ssm w w') w"
  shows "wp (bindE (ensureKey keys legacy spec gen) (\<lambda>(sec, created, moved).
             thenE (if moved then deleteMovedKeys legacy [spec] else returnE ()) (returnE sec)))
      (\<lambda>sec w'. held w \<subseteq>\<^sub>m held w'
         \<and> held w' (slot (key_service spec) (key_name spec)) = Some sec
         \<and> (\<forall>v. old w (slot (key_service spec) legacyName) = Some v \<longrightarrow> sec_Value sec = v)
         \<and> old w' (slot (key_service spec) legacyName) = None)
      (\<lambda>_ w'. held w \<subseteq>\<^sub>m held w'
         \<and> (\<forall>v. old w (slot (key_service spec) legacyName) = Some v \<longrightarrow>
              old w' (slot (key_service spec) legacyName) = Some v
              \<or> map_option sec_Value (held w' (slot (key_service spec) (key_name spec))) = Some v)) w"
    (is "wp _ ?Q ?E w")
  unfolding wp_simps
proof (rule wp_weaken [OF wp_ensureKey [OF assms]], goal_cases)
  case (1 r w1)
  obtain sec created moved where r: "r = (sec, created, moved)" by (cases r)
  note w1 = 1 [unfolded r prod.case]
  have "wp (deleteMovedKeys legacy [spec]) (\<lambda>_. ?Q sec) ?E w1" if moved
  proof (rule wp_weaken [OF wp_deleteMovedKeys], goal_cases)
    case (1 u w2)
    then show ?case
      using w1 that by (auto simp: assms(1) restrict_map_def intro: map_le_trans map_le_Some)
  next
    case (2 e w2)
    then have "held w2 (slot (key_service spec) (key_name spec)) = Some sec"
      using w1 by (blast intro: map_le_Some)
    with 2 show ?case
      using w1 that by (auto intro: map_le_trans)
  qed
  with w1 show ?case by (auto simp: r wp_simps)
qed auto

end

text \<open>
  What \<open>ensureKey\<close> returns when it is alone, by where the key is: only in Secrets Manager, in both
  places, only in SSM, or nowhere, when \<open>P\<close> is what the code knows of a freshly minted value.
\<close>

definition key_outcome ::
  "('w \<Rightarrow> string \<Rightarrow> secret option) \<Rightarrow> ('w \<Rightarrow> string \<Rightarrow> string option) \<Rightarrow> ('w \<Rightarrow> string \<Rightarrow> string option) \<Rightarrow>
     (string \<Rightarrow> bool) \<Rightarrow> keySpec \<Rightarrow> string \<Rightarrow> 'w \<Rightarrow> secret \<times> bool \<times> bool \<Rightarrow> 'w \<Rightarrow> bool" where
  "key_outcome held old public P spec legacyName w = (\<lambda>(sec, created, moved) w'.
     let key = slot (key_service spec) (key_name spec) in
     old w' = old w \<and> public w' = public w \<and>
     (case (held w key, old w (slot (key_service spec) legacyName)) of
        (Some s, None) \<Rightarrow> sec = s \<and> \<not> created \<and> \<not> moved \<and> held w' = held w
      | (Some s, Some v) \<Rightarrow> sec_Value s = v \<and> sec = s \<and> \<not> created \<and> moved \<and> held w' = held w
      | (None, Some v) \<Rightarrow> sec_Value sec = v \<and> \<not> created \<and> moved \<and> held w' = (held w)(key \<mapsto> sec)
          \<and> (\<exists>p. public w (slot (key_service spec) (publicName spec)) = Some p \<and> derive spec v = Inr p)
      | (None, None) \<Rightarrow> P (sec_Value sec) \<and> created \<and> \<not> moved \<and> held w' = (held w)(key \<mapsto> sec)))"

text \<open>\<open>key_stores_alone\<close>: this run is the only one that writes keys.\<close>

locale key_stores_alone = key_stores keys legacy held old public
  for keys :: "'w keyStore" and legacy :: "'w legacyStore"
    and held :: "'w \<Rightarrow> string \<Rightarrow> secret option"
    and old :: "'w \<Rightarrow> string \<Rightarrow> string option"
    and public :: "'w \<Rightarrow> string \<Rightarrow> string option" +
  assumes lookup_alone: "wp (ks_Lookup keys service name)
      (\<lambda>_ w'. held w' = held w) (\<lambda>_ w'. held w' = held w) w"
    and lookup_secret_alone: "wp (ls_LookupSecret legacy service name)
      (\<lambda>_ w'. held w' = held w) (\<lambda>_ w'. held w' = held w) w"
    and lookup_public_alone: "wp (ls_LookupPublic legacy service name)
      (\<lambda>_ w'. held w' = held w) (\<lambda>_ w'. held w' = held w) w"
    and create_alone: "wp (ks_Create keys service name v)
      (\<lambda>(sec, created) w'. held w' = (held w)(slot service name \<mapsto> sec)
         \<and> (if created then held w (slot service name) = None
            else held w (slot service name) = Some sec))
      (\<lambda>_ w'. held w' = held w
         \<or> held w (slot service name) = None
           \<and> (\<exists>sec. sec_Value sec = v \<and> held w' = (held w)(slot service name \<mapsto> sec))) w"
begin

abbreviation same_keys :: "'w \<Rightarrow> 'w \<Rightarrow> bool" where
  "same_keys w w' \<equiv> held w' = held w \<and> old w' = old w \<and> public w' = public w"

lemma wp_lookup:
  "wp (ks_Lookup keys service name) (\<lambda>r w'. same_keys w w' \<and> r = held w (slot service name))
     (\<lambda>_ w'. same_keys w w') w"
  by (rule wp_weaken [OF wp_conj [OF lookup lookup_alone]]) (auto split: option.splits)

lemma wp_lookup_secret:
  "wp (ls_LookupSecret legacy service name) (\<lambda>r w'. same_keys w w' \<and> r = old w (slot service name))
     (\<lambda>_ w'. same_keys w w') w"
  by (rule wp_weaken [OF wp_conj [OF lookup_secret lookup_secret_alone]]) auto

lemma wp_lookup_public:
  "wp (ls_LookupPublic legacy service name) (\<lambda>r w'. same_keys w w' \<and> r = public w (slot service name))
     (\<lambda>_ w'. same_keys w w') w"
  by (rule wp_weaken [OF wp_conj [OF lookup_public lookup_public_alone]]) auto

text \<open>A create of an absent secret.\<close>

lemma wp_create_absent:
  assumes "held w (slot service name) = None"
  shows "wp (ks_Create keys service name v)
      (\<lambda>(sec, created) w'. created \<and> sec_Value sec = v \<and> held w' = (held w)(slot service name \<mapsto> sec)
         \<and> old w' = old w \<and> public w' = public w)
      (\<lambda>_ w'. (held w' = held w \<or> (\<exists>sec. sec_Value sec = v \<and> held w' = (held w)(slot service name \<mapsto> sec)))
         \<and> old w' = old w \<and> public w' = public w) w"
  by (rule wp_weaken [OF wp_conj [OF create create_alone]]) (use assms in \<open>auto split: if_splits\<close>)

lemma wp_check_alone:
  "wp (checkPublicRecord legacy spec v)
     (\<lambda>_ w'. same_keys w w' \<and> (\<exists>p. public w (slot (key_service spec) (publicName spec)) = Some p
        \<and> derive spec v = Inr p))
     (\<lambda>_ w'. same_keys w w') w"
  unfolding checkPublicRecord_def Let_def
  by (rule wp_bindI [OF wp_lookup_public]) (auto simp: wp_simps split: option.splits sum.splits)

abbreviation key_failed :: "keySpec \<Rightarrow> 'w \<Rightarrow> 'w \<Rightarrow> bool" where
  "key_failed spec w w' \<equiv>
     old w' = old w \<and> public w' = public w
     \<and> (held w' = held w \<or> held w (slot (key_service spec) (key_name spec)) = None
          \<and> (\<exists>sec. held w' = (held w)(slot (key_service spec) (key_name spec) \<mapsto> sec)))"

lemma wp_ensureKey_alone:
  assumes spec: "legacyNames spec = legacyName # others"
    and gen: "\<And>w. wp gen (\<lambda>v w'. P v \<and> same_keys w w') (\<lambda>_ w'. same_keys w w') w"
  shows "wp (ensureKey keys legacy spec gen)
      (key_outcome held old public P spec legacyName w) (\<lambda>_ w'. key_failed spec w w') w"
    (is "wp _ ?Q ?E w")
proof -
  let ?key = "slot (key_service spec) (key_name spec)" and ?old = "slot (key_service spec) legacyName"
  have minted: "wp (bindE (mapErr f gen) (\<lambda>v. bindE (ks_Create keys (key_service spec) (key_name spec) v)
      (\<lambda>(secret, created). returnE (secret, created, False)))) ?Q ?E w2"
    if w2: "same_keys w w2" and none: "held w ?key = None" "old w ?old = None" for w2 f
  proof (rule wp_bindI [OF wp_mapErrI [OF gen]], assumption, assumption, goal_cases)
    case (1 v w3)
    show ?case
      by (rule wp_bindI [OF wp_create_absent])
        (use 1 w2 none in \<open>auto simp: wp_returnE key_outcome_def\<close>)
  qed (use w2 in auto)
  have copied: "wp (thenE (checkPublicRecord legacy spec v)
      (bindE (ks_Create keys (key_service spec) (key_name spec) v) (\<lambda>(secret, _).
         if sec_Value secret \<noteq> v then failE err else returnE (secret, False, True)))) ?Q ?E w2"
    if w2: "same_keys w w2" and v: "held w ?key = None" "old w ?old = Some v" for w2 v err
  proof (rule wp_thenI [OF wp_check_alone], goal_cases)
    case (1 u w3)
    show ?case
      by (rule wp_bindI [OF wp_create_absent])
        (use 1 w2 v in \<open>auto simp: wp_returnE key_outcome_def\<close>)
  qed (use w2 in auto)
  show ?thesis
    unfolding ensureKey_def Let_def spec list.case
  proof (rule wp_bindI [OF wp_lookup], goal_cases)
    case (1 found w1)
    note w1 = 1
    show ?case
    proof (rule wp_bindI [OF wp_lookup_secret], goal_cases)
      case (1 legacyFound w2)
      with w1 have w2: "same_keys w w2" and old: "old w ?old = legacyFound" and key: "held w ?key = found"
        by auto
      show ?case
      proof (cases found; cases legacyFound)
        assume none: "found = None" "legacyFound = None"
        show ?case
          unfolding none prod.case option.case
          by (rule minted [OF w2]) (use old key none in simp_all)
      next
        fix v
        assume some: "found = None" "legacyFound = Some v"
        show ?case
          unfolding some prod.case option.case
          by (rule copied [OF w2]) (use old key some in simp_all)
      qed (use old key w2 in \<open>auto simp: wp_simps key_outcome_def\<close>)
    qed (use w1 in auto)
  qed auto
qed

end

section \<open>The fakes of the tests\<close>

record fake_legacy_keys =
  fl_secrets :: "(string, string) go_map"
  fl_public :: "(string, string) go_map"
  fl_values :: "(string, string) go_map"

primrec fake_legacy_delete ::
  "string \<Rightarrow> string list \<Rightarrow> (string, string) go_map \<Rightarrow> (string, string) go_map \<times> string list" where
  "fake_legacy_delete service [] m = (m, [])"
| "fake_legacy_delete service (n # ns) m =
     (if map_of m (slot service n) \<noteq> None then
        let (m', deleted) = fake_legacy_delete service ns (AList.delete (slot service n) m)
        in (m', slot service n # deleted)
      else fake_legacy_delete service ns m)"

lemma map_of_fake_legacy_delete:
  "map_of (fst (fake_legacy_delete service ns m)) = map_of m |` (- slot service ` set ns)"
proof (induction ns arbitrary: m)
  case (Cons n ns)
  then show ?case
    by (auto simp: fun_eq_iff restrict_map_def delete_conv' case_prod_beta)
qed simp

definition fakeLegacy :: "fake_legacy_keys legacyStore" where
  "fakeLegacy =
     \<lparr>ls_LookupSecret = \<lambda>service name f. (Ok (map_of (fl_secrets f) (slot service name)), f),
      ls_LookupPublic = \<lambda>service name f. (Ok (map_of (fl_public f) (slot service name)), f),
      ls_Delete = \<lambda>service names f.
        (let (left, deleted) = fake_legacy_delete service names (fl_secrets f) in
         (Ok deleted, f\<lparr>fl_secrets := left\<rparr>))\<rparr>"

definition fakeKeys :: "fake_legacy_keys keyStore" where
  "fakeKeys =
     \<lparr>ks_Lookup = \<lambda>service name f.
        (Ok (map_option (\<lambda>v. \<lparr>sec_Value = v, sec_ARN = ''arn:'' @ slot service name\<rparr>)
               (map_of (fl_values f) (slot service name))), f),
      ks_Create = \<lambda>service name v f.
        (case map_of (fl_values f) (slot service name) of
           Some existing \<Rightarrow> (Ok (\<lparr>sec_Value = existing, sec_ARN = ''arn:'' @ slot service name\<rparr>, False), f)
         | None \<Rightarrow> (Ok (\<lparr>sec_Value = v, sec_ARN = ''arn:'' @ slot service name\<rparr>, True),
                    f\<lparr>fl_values := AList.update (slot service name) v (fl_values f)\<rparr>))\<rparr>"

definition fake_keys_held :: "fake_legacy_keys \<Rightarrow> string \<Rightarrow> secret option" where
  "fake_keys_held f k = map_option (\<lambda>v. \<lparr>sec_Value = v, sec_ARN = ''arn:'' @ k\<rparr>) (map_of (fl_values f) k)"

lemmas fake_keys_defs = fakeLegacy_def fakeKeys_def fake_keys_held_def

interpretation fake_keys: key_stores_alone fakeKeys fakeLegacy fake_keys_held
    "\<lambda>f. map_of (fl_secrets f)" "\<lambda>f. map_of (fl_public f)"
  by unfold_locales
    (auto simp: fake_keys_defs wp_def map_le_def update_conv' fun_eq_iff case_prod_beta
        map_of_fake_legacy_delete
      split: option.splits)

section \<open>The real stores\<close>

text \<open>
  \<open>secretstore.Store\<close> and \<open>ssmstore.Store\<close> are what \<open>seed.go\<close> passes. They keep the laws whenever
  their clients keep theirs and neither service touches the other's table.
\<close>

definition ssm_legacyStore :: "'w ssm_store \<Rightarrow> 'w legacyStore" where
  "ssm_legacyStore s =
     \<lparr>ls_LookupSecret = LookupSecret s, ls_LookupPublic = LookupPublic s, ls_Delete = Delete s\<rparr>"

definition secrets_keyStore :: "'w secret_store \<Rightarrow> 'w keyStore" where
  "secrets_keyStore s = \<lparr>ks_Lookup = sec_Lookup s, ks_Create = sec_Create s\<rparr>"

locale stage_shared = ssm: ssm_service papi params pages + sec: secrets_shared sapi secrets
  for papi :: "'w ssm_api" and params pages and sapi :: "'w secrets_api" and secrets +
  fixes stage :: string
  assumes get_apart: "keeps (\<lambda>w w'. secrets w \<subseteq>\<^sub>m secrets w') (GetParameter papi p d)"
    and delete_apart: "keeps (\<lambda>w w'. secrets w \<subseteq>\<^sub>m secrets w') (DeleteParameters papi ns)"
    and get_secret_apart: "keeps (\<lambda>w w'. params w' = params w) (GetSecretValue sapi i)"
    and create_apart: "keeps (\<lambda>w w'. params w' = params w) (CreateSecret sapi n v)"

lemma keeps_sec_Lookup:
  "world_order R \<Longrightarrow> (\<And>i. keeps R (GetSecretValue (sec_client s) i)) \<Longrightarrow> keeps R (sec_Lookup s service name)"
  unfolding sec_Lookup_def sec_get_def by (auto intro!: keeps_intros)

lemma keeps_sec_Create:
  assumes "world_order R" "\<And>i. keeps R (GetSecretValue (sec_client s) i)"
    and "\<And>n v. keeps R (CreateSecret (sec_client s) n v)"
  shows "keeps R (sec_Create s service name v)"
  unfolding sec_Create_def sec_Get_def Let_def
  by (auto intro!: keeps_intros keeps_sec_Lookup assms split: sum.split)

lemma sec_Name_slot: "sec_Name s service name = ''forge-central/'' @ sec_stage s @ ''/'' @ slot service name"
  by (simp add: sec_Name_def slot_def)

sublocale stage_shared \<subseteq> moves: key_stores
    "secrets_keyStore \<lparr>sec_client = sapi, sec_stage = stage\<rparr>"
    "ssm_legacyStore \<lparr>ssm_client = papi, ssm_stage = stage\<rparr>"
    "\<lambda>w. stage_view (''forge-central/'' @ stage @ ''/'') (secrets w)"
    "\<lambda>w. stage_view (''/forge-central/'' @ stage @ ''/'') (params w)"
    "\<lambda>w. stage_view (''/forge-central/'' @ stage @ ''/'') (params w)"
proof (unfold_locales, goal_cases)
  case (1 service name w)
  have "wp (sec_Lookup \<lparr>sec_client = sapi, sec_stage = stage\<rparr> service name)
      (\<lambda>r w'. secrets w \<subseteq>\<^sub>m secrets w' \<and> (case r of
           None \<Rightarrow> secrets w (sec_Name \<lparr>sec_client = sapi, sec_stage = stage\<rparr> service name) = None
         | Some sec \<Rightarrow> secrets w' (sec_Name \<lparr>sec_client = sapi, sec_stage = stage\<rparr> service name) = Some sec))
      (\<lambda>_ w'. secrets w \<subseteq>\<^sub>m secrets w') w"
    by (rule sec.wp_sec_Lookup) auto
  then have "wp (sec_Lookup \<lparr>sec_client = sapi, sec_stage = stage\<rparr> service name)
      (\<lambda>r w'. (secrets w \<subseteq>\<^sub>m secrets w' \<and> (case r of
           None \<Rightarrow> secrets w (sec_Name \<lparr>sec_client = sapi, sec_stage = stage\<rparr> service name) = None
         | Some sec \<Rightarrow> secrets w' (sec_Name \<lparr>sec_client = sapi, sec_stage = stage\<rparr> service name) = Some sec))
         \<and> params w' = params w)
      (\<lambda>_ w'. secrets w \<subseteq>\<^sub>m secrets w' \<and> params w' = params w) w"
    by (rule wp_keeps [rotated]) (auto intro!: keeps_sec_Lookup get_secret_apart)
  then show ?case
    unfolding secrets_keyStore_def keyStore.simps
    by (rule wp_weaken) (auto simp: stage_view_mono sec_Name_slot stage_view_def split: option.splits)
next
  case (2 service name v w)
  let ?s = "\<lparr>sec_client = sapi, sec_stage = stage\<rparr>"
  have "wp (sec_Create ?s service name v)
      (\<lambda>(sec, created) w'. secrets w \<subseteq>\<^sub>m secrets w' \<and> secrets w' (sec_Name ?s service name) = Some sec
         \<and> (created \<longrightarrow> secrets w (sec_Name ?s service name) = None \<and> sec_Value sec = v))
      (\<lambda>_ w'. secrets w \<subseteq>\<^sub>m secrets w') w"
    by (rule sec.wp_sec_Create) auto
  then have "wp (sec_Create ?s service name v)
      (\<lambda>r w'. (case r of (sec, created) \<Rightarrow> \<lambda>w'. secrets w \<subseteq>\<^sub>m secrets w'
           \<and> secrets w' (sec_Name ?s service name) = Some sec
           \<and> (created \<longrightarrow> secrets w (sec_Name ?s service name) = None \<and> sec_Value sec = v)) w'
         \<and> params w' = params w)
      (\<lambda>_ w'. secrets w \<subseteq>\<^sub>m secrets w' \<and> params w' = params w) w"
    by (rule wp_keeps [rotated]) (auto intro!: keeps_sec_Create get_secret_apart create_apart)
  then show ?case
    unfolding secrets_keyStore_def keyStore.simps
    by (rule wp_weaken) (auto simp: stage_view_mono sec_Name_slot stage_view_def)
next
  case (3 service name w)
  let ?s = "\<lparr>ssm_client = papi, ssm_stage = stage\<rparr>"
  have "wp (LookupSecret ?s service name) (\<lambda>r w'. params w' = params w \<and> r = params w (Path ?s service name))
      (\<lambda>_ w'. params w' = params w) w"
    unfolding LookupSecret_def by (rule ssm.wp_ssm_get_frame) auto
  then have "wp (LookupSecret ?s service name)
      (\<lambda>r w'. (params w' = params w \<and> r = params w (Path ?s service name)) \<and> secrets w \<subseteq>\<^sub>m secrets w')
      (\<lambda>_ w'. params w' = params w \<and> secrets w \<subseteq>\<^sub>m secrets w') w"
    unfolding LookupSecret_def by (rule wp_keeps [rotated]) (auto intro!: keeps_ssm_get get_apart)
  then show ?case
    unfolding ssm_legacyStore_def legacyStore.simps
    by (rule wp_weaken) (auto simp: stage_view_mono Path_slot stage_view_def)
next
  case (4 service name w)
  let ?s = "\<lparr>ssm_client = papi, ssm_stage = stage\<rparr>"
  have "wp (LookupPublic ?s service name) (\<lambda>r w'. params w' = params w \<and> r = params w (Path ?s service name))
      (\<lambda>_ w'. params w' = params w) w"
    unfolding LookupPublic_def by (rule ssm.wp_ssm_get_frame) auto
  then have "wp (LookupPublic ?s service name)
      (\<lambda>r w'. (params w' = params w \<and> r = params w (Path ?s service name)) \<and> secrets w \<subseteq>\<^sub>m secrets w')
      (\<lambda>_ w'. params w' = params w \<and> secrets w \<subseteq>\<^sub>m secrets w') w"
    unfolding LookupPublic_def by (rule wp_keeps [rotated]) (auto intro!: keeps_ssm_get get_apart)
  then show ?case
    unfolding ssm_legacyStore_def legacyStore.simps
    by (rule wp_weaken) (auto simp: stage_view_mono Path_slot stage_view_def)
next
  case (5 service names w)
  let ?s = "\<lparr>ssm_client = papi, ssm_stage = stage\<rparr>" and ?p = "''/forge-central/'' @ stage @ ''/''"
  have Path: "Path ?s service = (\<lambda>n. ?p @ slot service n)" by (rule ext) (simp add: Path_slot)
  have "wp (Delete ?s service names)
      (\<lambda>_ w'. stage_view ?p (params w') = stage_view ?p (params w) |` (- slot service ` set names))
      (\<lambda>_ w'. \<exists>S \<subseteq> slot service ` set names. stage_view ?p (params w') = stage_view ?p (params w) |` (- S)) w"
    by (rule ssm.wp_Delete)
      (auto simp: Path stage_view_restrict [of ?p, simplified] dest!: stage_view_deleted [of _ ?p, simplified])
  then have "wp (Delete ?s service names)
      (\<lambda>_ w'. stage_view ?p (params w') = stage_view ?p (params w) |` (- slot service ` set names)
          \<and> secrets w \<subseteq>\<^sub>m secrets w')
      (\<lambda>_ w'. (\<exists>S \<subseteq> slot service ` set names. stage_view ?p (params w') = stage_view ?p (params w) |` (- S))
          \<and> secrets w \<subseteq>\<^sub>m secrets w') w"
    by (rule wp_keeps [rotated]) (auto intro!: keeps_Delete get_apart delete_apart)
  then show ?case
    unfolding ssm_legacyStore_def legacyStore.simps
    by (rule wp_weaken) (auto simp: stage_view_mono)
qed

text \<open>Both fakes side by side.\<close>

definition on_fst :: "('a, 'x) act \<Rightarrow> ('a \<times> 'b, 'x) act" where
  "on_fst m w = (let (r, a) = m (fst w) in (r, (a, snd w)))"

definition on_snd :: "('b, 'x) act \<Rightarrow> ('a \<times> 'b, 'x) act" where
  "on_snd m w = (let (r, b) = m (snd w) in (r, (fst w, b)))"

lemma on_fst_eq: "on_fst m w = (r, w') \<longleftrightarrow> m (fst w) = (r, fst w') \<and> snd w' = snd w"
  by (cases w') (auto simp: on_fst_def Let_def split: prod.splits)

lemma on_snd_eq: "on_snd m w = (r, w') \<longleftrightarrow> m (snd w) = (r, snd w') \<and> fst w' = fst w"
  by (cases w') (auto simp: on_snd_def Let_def split: prod.splits)

definition fst_ssm_api :: "'a ssm_api \<Rightarrow> ('a \<times> 'b) ssm_api" where
  "fst_ssm_api api =
     \<lparr>GetParameter = \<lambda>p d. on_fst (GetParameter api p d),
      PutParameter = \<lambda>p v t ow. on_fst (PutParameter api p v t ow),
      GetParametersByPath = \<lambda>p tok. on_fst (GetParametersByPath api p tok),
      DeleteParameters = \<lambda>ns. on_fst (DeleteParameters api ns)\<rparr>"

definition snd_secrets_api :: "'b secrets_api \<Rightarrow> ('a \<times> 'b) secrets_api" where
  "snd_secrets_api api =
     \<lparr>GetSecretValue = \<lambda>i. on_snd (GetSecretValue api i),
      CreateSecret = \<lambda>n v. on_snd (CreateSecret api n v),
      PutSecretValue = \<lambda>i v. on_snd (PutSecretValue api i v)\<rparr>"

lemma keeps_on_fst [simp]: "keeps (\<lambda>w w'. f (snd w') = f (snd w)) (on_fst m)"
  "keeps (\<lambda>w w'. f (snd w) \<subseteq>\<^sub>m f (snd w')) (on_fst m)"
  by (simp_all add: keeps_def on_fst_def Let_def case_prod_beta)

lemma keeps_on_snd [simp]: "keeps (\<lambda>w w'. f (fst w') = f (fst w)) (on_snd m)"
  by (simp add: keeps_def on_snd_def Let_def case_prod_beta)

lemma fst_api_simps [simp]:
  "GetParameter (fst_ssm_api api) p d = on_fst (GetParameter api p d)"
  "PutParameter (fst_ssm_api api) p v t ow = on_fst (PutParameter api p v t ow)"
  "GetParametersByPath (fst_ssm_api api) p tok = on_fst (GetParametersByPath api p tok)"
  "DeleteParameters (fst_ssm_api api) ns = on_fst (DeleteParameters api ns)"
  by (simp_all add: fst_ssm_api_def)

lemma snd_api_simps [simp]:
  "GetSecretValue (snd_secrets_api api') i = on_snd (GetSecretValue api' i)"
  "CreateSecret (snd_secrets_api api') n v = on_snd (CreateSecret api' n v)"
  "PutSecretValue (snd_secrets_api api') i v = on_snd (PutSecretValue api' i v)"
  by (simp_all add: snd_secrets_api_def)

lemma fst_ssm_service:
  "ssm_service (fst_ssm_api fake_ssm_api) (\<lambda>w. fake_held (fst w)) fake_pages"
  by unfold_locales
    (auto simp: on_fst_eq
      intro: fake_ssm.get_grows fake_ssm.put_grows
      dest: fake_ssm.get_returns fake_ssm.get_Ok fake_ssm.get_absent fake_ssm.put_returns fake_ssm.put_Ok
        fake_ssm.put_exists fake_ssm.get_frame fake_ssm.put_done fake_ssm.put_failed fake_ssm.put_refused
        fake_ssm.del_done fake_ssm.del_failed fake_ssm.list_failed fake_ssm.list_page
      simp: fake_ssm.pages_complete fake_ssm.pages_distinct fake_ssm.pages_nonempty fake_ssm.del_returns
        fake_ssm.list_returns simp del: set_concat)

lemma snd_secrets_service:
  "secrets_service (snd_secrets_api fake_secrets_api) (\<lambda>w. fake_secrets_held (snd w))"
  by unfold_locales
    (auto simp: on_snd_eq
      intro: fake_secrets.get_grows fake_secrets.create_grows
      dest: fake_secrets.get_returns fake_secrets.get_Ok fake_secrets.get_absent fake_secrets.create_returns
        fake_secrets.create_Ok fake_secrets.create_exists fake_secrets.get_frame fake_secrets.create_Ok_eq
        fake_secrets.create_exists_eq fake_secrets.create_Fail_eq fake_secrets.write_returns
        fake_secrets.write_Ok fake_secrets.write_Fail)

interpretation fake_stage: stage_shared "fst_ssm_api fake_ssm_api" "\<lambda>w. fake_held (fst w)" fake_pages
    "snd_secrets_api fake_secrets_api" "\<lambda>w. fake_secrets_held (snd w)" "''test''"
proof -
  have "stage_shared_axioms (fst_ssm_api fake_ssm_api) (\<lambda>w. fake_held (fst w))
      (snd_secrets_api fake_secrets_api) (\<lambda>w. fake_secrets_held (snd w))"
    by unfold_locales simp_all
  moreover have "secrets_shared (snd_secrets_api fake_secrets_api) (\<lambda>w. fake_secrets_held (snd w))"
    using snd_secrets_service by (rule secrets_service.axioms)
  ultimately show "stage_shared (fst_ssm_api fake_ssm_api) (\<lambda>w. fake_held (fst w)) fake_pages
      (snd_secrets_api fake_secrets_api) (\<lambda>w. fake_secrets_held (snd w))"
    by (intro stage_shared.intro fst_ssm_service)
qed

section \<open>Properties\<close>


text \<open>The key of the tests: a public half is looked up, and shares nothing with the private value.\<close>

definition testPublicHalves :: "(string, string) go_map" where
  "testPublicHalves =
     [(''k1'', ''public-of-k1''), (''k2'', ''public-of-k2''), (''very-secret-value'', ''public-of-the-secret'')]"

definition testKeySpec :: keySpec where
  "testKeySpec =
     \<lparr>key_service = ''svc'', key_name = ''key'', publicName = ''key.address'',
      derive = \<lambda>v. Inr (case map_of testPublicHalves v of Some p \<Rightarrow> p | None \<Rightarrow> []),
      legacyNames = [''key'', ''key-copy'']\<rparr>"

definition fake_keys_world ::
  "(string, string) go_map \<Rightarrow> (string, string) go_map \<Rightarrow> (string, string) go_map \<Rightarrow> fake_legacy_keys" where
  "fake_keys_world values ssm public = \<lparr>fl_secrets = ssm, fl_public = public, fl_values = values\<rparr>"

lemmas test_keys_defs = testKeySpec_def testPublicHalves_def fake_keys_world_def fake_keys_defs slot_def


text \<open>
  C10. A key is never lost while it moves, even when other runs create secrets at the same time. If
  ensuring it and deleting its SSM copies both succeed, Secrets Manager holds the value SSM held and
  SSM no longer does. If either stops with an error, the value is still held in one of the two.
\<close>

theorem move_never_loses_key:
  assumes "key_stores keys legacy held old public"
    and "legacyNames spec = legacyName # others"
    and "\<And>w. wp gen (\<lambda>_ w'. held w \<subseteq>\<^sub>m held w' \<and> old w' = old w \<and> public w' = public w)
           (\<lambda>_ w'. held w \<subseteq>\<^sub>m held w' \<and> old w' = old w \<and> public w' = public w) w"
  shows "wp (bindE (ensureKey keys legacy spec gen) (\<lambda>(sec, created, moved).
             thenE (if moved then deleteMovedKeys legacy [spec] else returnE ()) (returnE sec)))
      (\<lambda>sec w'. held w \<subseteq>\<^sub>m held w'
         \<and> held w' (slot (key_service spec) (key_name spec)) = Some sec
         \<and> (\<forall>v. old w (slot (key_service spec) legacyName) = Some v \<longrightarrow> sec_Value sec = v)
         \<and> old w' (slot (key_service spec) legacyName) = None)
      (\<lambda>_ w'. held w \<subseteq>\<^sub>m held w'
         \<and> (\<forall>v. old w (slot (key_service spec) legacyName) = Some v \<longrightarrow>
              old w' (slot (key_service spec) legacyName) = Some v
              \<or> map_option sec_Value (held w' (slot (key_service spec) (key_name spec))) = Some v)) w"
  by (rule key_stores.wp_move [OF assms])

text \<open>The witness runs the real stores over the fake clients.\<close>

abbreviation test_keyStore :: "(fake_ssm \<times> fake_secrets) keyStore" where
  "test_keyStore \<equiv> secrets_keyStore \<lparr>sec_client = snd_secrets_api fake_secrets_api, sec_stage = ''test''\<rparr>"

abbreviation test_legacyStore :: "(fake_ssm \<times> fake_secrets) legacyStore" where
  "test_legacyStore \<equiv> ssm_legacyStore \<lparr>ssm_client = fst_ssm_api fake_ssm_api, ssm_stage = ''test''\<rparr>"

theorem move_never_loses_key_witness:
  "\<exists>held old. (\<forall>w. wp (bindE (ensureKey test_keyStore test_legacyStore testKeySpec (returnE ''fresh''))
             (\<lambda>(sec, created, moved).
             thenE (if moved then deleteMovedKeys test_legacyStore [testKeySpec] else returnE ()) (returnE sec)))
      (\<lambda>sec w'. held w \<subseteq>\<^sub>m held w' \<and> held w' ''svc/key'' = Some sec
         \<and> (\<forall>v. old w ''svc/key'' = Some v \<longrightarrow> sec_Value sec = v) \<and> old w' ''svc/key'' = None)
      (\<lambda>_ w'. held w \<subseteq>\<^sub>m held w'
         \<and> (\<forall>v. old w ''svc/key'' = Some v \<longrightarrow>
              old w' ''svc/key'' = Some v \<or> map_option sec_Value (held w' ''svc/key'') = Some v)) w)
    \<and> old (fake_with [(''/forge-central/test/svc/key'', ''k1'')], fake_secrets_with []) ''svc/key'' = Some ''k1''"
proof (intro exI conjI allI)
  let ?held = "\<lambda>w. stage_view (''forge-central/'' @ ''test'' @ ''/'') (fake_secrets_held (snd w))"
  let ?old = "\<lambda>w. stage_view (''/forge-central/'' @ ''test'' @ ''/'') (fake_held (fst w))"
  show "wp (bindE (ensureKey test_keyStore test_legacyStore testKeySpec (returnE ''fresh''))
             (\<lambda>(sec, created, moved).
             thenE (if moved then deleteMovedKeys test_legacyStore [testKeySpec] else returnE ()) (returnE sec)))
      (\<lambda>sec w'. ?held w \<subseteq>\<^sub>m ?held w' \<and> ?held w' ''svc/key'' = Some sec
         \<and> (\<forall>v. ?old w ''svc/key'' = Some v \<longrightarrow> sec_Value sec = v) \<and> ?old w' ''svc/key'' = None)
      (\<lambda>_ w'. ?held w \<subseteq>\<^sub>m ?held w'
         \<and> (\<forall>v. ?old w ''svc/key'' = Some v \<longrightarrow>
              ?old w' ''svc/key'' = Some v \<or> map_option sec_Value (?held w' ''svc/key'') = Some v)) w" for w
    using move_never_loses_key [where legacyName = "''key''", OF fake_stage.moves.key_stores_axioms,
        of testKeySpec "[''key-copy'']" "returnE ''fresh''" w]
    by (simp add: testKeySpec_def slot_def wp_simps)
  show "?old (fake_with [(''/forge-central/test/svc/key'', ''k1'')], fake_secrets_with []) ''svc/key'' = Some ''k1''"
    by (simp add: stage_view_def fake_held_def fake_with_def)
qed

end
