(* ===== verification/OnboardClients.thy ===== *)
theory OnboardClients
imports Onboard PiriRecord Keys
begin

text \<open>
  \<open>internal/onboard/allowlist.go\<close>, \<open>sprue.go\<close> and \<open>hilt.go\<close>: the adapters behind the interfaces of
  \<open>Onboard\<close>. The DynamoDB client, the admin clients of sprue and hilt, \<open>did.Parse\<close> and
  \<open>container.Decode\<close> are not under src/: they are parameters.
\<close>

section \<open>The delegator's allow list\<close>

record 'w dynamo_api =
  da_GetItem :: "string \<Rightarrow> string \<Rightarrow> ('w, (string \<times> string) list) act"
  da_PutItem :: "string \<Rightarrow> (string \<times> string) list \<Rightarrow> ('w, unit) act"
  da_Now :: "'w \<Rightarrow> string"

record 'w dynamo_allow_list =
  dl_client :: "'w dynamo_api"
  dl_table :: string
  dl_stamp :: string

definition NewDynamoAllowList :: "'w dynamo_api \<Rightarrow> string \<Rightarrow> string \<Rightarrow> 'w dynamo_allow_list" where
  "NewDynamoAllowList client table stage =
     \<lparr>dl_client = client, dl_table = table, dl_stamp = ''infra-central onboard phase, stage '' @ stage\<rparr>"

definition allow_Has :: "'w dynamo_allow_list \<Rightarrow> string \<Rightarrow> ('w, bool) act" where
  "allow_Has a did =
     bindE (mapErr (wrap (''get '' @ did @ '' from '' @ dl_table a @ '': ''))
              (da_GetItem (dl_client a) (dl_table a) did)) (\<lambda>item.
     returnE (length item > 0))"

definition allow_Add :: "'w dynamo_allow_list \<Rightarrow> string \<Rightarrow> ('w, unit) act" where
  "allow_Add a did w =
     (let item = [(''did'', did), (''added_by'', dl_stamp a), (''added_at'', da_Now (dl_client a) w),
                  (''notes'', ''regional appliance onboarding'')] in
      mapErr (wrap (''put '' @ did @ '' into '' @ dl_table a @ '': ''))
        (da_PutItem (dl_client a) (dl_table a) item) w)"

section \<open>Sprue's admin client\<close>

text \<open>\<open>did.Parse\<close>, \<open>DID.String\<close> and \<open>container.Decode\<close>.\<close>

record ('d, 'c) ucan_lib =
  did_Parse :: "string \<Rightarrow> go_error + 'd"
  did_String :: "'d \<Rightarrow> string"
  container_Decode :: "string \<Rightarrow> go_error + 'c"

record 'd sprue_entry =
  sp_Provider :: 'd
  sp_Endpoint :: string
  sp_Weight :: int
  sp_ReplicationWeight :: int

record ('w, 'd, 'c) sprue_api =
  AdminProviderList :: "('w, 'd sprue_entry list option) act"
  AdminProviderRegister :: "'d \<Rightarrow> string \<Rightarrow> 'c \<Rightarrow> ('w, unit) act"
  AdminProviderProofsSet :: "'d \<Rightarrow> 'c \<Rightarrow> ('w, unit) act"
  AdminProviderWeightSet :: "'d \<Rightarrow> int \<Rightarrow> int \<Rightarrow> ('w, unit) act"

definition sprue_Provider :: "('d, 'c) ucan_lib \<Rightarrow> ('w, 'd, 'c) sprue_api \<Rightarrow> string \<Rightarrow> ('w, provider option) act" where
  "sprue_Provider lib client providerDID =
     bindE (mapErr (wrap ''list sprue's providers: '') (AdminProviderList client)) (\<lambda>providers.
     returnE
       (case providers of
          None \<Rightarrow> None
        | Some ps \<Rightarrow>
            map_option (\<lambda>p. \<lparr>pr_Endpoint = sp_Endpoint p, pr_Weight = sp_Weight p,
                pr_ReplicationWeight = sp_ReplicationWeight p\<rparr>)
              (find (\<lambda>p. did_String lib (sp_Provider p) = providerDID) ps)))"

definition sprue_Register ::
  "('d, 'c) ucan_lib \<Rightarrow> ('w, 'd, 'c) sprue_api \<Rightarrow> string \<Rightarrow> string \<Rightarrow> string \<Rightarrow> ('w, unit) act" where
  "sprue_Register lib client providerDID endpoint piri_proof =
     bindE (parseE (''parse provider DID '' @ go_quote providerDID @ '': '') (did_Parse lib providerDID)) (\<lambda>parsed.
     bindE (parseE ''decode the appliance's Piri proof: '' (container_Decode lib piri_proof)) (\<lambda>proofs.
     mapErr (wrap (''register '' @ providerDID @ '': '')) (AdminProviderRegister client parsed endpoint proofs)))"

definition sprue_SetProofs ::
  "('d, 'c) ucan_lib \<Rightarrow> ('w, 'd, 'c) sprue_api \<Rightarrow> string \<Rightarrow> string \<Rightarrow> ('w, unit) act" where
  "sprue_SetProofs lib client providerDID piri_proof =
     bindE (parseE (''parse provider DID '' @ go_quote providerDID @ '': '') (did_Parse lib providerDID)) (\<lambda>parsed.
     bindE (parseE ''decode the appliance's Piri proof: '' (container_Decode lib piri_proof)) (\<lambda>proofs.
     mapErr (wrap (''set '' @ providerDID @ possessive @ '' proofs: '')) (AdminProviderProofsSet client parsed proofs)))"

definition sprue_SetWeight ::
  "('d, 'c) ucan_lib \<Rightarrow> ('w, 'd, 'c) sprue_api \<Rightarrow> string \<Rightarrow> int \<Rightarrow> int \<Rightarrow> ('w, unit) act" where
  "sprue_SetWeight lib client providerDID weight replicationWeight =
     bindE (parseE (''parse provider DID '' @ go_quote providerDID @ '': '') (did_Parse lib providerDID)) (\<lambda>parsed.
     mapErr (wrap (''set '' @ providerDID @ possessive @ '' weights: ''))
       (AdminProviderWeightSet client parsed weight replicationWeight))"

section \<open>Hilt's admin client\<close>

record 'd hilt_entry =
  he_Provider :: 'd
  he_Region :: string
  he_Policy :: "'d option"

record ('w, 'd) hilt_api =
  hilt_ListProviders :: "('w, 'd hilt_entry list) act"
  hilt_AddProvider :: "'d \<Rightarrow> string \<Rightarrow> 'd list \<Rightarrow> ('w, unit) act"
  hilt_SetProviderNodes :: "'d \<Rightarrow> 'd list \<Rightarrow> ('w, unit) act"

fun findProvider :: "('d, 'c) ucan_lib \<Rightarrow> 'd hilt_entry list \<Rightarrow> 'd \<Rightarrow> hilt_provider option" where
  "findProvider lib [] d = None"
| "findProvider lib (p # ps) d =
     (if he_Provider p \<noteq> d then findProvider lib ps d
      else Some \<lparr>hp_Region = he_Region p,
        hp_Policy = (case he_Policy p of None \<Rightarrow> [] | Some policy \<Rightarrow> did_String lib policy)\<rparr>)"

definition hilt_Provider ::
  "('d, 'c) ucan_lib \<Rightarrow> ('w, 'd) hilt_api \<Rightarrow> string \<Rightarrow> ('w, hilt_provider option) act" where
  "hilt_Provider lib admin providerDID =
     bindE (parseE (''parse provider DID '' @ go_quote providerDID @ '': '') (did_Parse lib providerDID)) (\<lambda>parsed.
     bindE (mapErr (wrap ''list hilt's providers: '') (hilt_ListProviders admin)) (\<lambda>ps.
     returnE (findProvider lib ps parsed)))"

text \<open>\<open>strings.ToLower\<close>, on ASCII letters.\<close>

definition to_lower :: "string \<Rightarrow> string" where
  "to_lower s = map (\<lambda>c. let n = of_char c :: nat in if 65 \<le> n \<and> n \<le> 90 then char_of (n + 32) else c) s"

definition isAlreadyRegistered :: "go_error \<Rightarrow> bool" where
  "isAlreadyRegistered err \<longleftrightarrow> contains (to_lower (err_text err)) ''already registered''"

fun parseNodeDIDs :: "('d, 'c) ucan_lib \<Rightarrow> string list \<Rightarrow> go_error + 'd list" where
  "parseNodeDIDs lib [] = Inr []"
| "parseNodeDIDs lib (n # ns) =
     (case did_Parse lib n of
        Inl err \<Rightarrow> Inl (wrap (''parse node DID '' @ go_quote n @ '': '') err)
      | Inr parsed \<Rightarrow>
          (case parseNodeDIDs lib ns of Inl err \<Rightarrow> Inl err | Inr nodes \<Rightarrow> Inr (parsed # nodes)))"

definition hilt_Add ::
  "('d, 'c) ucan_lib \<Rightarrow> ('w, 'd) hilt_api \<Rightarrow> string \<Rightarrow> string \<Rightarrow> string list \<Rightarrow> ('w, unit) act" where
  "hilt_Add lib admin providerDID region nodeDIDs =
     bindE (parseE (''parse provider DID '' @ go_quote providerDID @ '': '') (did_Parse lib providerDID)) (\<lambda>parsed.
     bindE (sumE (parseNodeDIDs lib nodeDIDs)) (\<lambda>nodes.
     catchE (hilt_AddProvider admin parsed region nodes) (\<lambda>err.
       if isAlreadyRegistered err then returnE ()
       else failE (wrap (''add '' @ providerDID @ '' for region '' @ region @ '': '') err))))"

definition hilt_SetNodes ::
  "('d, 'c) ucan_lib \<Rightarrow> ('w, 'd) hilt_api \<Rightarrow> string \<Rightarrow> string list \<Rightarrow> ('w, unit) act" where
  "hilt_SetNodes lib admin providerDID nodeDIDs =
     bindE (parseE (''parse provider DID '' @ go_quote providerDID @ '': '') (did_Parse lib providerDID)) (\<lambda>parsed.
     bindE (sumE (parseNodeDIDs lib nodeDIDs)) (\<lambda>nodes.
     mapErr (wrap (''set '' @ providerDID @ possessive @ '' storage nodes: ''))
       (hilt_SetProviderNodes admin parsed nodes)))"

section \<open>The dependencies the phase assembles\<close>

definition dynamo_AllowList :: "'w dynamo_allow_list \<Rightarrow> 'w allow_list" where
  "dynamo_AllowList a = \<lparr>al_Has = allow_Has a, al_Add = allow_Add a\<rparr>"

definition SprueClient :: "('d, 'c) ucan_lib \<Rightarrow> ('w, 'd, 'c) sprue_api \<Rightarrow> 'w sprue_admin" where
  "SprueClient lib client =
     \<lparr>sa_Provider = sprue_Provider lib client, sa_Register = sprue_Register lib client,
      sa_SetProofs = sprue_SetProofs lib client, sa_SetWeight = sprue_SetWeight lib client\<rparr>"

definition HiltClient :: "('d, 'c) ucan_lib \<Rightarrow> ('w, 'd) hilt_api \<Rightarrow> 'w hilt_admin" where
  "HiltClient lib admin =
     \<lparr>ha_Provider = hilt_Provider lib admin, ha_AddProvider = hilt_Add lib admin,
      ha_SetProviderNodes = hilt_SetNodes lib admin\<rparr>"

definition piriRecords :: "'w publicStore \<Rightarrow> 'w piri_record" where
  "piriRecords store = \<lparr>pc_Recorded = Recorded store, pc_Record = Record store\<rparr>"

end
