(* ===== verification/OnboardFakes.thy ===== *)
theory OnboardFakes
imports OnboardClients
begin

text \<open>
  The onboarding contract on the adapters of this repository: concrete in-memory sprue, hilt and
  DynamoDB (the parameters of the adapters, instantiated), with the region record on the real
  \<open>ssmstore\<close> over the in-memory SSM. It carries the properties of the phase and their witnesses.
\<close>

section \<open>In-memory services\<close>

record fake_services =
  fv_table :: "string list"
  fv_sprue :: "string sprue_entry list"
  fv_hilt :: "string hilt_entry list"
  fv_nodes :: "(string, string list) go_map"

definition string_lib :: "(string, string) ucan_lib" where
  "string_lib =
     \<lparr>did_Parse = \<lambda>s. if has_prefix s ''did:'' then Inr s else Inl (Errorf ''not a DID''),
      did_String = \<lambda>d. d,
      container_Decode = \<lambda>s. if s = [] then Inl (Errorf ''empty container'') else Inr s\<rparr>"

definition fake_dynamo :: "fake_services dynamo_api" where
  "fake_dynamo =
     \<lparr>da_GetItem = \<lambda>table d f. (Ok (if d \<in> set (fv_table f) then [(''did'', d)] else []), f),
      da_PutItem = \<lambda>table item f.
        (Ok (), f\<lparr>fv_table := fv_table f @ [case map_of item ''did'' of Some d \<Rightarrow> d | None \<Rightarrow> []]\<rparr>),
      da_Now = \<lambda>_. ''2026-08-01T00:00:00Z''\<rparr>"

definition fake_sprue :: "(fake_services, string, string) sprue_api" where
  "fake_sprue =
     \<lparr>AdminProviderList = \<lambda>f. (Ok (Some (fv_sprue f)), f),
      AdminProviderRegister = \<lambda>d e c f.
        (if \<exists>p \<in> set (fv_sprue f). sp_Provider p = d then (Fail (Errorf ''provider exists''), f)
         else (Ok (), f\<lparr>fv_sprue := fv_sprue f
           @ [\<lparr>sp_Provider = d, sp_Endpoint = e, sp_Weight = 0, sp_ReplicationWeight = 0\<rparr>]\<rparr>)),
      AdminProviderProofsSet = \<lambda>d c f. (Ok (), f),
      AdminProviderWeightSet = \<lambda>d x y f.
        (Ok (), f\<lparr>fv_sprue := map (\<lambda>p. if sp_Provider p = d then p\<lparr>sp_Weight := x, sp_ReplicationWeight := y\<rparr> else p)
           (fv_sprue f)\<rparr>)\<rparr>"

definition fake_hilt :: "(fake_services, string) hilt_api" where
  "fake_hilt =
     \<lparr>hilt_ListProviders = \<lambda>f. (Ok (fv_hilt f), f),
      hilt_AddProvider = \<lambda>d r ns f.
        (if \<exists>p \<in> set (fv_hilt f). he_Provider p = d then (Fail (Errorf ''provider already registered''), f)
         else (Ok (), f\<lparr>fv_hilt := fv_hilt f
             @ [\<lparr>he_Provider = d, he_Region = r, he_Policy = Some ''did:key:zPolicy''\<rparr>],
           fv_nodes := AList.update d ns (fv_nodes f)\<rparr>)),
      hilt_SetProviderNodes = \<lambda>d ns f.
        (Ok (), f\<lparr>fv_hilt := map (\<lambda>p. if he_Provider p = d then p\<lparr>he_Policy := Some ''did:key:zPolicy''\<rparr> else p)
             (fv_hilt f),
           fv_nodes := AList.update d ns (fv_nodes f)\<rparr>)\<rparr>"

section \<open>Their laws\<close>

lemma find_append: "find P (xs @ ys) = (case find P xs of None \<Rightarrow> find P ys | Some x \<Rightarrow> Some x)"
  by (induction xs) simp_all

lemma find_P: "find P xs = Some x \<Longrightarrow> P x"
  by (induction xs) (auto split: if_splits)

lemma find_map_same:
  "(\<And>x. P (f x) = P x) \<Longrightarrow> find P (map f xs) = map_option f (find P xs)"
  by (induction xs) simp_all

definition fake_sprue_view :: "fake_services \<Rightarrow> string \<Rightarrow> provider option" where
  "fake_sprue_view f d =
     map_option (\<lambda>p. \<lparr>pr_Endpoint = sp_Endpoint p, pr_Weight = sp_Weight p,
         pr_ReplicationWeight = sp_ReplicationWeight p\<rparr>)
       (find (\<lambda>p. sp_Provider p = d) (fv_sprue f))"

definition fake_nodes_view :: "fake_services \<Rightarrow> string \<Rightarrow> string set" where
  "fake_nodes_view f d = (case map_of (fv_nodes f) d of Some ns \<Rightarrow> set ns | None \<Rightarrow> {})"

definition services_view :: "(string \<Rightarrow> string set) \<Rightarrow> fake_services \<Rightarrow> onb_view" where
  "services_view rec f =
     \<lparr>ov_allowed = set (fv_table f), ov_sprue = fake_sprue_view f,
      ov_hilt = findProvider string_lib (fv_hilt f), ov_nodes = fake_nodes_view f, ov_recorded = rec\<rparr>"

lemma findProvider_append:
  "findProvider lib (ps @ qs) d = (case findProvider lib ps d of None \<Rightarrow> findProvider lib qs d | Some h \<Rightarrow> Some h)"
  by (induction ps) simp_all

lemma findProvider_None: "findProvider lib ps d = None \<longleftrightarrow> (\<forall>p \<in> set ps. he_Provider p \<noteq> d)"
  by (induction ps) auto

lemma findProvider_policy:
  "findProvider lib (map (\<lambda>p. if he_Provider p = d then p\<lparr>he_Policy := policy\<rparr> else p) ps) i =
     (if i = d then map_option (\<lambda>h. h\<lparr>hp_Policy := (case policy of None \<Rightarrow> [] | Some x \<Rightarrow> did_String lib x)\<rparr>)
        (findProvider lib ps i) else findProvider lib ps i)"
  by (induction ps) auto

lemma fake_sprue_view_register:
  assumes "fake_sprue_view f d = None"
  shows "fake_sprue_view (f\<lparr>fv_sprue := fv_sprue f
      @ [\<lparr>sp_Provider = d, sp_Endpoint = e, sp_Weight = x, sp_ReplicationWeight = y\<rparr>]\<rparr>)
    = (fake_sprue_view f)(d \<mapsto> \<lparr>pr_Endpoint = e, pr_Weight = x, pr_ReplicationWeight = y\<rparr>)"
  using assms by (auto simp: fake_sprue_view_def find_append fun_eq_iff split: option.split)

lemma fake_sprue_view_weight:
  assumes "fake_sprue_view f d = Some p"
  shows "fake_sprue_view (f\<lparr>fv_sprue := map (\<lambda>q. if sp_Provider q = d
      then q\<lparr>sp_Weight := x, sp_ReplicationWeight := y\<rparr> else q) (fv_sprue f)\<rparr>)
    = (fake_sprue_view f)(d \<mapsto> p\<lparr>pr_Weight := x, pr_ReplicationWeight := y\<rparr>)"
proof
  fix i
  have "find (\<lambda>q. sp_Provider q = i) (map (\<lambda>q. if sp_Provider q = d
      then q\<lparr>sp_Weight := x, sp_ReplicationWeight := y\<rparr> else q) (fv_sprue f))
    = map_option (\<lambda>q. if sp_Provider q = d then q\<lparr>sp_Weight := x, sp_ReplicationWeight := y\<rparr> else q)
        (find (\<lambda>q. sp_Provider q = i) (fv_sprue f))"
    by (rule find_map_same) simp
  then have found: "fake_sprue_view (f\<lparr>fv_sprue := map (\<lambda>q. if sp_Provider q = d
      then q\<lparr>sp_Weight := x, sp_ReplicationWeight := y\<rparr> else q) (fv_sprue f)\<rparr>) i
    = map_option (\<lambda>p. \<lparr>pr_Endpoint = sp_Endpoint p, pr_Weight = sp_Weight p,
         pr_ReplicationWeight = sp_ReplicationWeight p\<rparr>)
        (map_option (\<lambda>q. if sp_Provider q = d then q\<lparr>sp_Weight := x, sp_ReplicationWeight := y\<rparr> else q)
          (find (\<lambda>q. sp_Provider q = i) (fv_sprue f)))"
    by (simp add: fake_sprue_view_def)
  show "fake_sprue_view (f\<lparr>fv_sprue := map (\<lambda>q. if sp_Provider q = d
      then q\<lparr>sp_Weight := x, sp_ReplicationWeight := y\<rparr> else q) (fv_sprue f)\<rparr>) i
    = ((fake_sprue_view f)(d \<mapsto> p\<lparr>pr_Weight := x, pr_ReplicationWeight := y\<rparr>)) i"
  proof (cases "find (\<lambda>q. sp_Provider q = i) (fv_sprue f)")
    case None
    with assms have "i \<noteq> d" by (auto simp: fake_sprue_view_def)
    then show ?thesis unfolding found None by (simp add: fake_sprue_view_def None)
  next
    case (Some q)
    then have q: "sp_Provider q = i" by (rule find_P)
    show ?thesis
    proof (cases "i = d")
      case True
      have "p = \<lparr>pr_Endpoint = sp_Endpoint q, pr_Weight = sp_Weight q,
          pr_ReplicationWeight = sp_ReplicationWeight q\<rparr>"
        using assms Some True by (simp add: fake_sprue_view_def)
      then show ?thesis
        using True q unfolding found Some by simp
    next
      case False
      then show ?thesis
        using q unfolding found Some by (simp add: fake_sprue_view_def Some)
    qed
  qed
qed

lemma fake_hilt_view_add:
  assumes "findProvider string_lib (fv_hilt f) d = None"
  shows "findProvider string_lib (fv_hilt f @ [\<lparr>he_Provider = d, he_Region = r, he_Policy = Some p\<rparr>])
    = (findProvider string_lib (fv_hilt f))(d \<mapsto> \<lparr>hp_Region = r, hp_Policy = p\<rparr>)"
  using assms by (auto simp: findProvider_append fun_eq_iff string_lib_def split: option.split)

lemma fake_nodes_view_update:
  "fake_nodes_view (f\<lparr>fv_hilt := h, fv_nodes := AList.update d ns (fv_nodes f)\<rparr>)
    = (fake_nodes_view f)(d := set ns)"
  by (auto simp: fake_nodes_view_def update_conv' fun_eq_iff)

lemma fake_nodes_view_other [simp]:
  "fake_nodes_view (f\<lparr>fv_table := t\<rparr>) = fake_nodes_view f"
  "fake_nodes_view (f\<lparr>fv_sprue := s\<rparr>) = fake_nodes_view f"
  "fake_sprue_view (f\<lparr>fv_table := t\<rparr>) = fake_sprue_view f"
  "fake_sprue_view (f\<lparr>fv_hilt := h, fv_nodes := n\<rparr>) = fake_sprue_view f"
  by (simp_all add: fake_nodes_view_def fake_sprue_view_def fun_eq_iff)

text \<open>The adapters over the in-memory services, which sit beside the in-memory SSM.\<close>

lemma on_snd_wp:
  "wp (on_snd m) Q E w = wp m (\<lambda>a b. Q a (fst w, b)) (\<lambda>e b. E e (fst w, b)) (snd w)"
  by (simp add: wp_def on_snd_def Let_def split: prod.split result.split)

lemma on_fst_wp:
  "wp (on_fst m) Q E w = wp m (\<lambda>a b. Q a (b, snd w)) (\<lambda>e b. E e (b, snd w)) (fst w)"
  by (simp add: wp_def on_fst_def Let_def split: prod.split result.split)

definition snd_dynamo :: "'b dynamo_api \<Rightarrow> ('a \<times> 'b) dynamo_api" where
  "snd_dynamo api =
     \<lparr>da_GetItem = \<lambda>t d. on_snd (da_GetItem api t d), da_PutItem = \<lambda>t i. on_snd (da_PutItem api t i),
      da_Now = \<lambda>w. da_Now api (snd w)\<rparr>"

definition snd_sprue :: "('b, 'd, 'c) sprue_api \<Rightarrow> ('a \<times> 'b, 'd, 'c) sprue_api" where
  "snd_sprue api =
     \<lparr>AdminProviderList = on_snd (AdminProviderList api),
      AdminProviderRegister = \<lambda>d e c. on_snd (AdminProviderRegister api d e c),
      AdminProviderProofsSet = \<lambda>d c. on_snd (AdminProviderProofsSet api d c),
      AdminProviderWeightSet = \<lambda>d x y. on_snd (AdminProviderWeightSet api d x y)\<rparr>"

definition snd_hilt :: "('b, 'd) hilt_api \<Rightarrow> ('a \<times> 'b, 'd) hilt_api" where
  "snd_hilt api =
     \<lparr>hilt_ListProviders = on_snd (hilt_ListProviders api),
      hilt_AddProvider = \<lambda>d r ns. on_snd (hilt_AddProvider api d r ns),
      hilt_SetProviderNodes = \<lambda>d ns. on_snd (hilt_SetProviderNodes api d ns)\<rparr>"

type_synonym onb_world = "fake_ssm \<times> fake_services"

definition onb_store :: "onb_world ssm_store" where
  "onb_store = \<lparr>ssm_client = fst_ssm_api fake_ssm_api, ssm_stage = ''test''\<rparr>"

definition test_deps :: "onb_world onboard_deps" where
  "test_deps =
     \<lparr>od_AllowList = dynamo_AllowList (NewDynamoAllowList (snd_dynamo fake_dynamo) ''allow'' ''test''),
      od_Sprue = SprueClient string_lib (snd_sprue fake_sprue),
      od_Hilt = HiltClient string_lib (snd_hilt fake_hilt),
      od_IssueProof = \<lambda>region ingot. returnE ''the-proof'',
      od_PiriRecord = piriRecords (ssm_publicStore 1 onb_store)\<rparr>"

definition onb_pub :: "onb_world \<Rightarrow> string \<Rightarrow> string option" where
  "onb_pub w = stage_view ''/forge-central/test/'' (fake_held (fst w))"

definition onb_world_view :: "onb_world \<Rightarrow> onb_view" where
  "onb_world_view w = services_view
     (\<lambda>r. if CHR ''/'' \<in> set r then {} else piri_set (onb_pub w) r) (snd w)"

interpretation onb_publics: ssm_publics "fst_ssm_api fake_ssm_api" "\<lambda>w :: onb_world. fake_held (fst w)"
    fake_pages "''test''" 1
  by (intro ssm_publics.intro fst_ssm_service ssm_publics_axioms.intro) (simp add: fake_pages_def)

definition onb_inv :: "onb_world \<Rightarrow> bool" where
  "onb_inv w \<longleftrightarrow> piri_wf (onb_pub w)"

text \<open>A region label, and a Piri DID, that a parameter path can carry.\<close>

definition plain_label :: "string \<Rightarrow> bool" where
  "plain_label s \<longleftrightarrow> CHR ''/'' \<notin> set s \<and> \<not> contains s ''ParameterAlreadyExists''"

lemma plain_piri_slot:
  assumes "plain_label region" "plain_label d" "d = ''did:key:'' @ k"
  shows "\<not> contains (''/forge-central/test/'' @ piri_slot region k) ''ParameterAlreadyExists''"
proof -
  let ?n = "''ParameterAlreadyExists''"
  have slash: "CHR ''/'' \<notin> set ?n" by simp
  have k: "\<not> contains k ?n"
    using sublist_order.order.trans [OF _ sublist_append_leftI, of ?n k "''did:key:''"] assms(2)
    unfolding plain_label_def assms(3) by blast
  have short: "\<not> contains s ?n" if "length s < 22" for s
    using sublist_length_le [of ?n s] that by auto
  have shorts: "\<not> contains [] ?n" "\<not> contains ''forge-central'' ?n" "\<not> contains ''test'' ?n"
      "\<not> contains ''appliance'' ?n" "\<not> contains ''piri'' ?n"
    by (rule short, simp)+
  have path: "''/forge-central/test/'' @ piri_slot region k
      = [] @ CHR ''/'' # (''forge-central'' @ CHR ''/'' # (''test'' @ CHR ''/'' # (''appliance'' @ CHR ''/''
          # (region @ CHR ''/'' # (''piri'' @ CHR ''/'' # k)))))"
    by (simp add: piri_slot_def slot_def applianceService_def piriSubPrefix_def)
  then show ?thesis
    unfolding path sublist_around [OF slash] using assms(1) k shorts unfolding plain_label_def by blast
qed

text \<open>What each adapter does, over the in-memory services alone.\<close>

lemma onb_view_select:
  "onb_pub (s, f) = stage_view ''/forge-central/test/'' (fake_held s)"
  "onb_inv (s, f) = piri_wf (stage_view ''/forge-central/test/'' (fake_held s))"
  by (simp_all add: onb_pub_def onb_inv_def)

lemma services_view_select [simp]:
  "ov_allowed (onb_world_view w) = set (fv_table (snd w))"
  "ov_sprue (onb_world_view w) = fake_sprue_view (snd w)"
  "ov_hilt (onb_world_view w) = findProvider string_lib (fv_hilt (snd w))"
  "ov_nodes (onb_world_view w) = fake_nodes_view (snd w)"
  by (simp_all add: onb_world_view_def services_view_def)

lemma recorded_view:
  "ov_recorded (onb_world_view w) = (\<lambda>r. if CHR ''/'' \<in> set r then {} else piri_set (onb_pub w) r)"
  by (simp add: onb_world_view_def services_view_def)

lemma services_update [simp]:
  "onb_inv (fst w, f) = onb_inv w" "onb_pub (fst w, f) = onb_pub w"
  "ov_recorded (onb_world_view (fst w, f)) = ov_recorded (onb_world_view w)"
  by (simp_all add: onb_inv_def onb_pub_def recorded_view fun_eq_iff)

lemma onb_view_eqI:
  assumes "ov_allowed v = ov_allowed v'" "ov_sprue v = ov_sprue v'" "ov_hilt v = ov_hilt v'"
    "ov_nodes v = ov_nodes v'" "ov_recorded v = ov_recorded v'"
  shows "v = (v' :: onb_view)"
  using assms by (cases v; cases v') simp

lemma piri_other_service:
  assumes "onb_pub w' = onb_pub w" "snd w' = snd w"
  shows "onb_world_view w' = onb_world_view w" "onb_inv w' = onb_inv w"
  unfolding onb_world_view_def onb_inv_def assms by (rule refl)+

lemma keeps_services:
  "keeps (\<lambda>w w'. snd w' = snd w) (Recorded (ssm_publicStore 1 onb_store) region)"
  "keeps (\<lambda>w w'. snd w' = snd w) (Record (ssm_publicStore 1 onb_store) region d)"
proof -
  have fst: "keeps (\<lambda>w w'. snd w' = snd w) (on_fst m)" for m
    by (simp add: keeps_def on_fst_def Let_def case_prod_beta)
  show "keeps (\<lambda>w w'. snd w' = snd w) (Recorded (ssm_publicStore 1 onb_store) region)"
    unfolding Recorded_def ssm_publicStore_def publicStore.simps ListPublic_def
    by (auto intro!: keeps_intros keeps_params_by_path fst simp: onb_store_def simp del: params_by_path.simps)
  show "keeps (\<lambda>w w'. snd w' = snd w) (Record (ssm_publicStore 1 onb_store) region d)"
    unfolding Record_def ssm_publicStore_def publicStore.simps EnsurePublic_def
    by (auto intro!: keeps_intros keeps_ensure fst simp: onb_store_def split: sum.split)
qed

lemma onb_Recorded:
  assumes "onb_inv w" "plain_label region"
  shows "wp (Recorded (ssm_publicStore 1 onb_store) region)
      (\<lambda>ds w'. onb_inv w' \<and> onb_world_view w' = onb_world_view w \<and> set ds = ov_recorded (onb_world_view w) region)
      (\<lambda>_ w'. onb_inv w' \<and> onb_world_view w' = onb_world_view w) w"
proof -
  have slash: "CHR ''/'' \<notin> set region" using assms(2) by (simp add: plain_label_def)
  have "wp (Recorded (ssm_publicStore 1 onb_store) region)
      (\<lambda>ds w'. onb_pub w' = onb_pub w \<and> set ds = piri_set (onb_pub w) region \<and> sorted ds \<and> distinct ds)
      (\<lambda>_ w'. onb_pub w' = onb_pub w) w"
    using onb_publics.publics.wp_Recorded [of w region] assms slash
    by (simp add: onb_pub_def onb_inv_def onb_store_def)
  from wp_keeps [OF keeps_services(1) this] show ?thesis
  proof (rule wp_weaken, goal_cases)
    case (1 ds w')
    then have "onb_world_view w' = onb_world_view w" "onb_inv w' = onb_inv w"
      using piri_other_service by blast+
    with 1 assms(1) slash show ?case by (simp add: recorded_view)
  next
    case (2 e w')
    then have "onb_world_view w' = onb_world_view w" "onb_inv w' = onb_inv w"
      using piri_other_service by blast+
    with assms(1) show ?case by simp
  qed
qed

lemma onb_Record:
  assumes "onb_inv w" "plain_label region" "plain_label d"
  shows "wp (Record (ssm_publicStore 1 onb_store) region d)
      (\<lambda>_ w'. onb_inv w' \<and> onb_world_view w' = (onb_world_view w)\<lparr>ov_recorded :=
         (ov_recorded (onb_world_view w))(region := insert d (ov_recorded (onb_world_view w) region))\<rparr>)
      (\<lambda>_ w'. onb_inv w' \<and> (onb_world_view w' = onb_world_view w
         \<or> onb_world_view w' = (onb_world_view w)\<lparr>ov_recorded :=
         (ov_recorded (onb_world_view w))(region := insert d (ov_recorded (onb_world_view w) region))\<rparr>)) w"
    (is "wp _ (\<lambda>_ w'. onb_inv w' \<and> ?new w') (\<lambda>_ w'. onb_inv w' \<and> (?same w' \<or> ?new w')) w")
proof -
  have slash: "CHR ''/'' \<notin> set region" "CHR ''/'' \<notin> set d"
    using assms by (simp_all add: plain_label_def)
  have "wp (Record (ssm_publicStore 1 onb_store) region d)
      (\<lambda>_ w'. piri_wf (onb_pub w') \<and> piri_set (onb_pub w') region = insert d (piri_set (onb_pub w) region)
         \<and> (\<forall>r. CHR ''/'' \<notin> set r \<longrightarrow> r \<noteq> region \<longrightarrow> piri_set (onb_pub w') r = piri_set (onb_pub w) r))
      (\<lambda>_ w'. piri_wf (onb_pub w') \<and> (piri_set (onb_pub w') region = piri_set (onb_pub w) region
           \<or> piri_set (onb_pub w') region = insert d (piri_set (onb_pub w) region))
         \<and> (\<forall>r. CHR ''/'' \<notin> set r \<longrightarrow> r \<noteq> region \<longrightarrow> piri_set (onb_pub w') r = piri_set (onb_pub w) r)) w"
    using onb_publics.publics.wp_Record [of w region d] assms slash plain_piri_slot [OF assms(2,3)]
    by (simp add: onb_pub_def onb_inv_def onb_store_def)
  from wp_keeps [OF keeps_services(2) this] show ?thesis
  proof (rule wp_weaken, goal_cases)
    case (1 u w')
    then have "?new w'"
      by (intro onb_view_eqI) (use slash in \<open>auto simp: fun_eq_iff recorded_view\<close>)
    with 1 show ?case by (simp add: onb_inv_def)
  next
    case (2 e w')
    then have "?same w' \<or> ?new w'"
      by (elim conjE disjE; intro disjI1 disjI2 onb_view_eqI) (use slash in \<open>auto simp: fun_eq_iff recorded_view\<close>)
    with 2 show ?case by (simp add: onb_inv_def)
  qed
qed

lemma test_deps_select:
  "al_Has (od_AllowList test_deps) = allow_Has (NewDynamoAllowList (snd_dynamo fake_dynamo) ''allow'' ''test'')"
  "al_Add (od_AllowList test_deps) = allow_Add (NewDynamoAllowList (snd_dynamo fake_dynamo) ''allow'' ''test'')"
  "sa_Provider (od_Sprue test_deps) = sprue_Provider string_lib (snd_sprue fake_sprue)"
  "sa_Register (od_Sprue test_deps) = sprue_Register string_lib (snd_sprue fake_sprue)"
  "sa_SetProofs (od_Sprue test_deps) = sprue_SetProofs string_lib (snd_sprue fake_sprue)"
  "sa_SetWeight (od_Sprue test_deps) = sprue_SetWeight string_lib (snd_sprue fake_sprue)"
  "ha_Provider (od_Hilt test_deps) = hilt_Provider string_lib (snd_hilt fake_hilt)"
  "ha_AddProvider (od_Hilt test_deps) = hilt_Add string_lib (snd_hilt fake_hilt)"
  "ha_SetProviderNodes (od_Hilt test_deps) = hilt_SetNodes string_lib (snd_hilt fake_hilt)"
  "pc_Recorded (od_PiriRecord test_deps) = Recorded (ssm_publicStore 1 onb_store)"
  "pc_Record (od_PiriRecord test_deps) = Record (ssm_publicStore 1 onb_store)"
  "od_IssueProof test_deps = (\<lambda>region ingot. returnE ''the-proof'')"
  by (simp_all add: test_deps_def dynamo_AllowList_def SprueClient_def HiltClient_def piriRecords_def)

lemma wp_step: "wp (\<lambda>w. (Ok (a w), f w)) Q E w = Q (a w) (f w)" "wp (\<lambda>w. (Fail (e w), f w)) Q E w = E (e w) (f w)"
  by (simp_all add: wp_def)

lemma wp_step_if:
  "wp (\<lambda>w. if b w then m w else n w) Q E w = (if b w then wp m Q E w else wp n Q E w)"
  by (simp add: wp_def)

lemma parseNodeDIDs_string: "parseNodeDIDs string_lib ns = Inr ds \<Longrightarrow> ds = ns"
  by (induction ns arbitrary: ds) (auto simp: string_lib_def split: sum.splits if_splits)

lemmas adapter_simps = wp_simps on_snd_wp wp_step wp_step_if parseE_def sumE_def snd_sprue_def snd_hilt_def
  snd_dynamo_def test_deps_select fake_sprue_def fake_hilt_def fake_dynamo_def

lemma fake_Has:
  "wp (al_Has (od_AllowList test_deps) d) Q E w = Q (d \<in> ov_allowed (onb_world_view w)) w"
  by (simp add: test_deps_select allow_Has_def NewDynamoAllowList_def adapter_simps)

lemma fake_Add:
  "wp (al_Add (od_AllowList test_deps) d) Q E w = Q () (fst w, (snd w)\<lparr>fv_table := fv_table (snd w) @ [d]\<rparr>)"
  by (simp add: test_deps_select allow_Add_def NewDynamoAllowList_def adapter_simps wp_def on_snd_def mapErr_def Let_def)

lemma string_lib_select [simp]:
  "did_String string_lib d = d"
  "did_Parse string_lib d = (if has_prefix d ''did:'' then Inr d else Inl (Errorf ''not a DID''))"
  "container_Decode string_lib s = (if s = [] then Inl (Errorf ''empty container'') else Inr s)"
  by (simp_all add: string_lib_def)

interpretation test_onboarding: onboarding test_deps onb_world_view onb_inv plain_label plain_label
proof (unfold_locales, goal_cases)
  case (1 w d)
  then show ?case by (simp add: fake_Has del: services_view_select)
next
  case (2 w d)
  then show ?case
    by (auto simp: fake_Add intro!: onb_view_eqI)
next
  case (3 w d)
  then show ?case
    by (simp add: sprue_Provider_def adapter_simps fake_sprue_view_def)
next
  case (4 w d e c)
  then have none: "fake_sprue_view (snd w) d = None" by simp
  then have new: "\<not> (\<exists>p\<in>set (fv_sprue (snd w)). sp_Provider p = d)"
    by (auto simp: fake_sprue_view_def find_None_iff)
  show ?case
    using new 4(1) fake_sprue_view_register [OF none, of e 0 0]
    by (auto simp: sprue_Register_def adapter_simps intro!: onb_view_eqI exI [of _ "\<lparr>pr_Endpoint = e, pr_Weight = 0, pr_ReplicationWeight = 0\<rparr>"])
next
  case (5 w d c)
  then show ?case by (simp add: sprue_SetProofs_def adapter_simps)
next
  case (6 w d p x y)
  then have some: "fake_sprue_view (snd w) d = Some p" by simp
  show ?case
    using 6(1) fake_sprue_view_weight [OF some, where x = x and y = y] fake_sprue_view_weight [OF some, where x = y and y = x]
    by (auto simp: sprue_SetWeight_def adapter_simps intro!: onb_view_eqI)
next
  case (7 w i)
  then show ?case by (simp add: hilt_Provider_def adapter_simps)
next
  case (8 w ns i r)
  let ?h = "\<lparr>hp_Region = r, hp_Policy = ''did:key:zPolicy''\<rparr>"
  show ?case
  proof (cases "findProvider string_lib (fv_hilt (snd w)) i")
    case None
    then have new: "\<not> (\<exists>p\<in>set (fv_hilt (snd w)). he_Provider p = i)"
      by (simp add: findProvider_None)
    show ?thesis
      using new 8(1) None fake_hilt_view_add [OF None, of r "''did:key:zPolicy''"]
      by (auto simp: hilt_Add_def adapter_simps fake_nodes_view_update dest!: parseNodeDIDs_string
          split: sum.split intro!: onb_view_eqI exI [of _ "''did:key:zPolicy''"])
  next
    case (Some h)
    then have old: "\<exists>p\<in>set (fv_hilt (snd w)). he_Provider p = i"
      using findProvider_None [of string_lib "fv_hilt (snd w)" i] by auto
    show ?thesis
      using old 8(1) Some
      by (auto simp: hilt_Add_def adapter_simps split: sum.split)
  qed
next
  case (9 w ns i h)
  then have "findProvider string_lib (fv_hilt (snd w)) i = Some h" by simp
  then have policy: "findProvider string_lib (map (\<lambda>p. if he_Provider p = i then p\<lparr>he_Policy := Some ''did:key:zPolicy''\<rparr> else p)
      (fv_hilt (snd w))) = (findProvider string_lib (fv_hilt (snd w)))(i \<mapsto> h\<lparr>hp_Policy := ''did:key:zPolicy''\<rparr>)"
    by (auto simp: findProvider_policy fun_eq_iff)
  show ?case
    using 9(1) policy
    by (auto simp: hilt_SetNodes_def adapter_simps fake_nodes_view_update dest!: parseNodeDIDs_string
        split: sum.split intro!: onb_view_eqI exI [of _ "''did:key:zPolicy''"])
next
  case (10 w region)
  then show ?case using onb_Recorded by (simp add: test_deps_select)
next
  case (11 w region d)
  then show ?case using onb_Record by (simp add: test_deps_select)
next
  case (12 w region ingot)
  then show ?case by (simp add: wp_simps test_deps_select)
qed


section \<open>Properties\<close>


definition test_request :: onboard_request where
  "test_request =
     \<lparr>or_Region = ''us-east-9'', or_PiriDID = ''did:key:zPiri'', or_IngotDID = ''did:key:zIngot'',
      or_PiriURL = ''https://piri.example'', or_PiriProof = ''signed-by-piri'', or_Weight = 100,
      or_ReplicationWeight = 50\<rparr>"

definition empty_world :: onb_world where
  "empty_world = (fake_with [], \<lparr>fv_table = [], fv_sprue = [], fv_hilt = [], fv_nodes = []\<rparr>)"

lemma empty_world_view:
  "ov_allowed (onb_world_view empty_world) = {}" "ov_sprue (onb_world_view empty_world) = Map.empty"
  "ov_hilt (onb_world_view empty_world) = Map.empty" "onb_inv empty_world"
  by (simp_all add: empty_world_def fake_sprue_view_def fun_eq_iff onb_view_select fake_held_def fake_with_def
      stage_view_def piri_wf_def)


text \<open>
  C28. A plan is refused in exactly three cases: sprue has no record of the Piri and the request
  carries no proof, sprue has it at another endpoint, or hilt has the Ingot for another region. A
  refused plan writes nothing: \<open>Apply\<close> returns the blockers and leaves every service as it was.
\<close>

theorem onboard_refuses:
  "if onboard_conflict st req
   then pl_Blockers (PlanFrom st req) \<noteq> []
     \<and> Apply deps req (PlanFrom st req) w
         = (Fail (Errorf (''refusing to write: '' @ join ''; and '' (pl_Blockers (PlanFrom st req)))), w)
   else pl_Blockers (PlanFrom st req) = []"
  using blocked_iff [of st req] by (simp add: Apply_def failE_def)



end
