(* ===== verification/Amount.thy ===== *)
theory Amount
imports Numerals "HOL-Library.Signed_Division"
begin

text \<open>
  \<open>internal/fund/amount.go\<close>: decimal token amounts to on-chain integers and back.

  \<open>big.Int\<close> is \<open>int\<close>, \<open>SetString(s, 10)\<close> is \<open>SetString10\<close>, \<open>String\<close> is \<open>itoa\<close>, and \<open>QuoRem\<close> truncates (\<open>sdiv\<close>, \<open>smod\<close>).
\<close>

definition usdfcDecimals :: nat where
  "usdfcDecimals = 18"

definition ParseUSDFC :: "string \<Rightarrow> go_error + int" where
  "ParseUSDFC amount =
     (let trimmed = trim_space amount in
      if trimmed = [] then Inl (Errorf ''amount is empty'')
      else if has_prefix trimmed ''-'' then Inl (Errorf (''amount '' @ go_quote amount @ '' is negative''))
      else
        let (whole, frac, hasFrac) = cut_at trimmed (CHR ''.'');
            whole = (if whole = [] then ''0'' else whole) in
        if hasFrac \<and> length frac > usdfcDecimals then
          Inl (Errorf (''amount '' @ go_quote amount @ '' has more than ''
            @ itoa (int usdfcDecimals) @ '' decimal places''))
        else
          let digits = whole @ frac @ replicate (usdfcDecimals - length frac) (CHR ''0'') in
          case SetString10 digits of
            None \<Rightarrow> Inl (Errorf (''amount '' @ go_quote amount @ '' is not a decimal number''))
          | Some v \<Rightarrow> Inr v)"

text \<open>\<open>%0*s\<close> pads a string on the left with zeros; \<open>strings.TrimRight(s, "0")\<close> drops trailing ones.\<close>

definition pad_left :: "nat \<Rightarrow> string \<Rightarrow> string" where
  "pad_left n s = replicate (n - length s) (CHR ''0'') @ s"

definition trim_zeros :: "string \<Rightarrow> string" where
  "trim_zeros s = rev (dropWhile (\<lambda>c. c = CHR ''0'') (rev s))"

definition FormatUSDFC :: "int option \<Rightarrow> string" where
  "FormatUSDFC amount =
     (case amount of
        None \<Rightarrow> ''0''
      | Some v \<Rightarrow>
          let unit = 10 ^ usdfcDecimals;
              whole = v sdiv unit;
              frac = v smod unit in
          if frac = 0 then itoa whole
          else
            let padded = pad_left usdfcDecimals (itoa frac) in
            itoa whole @ ''.'' @ trim_zeros padded)"

section \<open>What is accepted\<close>

text \<open>
  \<open>usdfc_literal\<close>: an optional \<open>+\<close>, decimal digits, and optionally a point and at most 18 more
  digits. Either run of digits may be empty, so \<open>.5\<close>, \<open>5.\<close>, and even \<open>.\<close> and \<open>+\<close>, are literals.
\<close>

definition usdfc_literal :: "string \<Rightarrow> string \<Rightarrow> string \<Rightarrow> string \<Rightarrow> bool" where
  "usdfc_literal t sign whole frac \<longleftrightarrow>
     t \<noteq> [] \<and> sign \<in> {[], ''+''} \<and> (t = sign @ whole @ ''.'' @ frac \<or> t = sign @ whole \<and> frac = [])
     \<and> list_all is_digit whole \<and> list_all is_digit frac \<and> length frac \<le> usdfcDecimals"

lemma scaled_digits:
  assumes "length b \<le> usdfcDecimals"
  shows "digits_val (w @ b @ replicate (usdfcDecimals - length b) (CHR ''0''))
    = digits_val w * 10 ^ usdfcDecimals + digits_val b * 10 ^ (usdfcDecimals - length b)"
proof -
  have "length b + (usdfcDecimals - length b) = usdfcDecimals" using assms by simp
  then show ?thesis
    by (simp add: digits_val_append add_mult_distrib flip: power_add)
qed

lemma signed_split:
  "(\<exists>sign whole. w = sign @ whole \<and> sign \<in> {[], ''+''} \<and> P whole) \<longleftrightarrow> P w \<or> (\<exists>r. w = CHR ''+'' # r \<and> P r)"
  by (metis append_Cons append_Nil insert_iff singletonD)

lemma SetString10_scaled:
  assumes w: "w \<noteq> []" "hd w \<noteq> CHR ''-''" and b: "length b \<le> usdfcDecimals"
  shows "SetString10 (w @ b @ replicate (usdfcDecimals - length b) (CHR ''0'')) = Some v \<longleftrightarrow>
    (\<exists>sign whole. w = sign @ whole \<and> sign \<in> {[], ''+''} \<and> list_all is_digit whole \<and> list_all is_digit b
       \<and> v = int (digits_val whole * 10 ^ usdfcDecimals + digits_val b * 10 ^ (usdfcDecimals - length b)))"
proof -
  let ?z = "replicate (usdfcDecimals - length b) (CHR ''0'')"
  have z: "list_all is_digit ?z" by (simp add: list_all_iff)
  have nonempty: "r @ b @ ?z \<noteq> []" for r
    using b by (auto simp: usdfcDecimals_def)
  obtain c r where c: "w = c # r" using w(1) by (cases w) auto
  show ?thesis
  proof (cases "c = CHR ''+''")
    case True
    then have "SetString10 (w @ b @ ?z) = Some v \<longleftrightarrow> list_all is_digit r \<and> list_all is_digit b
        \<and> v = int (digits_val (r @ b @ ?z))"
      using z nonempty [of r] by (auto simp: SetString10_def c)
    then show ?thesis
      unfolding scaled_digits [OF b] signed_split using True by (auto simp: c)
  next
    case False
    then have "SetString10 (w @ b @ ?z) = Some v \<longleftrightarrow> list_all is_digit w \<and> list_all is_digit b
        \<and> v = int (digits_val (w @ b @ ?z))"
      using z w(2) by (auto simp: SetString10_def c)
    then show ?thesis
      unfolding scaled_digits [OF b] signed_split using False by (auto simp: c)
  qed
qed

lemma parse_trimmed:
  assumes "trim_space amount = t" "t \<noteq> []" "hd t \<noteq> CHR ''-''"
    and "cut_at t (CHR ''.'') = (whole, frac, hasFrac)" "length frac \<le> usdfcDecimals"
  shows "ParseUSDFC amount = Inr v \<longleftrightarrow>
    SetString10 ((if whole = [] then ''0'' else whole) @ frac
      @ replicate (usdfcDecimals - length frac) (CHR ''0'')) = Some v"
proof -
  have "\<not> prefix ''-'' t" using assms(2,3) by (cases t) auto
  then show ?thesis
    using assms(1,2,4,5) by (auto simp: ParseUSDFC_def Let_def split: option.split)
qed

lemma cut_at_cases:
  "cut_at t c = (a, b, f) \<longleftrightarrow> c \<notin> set a \<and> (if f then t = a @ c # b else t = a \<and> b = [])"
proof
  assume "cut_at t c = (a, b, f)"
  moreover have "t = takeWhile (\<lambda>x. x \<noteq> c) t @ c # tl (dropWhile (\<lambda>x. x \<noteq> c) t)" if c: "c \<in> set t"
  proof -
    obtain xs ys where "t = xs @ c # ys" "c \<notin> set xs" using split_list_first [OF c] by blast
    then show ?thesis by (simp add: takeWhile_append dropWhile_append)
  qed
  ultimately show "c \<notin> set a \<and> (if f then t = a @ c # b else t = a \<and> b = [])"
    by (auto simp: cut_at_def split: if_splits dest: set_takeWhileD)
next
  assume "c \<notin> set a \<and> (if f then t = a @ c # b else t = a \<and> b = [])"
  then show "cut_at t c = (a, b, f)"
    by (cases f) (auto simp: cut_at_absent)
qed

definition usdfc_value :: "string \<Rightarrow> string \<Rightarrow> int" where
  "usdfc_value whole frac =
     int (digits_val whole * 10 ^ usdfcDecimals + digits_val frac * 10 ^ (usdfcDecimals - length frac))"

lemma ParseUSDFC_Inr_literal:
  assumes "ParseUSDFC amount = Inr v"
  shows "\<exists>sign whole frac. usdfc_literal (trim_space amount) sign whole frac \<and> v = usdfc_value whole frac"
proof -
  let ?t = "trim_space amount"
  obtain a b f where cut: "cut_at ?t (CHR ''.'') = (a, b, f)" by (cases "cut_at ?t (CHR ''.'')") auto
  note t = cut [unfolded cut_at_cases]
  have ne1: "?t \<noteq> []"
    using assms by (auto simp: ParseUSDFC_def)
  have "\<not> prefix ''-'' ?t"
    using assms ne1 by (auto simp: ParseUSDFC_def)
  then have ne: "?t \<noteq> []" "hd ?t \<noteq> CHR ''-''"
    using ne1 by (cases ?t; simp)+
  have len: "length b \<le> usdfcDecimals"
  proof (rule ccontr)
    assume "\<not> length b \<le> usdfcDecimals"
    moreover from this have f using t by (cases f) auto
    ultimately show False
      using assms ne1 \<open>\<not> prefix ''-'' ?t\<close> by (simp add: ParseUSDFC_def Let_def cut)
  qed
  let ?w = "if a = [] then ''0'' else a"
  have w: "?w \<noteq> []" "hd ?w \<noteq> CHR ''-''"
    using t ne(2) by (auto simp: hd_append split: if_splits)
  from assms [unfolded parse_trimmed [OF refl ne cut len] SetString10_scaled [OF w len]]
  obtain sign whole where *: "?w = sign @ whole" "sign \<in> {[], ''+''}" "list_all is_digit whole"
      "list_all is_digit b" "v = usdfc_value whole b"
    unfolding usdfc_value_def by blast
  show ?thesis
  proof (cases "a = []")
    case True
    with * have "whole = ''0'' \<and> sign = []" by (auto simp: Cons_eq_append_conv)
    with * True have "v = usdfc_value [] b" by (simp add: usdfc_value_def digits_val_def digit_val_def)
    moreover have "usdfc_literal ?t [] [] b"
      using t ne(1) True * len by (auto simp: usdfc_literal_def split: if_splits)
    ultimately show ?thesis by blast
  next
    case False
    then have "usdfc_literal ?t sign whole b"
      using t ne(1) * len by (auto simp: usdfc_literal_def split: if_splits)
    with * show ?thesis by blast
  qed
qed

lemma ParseUSDFC_literal:
  assumes "usdfc_literal (trim_space amount) sign whole frac"
  shows "ParseUSDFC amount = Inr (usdfc_value whole frac)"
proof -
  let ?t = "trim_space amount" and ?a = "sign @ whole"
  have len: "length frac \<le> usdfcDecimals" and ne: "?t \<noteq> []" using assms by (auto simp: usdfc_literal_def)
  have sw: "sign \<in> {[], ''+''}" "list_all is_digit whole" "list_all is_digit frac"
    using assms by (auto simp: usdfc_literal_def)
  have a: "CHR ''.'' \<notin> set ?a" using sw digits_no_point by auto
  have t: "?t = ?a @ CHR ''.'' # frac \<or> ?t = ?a \<and> frac = []"
    using assms by (auto simp: usdfc_literal_def)
  then obtain f where cut: "cut_at ?t (CHR ''.'') = (?a, frac, f)"
    using a by (metis (full_types) cut_at_cases)
  have hd: "hd ?t \<noteq> CHR ''-''"
    using t sw ne by (cases whole) (auto simp: hd_append dest: is_digit_not)
  let ?w = "if ?a = [] then ''0'' else ?a"
  have w: "?w \<noteq> []" "hd ?w \<noteq> CHR ''-''"
    using sw by (cases whole; auto dest: is_digit_not)+
  have "\<exists>sign' whole'. ?w = sign' @ whole' \<and> sign' \<in> {[], ''+''} \<and> list_all is_digit whole'
      \<and> list_all is_digit frac \<and> usdfc_value whole frac
         = int (digits_val whole' * 10 ^ usdfcDecimals + digits_val frac * 10 ^ (usdfcDecimals - length frac))"
  proof (cases "?a = []")
    case True
    then show ?thesis
      using sw by (intro exI [of _ "[]"] exI [of _ "''0''"]) (auto simp: usdfc_value_def digits_val_def digit_val_def)
  next
    case False
    then show ?thesis
      using sw by (intro exI [of _ sign] exI [of _ whole]) (auto simp: usdfc_value_def)
  qed
  then show ?thesis
    unfolding parse_trimmed [OF refl ne hd cut len] SetString10_scaled [OF w len] by blast
qed

section \<open>What is printed\<close>

lemma trim_zeros_split: "\<exists>k. s = trim_zeros s @ replicate k (CHR ''0'')"
proof -
  let ?z = "takeWhile (\<lambda>c. c = CHR ''0'') (rev s)"
  have "?z = replicate (length ?z) (CHR ''0'')"
    by (rule replicate_eqI) (auto dest: set_takeWhileD)
  moreover have "s = trim_zeros s @ rev ?z"
    unfolding trim_zeros_def rev_append [symmetric] takeWhile_dropWhile_id rev_rev_ident ..
  ultimately show ?thesis by (metis rev_replicate)
qed

lemma pad_left_frac:
  assumes "n < 10 ^ usdfcDecimals"
  shows "list_all is_digit (pad_left usdfcDecimals (dec_digits n))"
    and "digits_val (pad_left usdfcDecimals (dec_digits n)) = n"
    and "length (pad_left usdfcDecimals (dec_digits n)) = usdfcDecimals"
  using dec_digits_length [OF assms] dec_digits_val [of n]
  by (auto simp: pad_left_def digits_val_append usdfcDecimals_def list_all_iff)

lemma FormatUSDFC_literal:
  assumes "0 \<le> v"
  shows "\<exists>whole frac. usdfc_literal (FormatUSDFC (Some v)) [] whole frac \<and> usdfc_value whole frac = v
    \<and> whole \<noteq> [] \<and> (FormatUSDFC (Some v) = whole @ ''.'' @ frac \<or> FormatUSDFC (Some v) = whole)"
proof -
  define n where "n = nat v"
  have v: "v = int n" using assms by (simp add: n_def)
  let ?u = "10 ^ usdfcDecimals :: nat" and ?w = "dec_digits (n div 10 ^ usdfcDecimals)"
  have whole: "v sdiv 10 ^ usdfcDecimals = int (n div ?u)"
    by (cases "n = 0") (simp_all add: v signed_divide_int_def zdiv_int)
  have frac: "v smod 10 ^ usdfcDecimals = int (n mod ?u)"
    by (cases "n = 0") (simp_all add: v signed_modulo_int_def zmod_int)
  have w: "list_all is_digit ?w" "digits_val ?w = n div ?u" "?w \<noteq> []"
    using dec_digits_val by blast+
  show ?thesis
  proof (cases "n mod ?u = 0")
    case True
    then have "FormatUSDFC (Some v) = ?w"
      by (simp add: FormatUSDFC_def Let_def whole frac itoa_def)
    moreover have "usdfc_value ?w [] = v"
      using w(2) True by (simp add: usdfc_value_def v) (metis True add.right_neutral div_mult_mod_eq of_nat_mult of_nat_numeral of_nat_power)
    ultimately show ?thesis
      using w by (intro exI [of _ ?w] exI [of _ "[]"]) (auto simp: usdfc_literal_def)
  next
    case False
    let ?p = "pad_left usdfcDecimals (dec_digits (n mod ?u))"
    let ?f = "trim_zeros ?p"
    have lt: "n mod ?u < ?u" by simp
    obtain k where k: "?p = ?f @ replicate k (CHR ''0'')" using trim_zeros_split by blast
    have len: "length ?f + k = usdfcDecimals"
      using arg_cong [OF k, of length] pad_left_frac(3) [OF lt] by simp
    have digits: "list_all is_digit ?f"
      using pad_left_frac(1) [OF lt] k by (metis list_all_append)
    have "digits_val ?f * 10 ^ k = n mod ?u"
      using arg_cong [OF k, of digits_val] pad_left_frac(2) [OF lt] by (simp add: digits_val_append)
    moreover have "usdfcDecimals - length ?f = k" using len by simp
    ultimately have "usdfc_value ?w ?f = v"
      unfolding usdfc_value_def v w(2) by (simp only: div_mult_mod_eq)
    moreover have "FormatUSDFC (Some v) = ?w @ ''.'' @ ?f"
      using False by (simp add: FormatUSDFC_def Let_def whole frac itoa_def)
    ultimately show ?thesis
      using w digits len by (intro exI [of _ ?w] exI [of _ ?f]) (auto simp: usdfc_literal_def)
  qed
qed

lemma trim_space_FormatUSDFC:
  assumes "0 \<le> v"
  shows "trim_space (FormatUSDFC (Some v)) = FormatUSDFC (Some v)"
proof -
  obtain whole frac where *: "usdfc_literal (FormatUSDFC (Some v)) [] whole frac" "whole \<noteq> []"
    "FormatUSDFC (Some v) = whole @ ''.'' @ frac \<or> FormatUSDFC (Some v) = whole"
    using FormatUSDFC_literal [OF assms] by blast
  have "plain_char (CHR ''.'')" by (simp add: plain_char_def)
  moreover have "list_all plain_char whole" "list_all plain_char frac"
    using *(1) by (auto simp: usdfc_literal_def list_all_iff is_digit_plain)
  ultimately have "list_all plain_char (FormatUSDFC (Some v))" "FormatUSDFC (Some v) \<noteq> []"
    using * by auto
  then show ?thesis
    by (intro trim_space_plain) (auto simp: list_all_iff)
qed

section \<open>Properties\<close>


text \<open>
  C25. Amounts round trip: what \<open>FormatUSDFC\<close> prints of any amount the chain can hold, \<open>ParseUSDFC\<close>
  reads back as the same amount; so two different amounts never print the same in a plan.
\<close>

theorem USDFC_roundtrip:
  assumes "0 \<le> v"
  shows "ParseUSDFC (FormatUSDFC (Some v)) = Inr v"
proof -
  obtain whole frac where "usdfc_literal (FormatUSDFC (Some v)) [] whole frac" "usdfc_value whole frac = v"
    using FormatUSDFC_literal [OF assms] by blast
  then show ?thesis
    using ParseUSDFC_literal [of "FormatUSDFC (Some v)"] by (simp add: trim_space_FormatUSDFC [OF assms])
qed

theorem USDFC_roundtrip_witness:
  "FormatUSDFC (Some 1230000000000000000) = ''1.23'' \<and> ParseUSDFC ''1.23'' = Inr 1230000000000000000"
proof -
  have "FormatUSDFC (Some 1230000000000000000) = ''1.23''"
    by (simp add: FormatUSDFC_def usdfcDecimals_def signed_divide_int_def signed_modulo_int_def itoa_def
        dec_digits.simps pad_left_def trim_zeros_def Let_def digit_chars)
  with USDFC_roundtrip [of 1230000000000000000] show ?thesis by simp
qed

text \<open>Two of the accepted literals hold no digit at all.\<close>

lemma ParseUSDFC_accepts_no_digits: "ParseUSDFC ''.'' = Inr 0" "ParseUSDFC ''+'' = Inr 0"
proof -
  have "trim_space ''.'' = ''.''" "trim_space ''+'' = ''+''"
    by (simp_all add: trim_space_plain plain_char_def)
  then have "usdfc_literal (trim_space ''.'') [] [] []" "usdfc_literal (trim_space ''+'') ''+'' [] []"
    by (simp_all add: usdfc_literal_def)
  from this [THEN ParseUSDFC_literal] show "ParseUSDFC ''.'' = Inr 0" "ParseUSDFC ''+'' = Inr 0"
    by (simp_all add: usdfc_value_def)
qed

end
