(* ===== verification/Fund.thy ===== *)
theory Fund
imports Amount "HOL-Library.Word"
begin

text \<open>
  \<open>internal/fund/fund.go\<close>: the three transactions that make the payer's USDFC spendable by the
  storage service, and the plan that shows them first.

  go-ethereum is not under src/: its RPC client is the record \<open>eth_api\<close> of actions and its pure
  functions (key and address parsing, the ABI reader, the transactor) the record \<open>eth_lib\<close>. The locale
  \<open>eth_chain\<close> states what the code relies on: \<open>sent\<close> is the log of transactions signed with the
  payer's key, and only \<open>Transact\<close> adds to it.
\<close>

section \<open>Data\<close>

record fund_config =
  fc_RPCURL :: string
  fc_ChainID :: int
  fc_USDFC :: string
  fc_FilecoinPay :: string
  fc_Operator :: string

record fund_request =
  fr_Deposit :: string
  fr_RateAllowance :: string
  fr_LockupAllowance :: string
  fr_MaxLockupPeriod :: "64 word"
  fr_ForceDeposit :: bool

record fund_plan =
  fp_Payer :: string
  fp_ChainID :: int
  fp_WalletBalance :: string
  fp_AccountFunds :: string
  fp_Actions :: "string list"
  fp_SkipDeposit :: bool

record fund_transaction =
  ft_Action :: string
  ft_Hash :: string
  ft_Block :: "64 word"
  ft_Status :: "64 word"

record fund_result = fund_plan +
  fres_Transactions :: "fund_transaction list"
  fres_FundsAfter :: string

datatype 'a abi_value = AbiAddress 'a | AbiUint int | AbiBool bool

record eth_receipt =
  rc_Status :: "64 word"
  rc_BlockNumber :: int

text \<open>The pure functions of go-ethereum: keys \<open>'k\<close>, addresses \<open>'a\<close>, parsed ABIs \<open>'b\<close>.\<close>

record ('k, 'a, 'b) eth_lib =
  HexToECDSA :: "string \<Rightarrow> go_error + 'k"
  PubkeyToAddress :: "'k \<Rightarrow> 'a"
  HexToAddress :: "string \<Rightarrow> 'a"
  addr_Hex :: "'a \<Rightarrow> string"
  abi_JSON :: "string \<Rightarrow> go_error + 'b"
  transactor_error :: "'k \<Rightarrow> int \<Rightarrow> go_error option"

text \<open>The RPC client \<open>'c\<close>. A transactor is its key and chain id; a transaction is known by its hash.\<close>

record ('w, 'c, 'k, 'a, 'b) eth_api =
  DialContext :: "string \<Rightarrow> ('w, 'c) act"
  eth_Close :: "'c \<Rightarrow> 'w \<Rightarrow> 'w"
  eth_ChainID :: "'c \<Rightarrow> ('w, int) act"
  contract_Call :: "'c \<Rightarrow> 'a \<Rightarrow> 'b \<Rightarrow> string \<Rightarrow> 'a abi_value list \<Rightarrow> ('w, int list) act"
  contract_Transact :: "'k \<times> int \<Rightarrow> 'c \<Rightarrow> 'a \<Rightarrow> 'b \<Rightarrow> string \<Rightarrow> 'a abi_value list \<Rightarrow> ('w, string) act"
  WaitMined :: "'c \<Rightarrow> string \<Rightarrow> ('w, eth_receipt) act"

record ('c, 'a, 'b) session =
  se_client :: 'c
  se_erc20 :: 'b
  se_pay :: 'b
  se_usdfc :: 'a
  se_filecoinPay :: 'a
  se_operator :: 'a
  se_payer :: 'a
  se_chainID :: int
  se_deposit :: int
  se_rateAllowance :: int
  se_lockupAllowance :: int
  se_forceDeposit :: bool

text \<open>\<open>(*big.Int).Int64\<close>: the low 64 bits, as a signed number.\<close>

definition big_Int64 :: "int \<Rightarrow> int" where
  "big_Int64 x = sint (word_of_int x :: 64 word)"

text \<open>The two ABI documents; a line of the source is a line of the text.\<close>

definition source_lines :: "string list \<Rightarrow> string" where
  "source_lines ls = join [CHR 0x0A] ls"

definition erc20ABI :: string where
  \<open>erc20ABI = source_lines
    [''['',
     [CHR 9, CHR 9] @ ''{"name":"approve","type":"function","stateMutability":"nonpayable",'',
     [CHR 9, CHR 9] @ '' "inputs":[{"name":"spender","type":"address"},{"name":"amount","type":"uint256"}],'',
     [CHR 9, CHR 9] @ '' "outputs":[{"type":"bool"}]},'',
     [CHR 9, CHR 9] @ ''{"name":"balanceOf","type":"function","stateMutability":"view",'',
     [CHR 9, CHR 9] @ '' "inputs":[{"name":"account","type":"address"}],'',
     [CHR 9, CHR 9] @ '' "outputs":[{"type":"uint256"}]}'',
     [CHR 9] @ '']'']\<close>

definition filecoinPayABI :: string where
  \<open>filecoinPayABI = source_lines
    [''['',
     [CHR 9, CHR 9] @ ''{"name":"deposit","type":"function","stateMutability":"nonpayable",'',
     [CHR 9, CHR 9] @ '' "inputs":[{"name":"token","type":"address"},{"name":"to","type":"address"},{"name":"amount","type":"uint256"}],'',
     [CHR 9, CHR 9] @ '' "outputs":[]},'',
     [CHR 9, CHR 9] @ ''{"name":"setOperatorApproval","type":"function","stateMutability":"nonpayable",'',
     [CHR 9, CHR 9] @ '' "inputs":[{"name":"token","type":"address"},{"name":"operator","type":"address"},{"name":"approved","type":"bool"},'',
     [CHR 9, CHR 9] @ ''           {"name":"rateAllowance","type":"uint256"},{"name":"lockupAllowance","type":"uint256"},'',
     [CHR 9, CHR 9] @ ''           {"name":"maxLockupPeriod","type":"uint256"}],'',
     [CHR 9, CHR 9] @ '' "outputs":[]},'',
     [CHR 9, CHR 9] @ ''{"name":"accounts","type":"function","stateMutability":"view",'',
     [CHR 9, CHR 9] @ '' "inputs":[{"name":"token","type":"address"},{"name":"owner","type":"address"}],'',
     [CHR 9, CHR 9] @ '' "outputs":[{"name":"funds","type":"uint256"},{"name":"lockupCurrent","type":"uint256"},'',
     [CHR 9, CHR 9] @ ''            {"name":"lockupRate","type":"uint256"},{"name":"lockupLastSettledAt","type":"uint256"}]}'',
     [CHR 9] @ '']'']\<close>

section \<open>Operations\<close>

definition parseKey :: "('k, 'a, 'b) eth_lib \<Rightarrow> string \<Rightarrow> go_error + 'k" where
  "parseKey lib hexKey =
     (case HexToECDSA lib (trim_prefix (trim_space hexKey) ''0x'') of
        Inl _ \<Rightarrow> Inl (Errorf ''payer key is not a valid secp256k1 private key'')
      | Inr key \<Rightarrow> Inr key)"

definition walletBalance :: "('w, 'c, 'k, 'a, 'b) eth_api \<Rightarrow> ('c, 'a, 'b) session \<Rightarrow> ('w, int) act" where
  "walletBalance eth s =
     bindE (mapErr (wrap ''read USDFC balance: '')
       (contract_Call eth (se_client s) (se_usdfc s) (se_erc20 s) ''balanceOf'' [AbiAddress (se_payer s)])) (\<lambda>out.
     case out of [] \<Rightarrow> panicE | v # _ \<Rightarrow> returnE v)"

definition accountFunds :: "('w, 'c, 'k, 'a, 'b) eth_api \<Rightarrow> ('c, 'a, 'b) session \<Rightarrow> ('w, int) act" where
  "accountFunds eth s =
     bindE (mapErr (wrap ''read FilecoinPay account: '')
       (contract_Call eth (se_client s) (se_filecoinPay s) (se_pay s) ''accounts''
          [AbiAddress (se_usdfc s), AbiAddress (se_payer s)])) (\<lambda>out.
     case out of [] \<Rightarrow> panicE | v # _ \<Rightarrow> returnE v)"

text \<open>The settings a session needs; \<open>order\<close> is the order this run visits the map in.\<close>

definition fund_settings :: "fund_config \<Rightarrow> (string \<times> string) list" where
  "fund_settings cfg =
     [(''RPC URL'', fc_RPCURL cfg), (''USDFC address'', fc_USDFC cfg),
      (''FilecoinPay address'', fc_FilecoinPay cfg), (''operator address'', fc_Operator cfg)]"

definition newSession ::
  "((string \<times> string) list \<Rightarrow> (string \<times> string) list) \<Rightarrow> ('w, 'c, 'k, 'a, 'b) eth_api \<Rightarrow> ('k, 'a, 'b) eth_lib
    \<Rightarrow> fund_config \<Rightarrow> string \<Rightarrow> fund_request \<Rightarrow> ('w, ('c, 'a, 'b) session) act" where
  "newSession order eth lib cfg payerKeyHex req =
     (case find (\<lambda>(name, v). v = []) (order (fund_settings cfg)) of
        Some (name, _) \<Rightarrow> failE (Errorf (name @ '' is not configured''))
      | None \<Rightarrow>
     bindE (parseE ''deposit: '' (ParseUSDFC (fr_Deposit req))) (\<lambda>deposit.
     bindE (parseE ''rate allowance: '' (ParseUSDFC (fr_RateAllowance req))) (\<lambda>rate.
     bindE (parseE ''lockup allowance: '' (ParseUSDFC (fr_LockupAllowance req))) (\<lambda>lockup.
     if deposit = 0 then failE (Errorf ''deposit is zero; nothing to fund'')
     else
     bindE (sumE (parseKey lib payerKeyHex)) (\<lambda>key.
     bindE (mapErr (wrap (''dial '' @ fc_RPCURL cfg @ '': '')) (DialContext eth (fc_RPCURL cfg))) (\<lambda>client.
     closeOnErr (eth_Close eth client)
       (bindE (mapErr (wrap ''read chain id: '') (eth_ChainID eth client)) (\<lambda>chainID.
        if big_Int64 chainID \<noteq> fc_ChainID cfg then
          failE (Errorf (''RPC reports chain '' @ itoa chainID @ '', expected '' @ itoa (fc_ChainID cfg)
            @ '': refusing to sign''))
        else
        bindE (parseE ''parse ERC20 ABI: '' (abi_JSON lib erc20ABI)) (\<lambda>erc20.
        bindE (parseE ''parse FilecoinPay ABI: '' (abi_JSON lib filecoinPayABI)) (\<lambda>pay.
        returnE \<lparr>se_client = client, se_erc20 = erc20, se_pay = pay,
          se_usdfc = HexToAddress lib (fc_USDFC cfg), se_filecoinPay = HexToAddress lib (fc_FilecoinPay cfg),
          se_operator = HexToAddress lib (fc_Operator cfg), se_payer = PubkeyToAddress lib key,
          se_chainID = chainID, se_deposit = deposit, se_rateAllowance = rate,
          se_lockupAllowance = lockup, se_forceDeposit = fr_ForceDeposit req\<rparr>))))))))))"

text \<open>The plan's wording, once both balances are read.\<close>

definition plan_actions :: "('k, 'a, 'b) eth_lib \<Rightarrow> ('c, 'a, 'b) session \<Rightarrow> int \<Rightarrow> bool \<Rightarrow> string list" where
  "plan_actions lib s funds skipDeposit =
     [''approve: let FilecoinPay pull '' @ FormatUSDFC (Some (se_deposit s)) @ '' USDFC from ''
        @ addr_Hex lib (se_payer s),
      (if skipDeposit then
         ''deposit: SKIPPED, account already holds '' @ FormatUSDFC (Some funds) @ '' USDFC''
       else ''deposit: credit '' @ FormatUSDFC (Some (se_deposit s)) @ '' USDFC to the payer's FilecoinPay account''),
      ''setOperatorApproval: let '' @ addr_Hex lib (se_operator s) @ '' lock up to ''
        @ FormatUSDFC (Some (se_lockupAllowance s)) @ '' USDFC at ''
        @ FormatUSDFC (Some (se_rateAllowance s)) @ '' USDFC/epoch'']"

definition session_plan ::
  "('w, 'c, 'k, 'a, 'b) eth_api \<Rightarrow> ('k, 'a, 'b) eth_lib \<Rightarrow> ('c, 'a, 'b) session \<Rightarrow> ('w, fund_plan) act" where
  "session_plan eth lib s =
     bindE (walletBalance eth s) (\<lambda>balance.
     bindE (accountFunds eth s) (\<lambda>funds.
     if balance < se_deposit s then
       failE (Errorf (''payer '' @ addr_Hex lib (se_payer s) @ '' holds '' @ FormatUSDFC (Some balance)
         @ '' USDFC, less than the '' @ FormatUSDFC (Some (se_deposit s))
         @ '' USDFC deposit; faucet it first at https://forest-explorer.chainsafe.dev/faucet/calibnet_usdfc''))
     else
       (let skipDeposit = funds \<ge> se_deposit s \<and> \<not> se_forceDeposit s in
        returnE \<lparr>fp_Payer = addr_Hex lib (se_payer s), fp_ChainID = big_Int64 (se_chainID s),
          fp_WalletBalance = FormatUSDFC (Some balance), fp_AccountFunds = FormatUSDFC (Some funds),
          fp_Actions = plan_actions lib s funds skipDeposit, fp_SkipDeposit = skipDeposit\<rparr>)))"

definition Prepare ::
  "((string \<times> string) list \<Rightarrow> (string \<times> string) list) \<Rightarrow> ('w, 'c, 'k, 'a, 'b) eth_api \<Rightarrow> ('k, 'a, 'b) eth_lib
    \<Rightarrow> fund_config \<Rightarrow> string \<Rightarrow> fund_request \<Rightarrow> ('w, fund_plan) act" where
  "Prepare order eth lib cfg payerKeyHex req =
     bindE (newSession order eth lib cfg payerKeyHex req) (\<lambda>s.
     deferE (eth_Close eth (se_client s)) (session_plan eth lib s))"

text \<open>The closure \<open>send\<close>; the transaction it would append to the result is its value.\<close>

definition fund_send ::
  "('w, 'c, 'k, 'a, 'b) eth_api \<Rightarrow> 'k \<times> int \<Rightarrow> 'c \<Rightarrow> string \<Rightarrow> 'a \<Rightarrow> 'b \<Rightarrow> string \<Rightarrow> 'a abi_value list
    \<Rightarrow> ('w, fund_transaction) act" where
  "fund_send eth auth client action addr abi method args =
     bindE (mapErr (wrap (action @ '': '')) (contract_Transact eth auth client addr abi method args)) (\<lambda>tx.
     bindE (mapErr (wrap (action @ '': waiting for receipt of '' @ tx @ '': '')) (WaitMined eth client tx)) (\<lambda>receipt.
     if rc_Status receipt \<noteq> 1 then
       failE (Errorf (action @ '': transaction '' @ tx @ '' reverted in block '' @ itoa (rc_BlockNumber receipt)))
     else returnE \<lparr>ft_Action = action, ft_Hash = tx, ft_Block = word_of_int (rc_BlockNumber receipt),
            ft_Status = rc_Status receipt\<rparr>))"

text \<open>The three calls of \<open>send\<close>; the transactions they append to the result, in order.\<close>

definition fund_broadcast ::
  "('w, 'c, 'k, 'a, 'b) eth_api \<Rightarrow> 'k \<Rightarrow> ('c, 'a, 'b) session \<Rightarrow> fund_request \<Rightarrow> bool
    \<Rightarrow> ('w, fund_transaction list) act" where
  "fund_broadcast eth key s req skipDeposit =
     (let send = fund_send eth (key, se_chainID s) (se_client s) in
      bindE (send ''approve'' (se_usdfc s) (se_erc20 s) ''approve''
               [AbiAddress (se_filecoinPay s), AbiUint (se_deposit s)]) (\<lambda>approved.
      bindE (if \<not> skipDeposit then
               bindE (send ''deposit'' (se_filecoinPay s) (se_pay s) ''deposit''
                 [AbiAddress (se_usdfc s), AbiAddress (se_payer s), AbiUint (se_deposit s)])
                 (\<lambda>tx. returnE [tx])
             else returnE []) (\<lambda>deposited.
      bindE (send ''setOperatorApproval'' (se_filecoinPay s) (se_pay s) ''setOperatorApproval''
               [AbiAddress (se_usdfc s), AbiAddress (se_operator s), AbiBool True,
                AbiUint (se_rateAllowance s), AbiUint (se_lockupAllowance s),
                AbiUint (uint (fr_MaxLockupPeriod req))]) (\<lambda>operator.
      returnE ([approved] @ deposited @ [operator])))))"

definition Execute ::
  "((string \<times> string) list \<Rightarrow> (string \<times> string) list) \<Rightarrow> ('w, 'c, 'k, 'a, 'b) eth_api \<Rightarrow> ('k, 'a, 'b) eth_lib
    \<Rightarrow> fund_config \<Rightarrow> string \<Rightarrow> fund_request \<Rightarrow> ('w, fund_result) act" where
  "Execute order eth lib cfg payerKeyHex req =
     bindE (newSession order eth lib cfg payerKeyHex req) (\<lambda>s.
     deferE (eth_Close eth (se_client s))
       (bindE (session_plan eth lib s) (\<lambda>plan.
        bindE (sumE (parseKey lib payerKeyHex)) (\<lambda>key.
        case transactor_error lib key (se_chainID s) of
          Some err \<Rightarrow> failE (wrap ''build transactor: '' err)
        | None \<Rightarrow>
        bindE (fund_broadcast eth key s req (fp_SkipDeposit plan)) (\<lambda>txs.
        bindE (accountFunds eth s) (\<lambda>funds.
        returnE (fund_plan.extend plan
          \<lparr>fres_Transactions = txs, fres_FundsAfter = FormatUSDFC (Some funds)\<rparr>)))))))"

section \<open>What the code relies on\<close>

text \<open>A transaction signed with the payer's key, and under which chain id.\<close>

record ('k, 'a) eth_tx =
  tx_key :: 'k
  tx_chain :: int
  tx_to :: 'a
  tx_method :: string
  tx_args :: "'a abi_value list"

text \<open>
  \<open>sent w\<close> is the log of signed transactions and \<open>held w a m args\<close> what the view method \<open>m\<close> of the
  contract at \<open>a\<close> answers. Reads change neither. A \<open>Transact\<close> that returns has sent its transaction;
  one that fails may have. The two methods the package calls have outputs.
\<close>

locale eth_chain =
  fixes eth :: "('w, 'c, 'k, 'a, 'b) eth_api"
    and sent :: "'w \<Rightarrow> ('k, 'a) eth_tx list"
    and held :: "'w \<Rightarrow> 'a \<Rightarrow> string \<Rightarrow> 'a abi_value list \<Rightarrow> int list"
  assumes dial: "wp (DialContext eth url)
      (\<lambda>_ w'. sent w' = sent w \<and> held w' = held w) (\<lambda>_ w'. sent w' = sent w \<and> held w' = held w) w"
    and close: "sent (eth_Close eth c w) = sent w" "held (eth_Close eth c w) = held w"
    and chain_id: "wp (eth_ChainID eth c)
      (\<lambda>_ w'. sent w' = sent w \<and> held w' = held w) (\<lambda>_ w'. sent w' = sent w \<and> held w' = held w) w"
    and call: "wp (contract_Call eth c a b m args)
      (\<lambda>out w'. sent w' = sent w \<and> held w' = held w \<and> out = held w a m args)
      (\<lambda>_ w'. sent w' = sent w \<and> held w' = held w) w"
    and outputs: "m = ''balanceOf'' \<or> m = ''accounts'' \<Longrightarrow> held w a m args \<noteq> []"
    and transact: "wp (contract_Transact eth (k, chain) c a b m args)
      (\<lambda>_ w'. sent w' = sent w @ [\<lparr>tx_key = k, tx_chain = chain, tx_to = a, tx_method = m, tx_args = args\<rparr>])
      (\<lambda>_ w'. sent w' = sent w
         \<or> sent w' = sent w @ [\<lparr>tx_key = k, tx_chain = chain, tx_to = a, tx_method = m, tx_args = args\<rparr>]) w"
    and mined: "wp (WaitMined eth c h) (\<lambda>_ w'. sent w' = sent w) (\<lambda>_ w'. sent w' = sent w) w"

text \<open>A session made from this configuration, key and request.\<close>

definition fund_session ::
  "('k, 'a, 'b) eth_lib \<Rightarrow> fund_config \<Rightarrow> string \<Rightarrow> fund_request \<Rightarrow> ('c, 'a, 'b) session \<Rightarrow> 'k \<Rightarrow> bool" where
  "fund_session lib cfg hex req s key \<longleftrightarrow>
     parseKey lib hex = Inr key \<and> se_payer s = PubkeyToAddress lib key
     \<and> ParseUSDFC (fr_Deposit req) = Inr (se_deposit s) \<and> 0 < se_deposit s
     \<and> ParseUSDFC (fr_RateAllowance req) = Inr (se_rateAllowance s)
     \<and> ParseUSDFC (fr_LockupAllowance req) = Inr (se_lockupAllowance s)
     \<and> se_usdfc s = HexToAddress lib (fc_USDFC cfg) \<and> se_filecoinPay s = HexToAddress lib (fc_FilecoinPay cfg)
     \<and> se_operator s = HexToAddress lib (fc_Operator cfg) \<and> se_forceDeposit s = fr_ForceDeposit req
     \<and> big_Int64 (se_chainID s) = fc_ChainID cfg \<and> (\<forall>(name, v) \<in> set (fund_settings cfg). v \<noteq> [])"

text \<open>The transactions of a session, in order.\<close>

definition fund_txs :: "('c, 'a, 'b) session \<Rightarrow> 'k \<Rightarrow> fund_request \<Rightarrow> bool \<Rightarrow> ('k, 'a) eth_tx list" where
  "fund_txs s key req skip =
     (let tx = (\<lambda>a m args. \<lparr>tx_key = key, tx_chain = se_chainID s, tx_to = a, tx_method = m, tx_args = args\<rparr>) in
      [tx (se_usdfc s) ''approve'' [AbiAddress (se_filecoinPay s), AbiUint (se_deposit s)]]
      @ (if skip then [] else
           [tx (se_filecoinPay s) ''deposit''
             [AbiAddress (se_usdfc s), AbiAddress (se_payer s), AbiUint (se_deposit s)]])
      @ [tx (se_filecoinPay s) ''setOperatorApproval''
           [AbiAddress (se_usdfc s), AbiAddress (se_operator s), AbiBool True, AbiUint (se_rateAllowance s),
            AbiUint (se_lockupAllowance s), AbiUint (uint (fr_MaxLockupPeriod req))]])"

text \<open>The two balances of a session, out of what the chain answers.\<close>

definition wallet_of :: "('a \<Rightarrow> string \<Rightarrow> 'a abi_value list \<Rightarrow> int list) \<Rightarrow> ('c, 'a, 'b) session \<Rightarrow> int" where
  "wallet_of answers s = hd (answers (se_usdfc s) ''balanceOf'' [AbiAddress (se_payer s)])"

definition funds_of :: "('a \<Rightarrow> string \<Rightarrow> 'a abi_value list \<Rightarrow> int list) \<Rightarrow> ('c, 'a, 'b) session \<Rightarrow> int" where
  "funds_of answers s = hd (answers (se_filecoinPay s) ''accounts'' [AbiAddress (se_usdfc s), AbiAddress (se_payer s)])"

lemma ParseUSDFC_nonneg: "ParseUSDFC s = Inr v \<Longrightarrow> 0 \<le> v"
  by (drule ParseUSDFC_Inr_literal) (auto simp: usdfc_value_def)

context eth_chain
begin

abbreviation same :: "'w \<Rightarrow> 'w \<Rightarrow> bool" where
  "same w w' \<equiv> sent w' = sent w \<and> held w' = held w"

lemma wp_newSession:
  assumes "\<And>l. set (order l) = set l"
  shows "wp (newSession order eth lib cfg hex req)
      (\<lambda>s w'. same w w' \<and> (\<exists>key. fund_session lib cfg hex req s key)) (\<lambda>_ w'. same w w') w"
proof (cases "find (\<lambda>(name, v). v = []) (order (fund_settings cfg))")
  case (Some x)
  then show ?thesis by (cases x) (simp add: newSession_def wp_simps)
next
  case None
  then have set: "\<forall>(name, v) \<in> set (fund_settings cfg). v \<noteq> []"
    using assms [of "fund_settings cfg"] by (auto simp: find_None_iff)
  show ?thesis
    unfolding newSession_def None option.case wp_simps
  proof (auto split!: sum.splits, goal_cases)
    case (1 deposit rate lockup key)
    then have "0 < deposit" using ParseUSDFC_nonneg [of _ deposit] by force
    show ?case
    proof (rule wp_weaken [OF dial], goal_cases)
      case (1 client w1)
      then have w1: "same w w1" by simp
      show ?case
      proof (rule wp_weaken [OF chain_id], goal_cases)
        case (1 chain w2)
        then show ?case
          using w1 \<open>0 < deposit\<close> set \<open>parseKey lib hex = Inr key\<close>
            \<open>ParseUSDFC (fr_Deposit req) = Inr deposit\<close> \<open>ParseUSDFC (fr_RateAllowance req) = Inr rate\<close>
            \<open>ParseUSDFC (fr_LockupAllowance req) = Inr lockup\<close>
          by (auto simp: close fund_session_def split: sum.splits)
      qed (use w1 in \<open>simp add: close\<close>)
    qed simp
  qed
qed

lemma wp_balances:
  "wp (walletBalance eth s) (\<lambda>v w'. same w w' \<and> v = wallet_of (held w) s) (\<lambda>_ w'. same w w') w"
  "wp (accountFunds eth s) (\<lambda>v w'. same w w' \<and> v = funds_of (held w) s) (\<lambda>_ w'. same w w') w"
  unfolding walletBalance_def accountFunds_def wallet_of_def funds_of_def
  by (rule wp_bind_mapErr [OF call]; auto simp: wp_simps split: list.split dest: outputs [THEN notE, rotated])+

lemma wp_session_plan:
  "wp (session_plan eth lib s)
     (\<lambda>plan w'. same w w' \<and> se_deposit s \<le> wallet_of (held w) s
        \<and> plan = \<lparr>fp_Payer = addr_Hex lib (se_payer s), fp_ChainID = big_Int64 (se_chainID s),
            fp_WalletBalance = FormatUSDFC (Some (wallet_of (held w) s)),
            fp_AccountFunds = FormatUSDFC (Some (funds_of (held w) s)),
            fp_Actions = plan_actions lib s (funds_of (held w) s)
              (se_deposit s \<le> funds_of (held w) s \<and> \<not> se_forceDeposit s),
            fp_SkipDeposit = (se_deposit s \<le> funds_of (held w) s \<and> \<not> se_forceDeposit s)\<rparr>)
     (\<lambda>_ w'. same w w') w"
  unfolding session_plan_def
proof (rule wp_bindI [OF wp_balances(1)], goal_cases)
  case (1 balance w1)
  then show ?case
    by (intro wp_bindI [OF wp_balances(2)]) (auto simp: wp_simps Let_def)
qed simp

lemma wp_Prepare:
  assumes "\<And>l. set (order l) = set l"
  shows "wp (Prepare order eth lib cfg hex req)
      (\<lambda>plan w'. same w w' \<and> (\<exists>(s :: ('c, 'a, 'b) session) key. fund_session lib cfg hex req s key
         \<and> se_deposit s \<le> wallet_of (held w) s
         \<and> fp_SkipDeposit plan = (se_deposit s \<le> funds_of (held w) s \<and> \<not> fr_ForceDeposit req)
         \<and> fp_Actions plan = plan_actions lib s (funds_of (held w) s) (fp_SkipDeposit plan)))
      (\<lambda>_ w'. same w w') w"
  unfolding Prepare_def
proof (rule wp_bindI [OF wp_newSession [OF assms]], goal_cases)
  case (1 s w1)
  then have w1: "same w w1" by blast
  from 1 obtain key where key: "fund_session lib cfg hex req s key" by blast
  then have force: "se_forceDeposit s = fr_ForceDeposit req" by (simp add: fund_session_def)
  show ?case
    unfolding wp_deferE
    by (rule wp_weaken [OF wp_session_plan]) (use w1 key force in \<open>auto simp: close\<close>)
qed

lemma wp_fund_send:
  "wp (fund_send eth (k, chain) c action a b m args)
     (\<lambda>tx w'. sent w' = sent w @ [\<lparr>tx_key = k, tx_chain = chain, tx_to = a, tx_method = m, tx_args = args\<rparr>]
        \<and> ft_Action tx = action \<and> ft_Status tx = 1)
     (\<lambda>_ w'. sent w' = sent w
        \<or> sent w' = sent w @ [\<lparr>tx_key = k, tx_chain = chain, tx_to = a, tx_method = m, tx_args = args\<rparr>]) w"
  unfolding fund_send_def
proof (rule wp_bind_mapErr [OF transact], goal_cases)
  case (2 h w1)
  then show ?case
    by (intro wp_bind_mapErr [OF mined]) (auto simp: wp_simps)
qed

lemma wp_fund_broadcast:
  "wp (fund_broadcast eth key s req skip)
     (\<lambda>txs w'. sent w' = sent w @ fund_txs s key req skip
        \<and> map ft_Action txs = map tx_method (fund_txs s key req skip) \<and> (\<forall>tx \<in> set txs. ft_Status tx = 1))
     (\<lambda>_ w'. \<exists>txs. prefix txs (fund_txs s key req skip) \<and> sent w' = sent w @ txs) w" (is "wp _ ?Q ?E w")
proof -
  obtain approve deposits operator where
    txs: "fund_txs s key req skip = [approve] @ deposits @ [operator]"
    and approve: "approve = \<lparr>tx_key = key, tx_chain = se_chainID s, tx_to = se_usdfc s, tx_method = ''approve'',
        tx_args = [AbiAddress (se_filecoinPay s), AbiUint (se_deposit s)]\<rparr>"
    and deposits: "deposits = (if skip then [] else [\<lparr>tx_key = key, tx_chain = se_chainID s,
        tx_to = se_filecoinPay s, tx_method = ''deposit'',
        tx_args = [AbiAddress (se_usdfc s), AbiAddress (se_payer s), AbiUint (se_deposit s)]\<rparr>])"
    and operator: "operator = \<lparr>tx_key = key, tx_chain = se_chainID s, tx_to = se_filecoinPay s,
        tx_method = ''setOperatorApproval'',
        tx_args = [AbiAddress (se_usdfc s), AbiAddress (se_operator s), AbiBool True, AbiUint (se_rateAllowance s),
          AbiUint (se_lockupAllowance s), AbiUint (uint (fr_MaxLockupPeriod req))]\<rparr>"
    by (simp add: fund_txs_def Let_def)
  have err: "?E e w'" if "sent w' = sent w @ txs" "prefix txs ([approve] @ deposits @ [operator])" for e w' txs
    using that txs by metis
  show ?thesis
    unfolding fund_broadcast_def Let_def
  proof (rule wp_bindI [OF wp_fund_send], goal_cases)
    case (1 approved w1)
    then have w1: "sent w1 = sent w @ [approve]" and a: "ft_Action approved = ''approve''" "ft_Status approved = 1"
      using approve by auto
    show ?case
    proof (rule wp_bindI [where ?Q1.0 = "\<lambda>ds w2. sent w2 = sent w @ [approve] @ deposits
          \<and> map ft_Action ds = map tx_method deposits \<and> (\<forall>tx \<in> set ds. ft_Status tx = 1)"
        and ?E1.0 = "\<lambda>e w2. sent w2 = sent w @ [approve] \<or> sent w2 = sent w @ [approve] @ deposits"], goal_cases)
      case 1
      show ?case
        by (intro wp_ifI wp_bindI [OF wp_fund_send]) (auto simp: wp_returnE w1 deposits)
    next
      case (2 ds w2)
      then show ?case
        using a by (intro wp_bindI [OF wp_fund_send])
          (auto simp: wp_returnE txs approve operator intro: err [of _ "[approve] @ deposits"]
            err [of _ "[approve] @ deposits @ [operator]"])
    next
      case (3 e w2)
      then show ?case using err [of w2 "[approve]"] err [of w2 "[approve] @ deposits"] by auto
    qed
  next
    case (2 e w1)
    then show ?case using err [of w1 "[]"] err [of w1 "[approve]"] approve by auto
  qed
qed

lemma wp_Execute:
  assumes "\<And>l. set (order l) = set l"
  shows "wp (Execute order eth lib cfg hex req)
      (\<lambda>res w'. \<exists>(s :: ('c, 'a, 'b) session) key. fund_session lib cfg hex req s key
         \<and> se_deposit s \<le> wallet_of (held w) s
         \<and> fp_SkipDeposit res = (se_deposit s \<le> funds_of (held w) s \<and> \<not> fr_ForceDeposit req)
         \<and> sent w' = sent w @ fund_txs s key req (fp_SkipDeposit res)
         \<and> map ft_Action (fres_Transactions res) = map tx_method (fund_txs s key req (fp_SkipDeposit res))
         \<and> (\<forall>tx \<in> set (fres_Transactions res). ft_Status tx = 1))
      (\<lambda>_ w'. sent w' = sent w \<or> (\<exists>(s :: ('c, 'a, 'b) session) key txs. fund_session lib cfg hex req s key
         \<and> se_deposit s \<le> wallet_of (held w) s
         \<and> prefix txs (fund_txs s key req (se_deposit s \<le> funds_of (held w) s \<and> \<not> fr_ForceDeposit req))
         \<and> sent w' = sent w @ txs)) w" (is "wp _ ?Q ?E w")
  unfolding Execute_def
proof (rule wp_bindI [OF wp_newSession [OF assms]], goal_cases)
  case (1 s w1)
  then have w1: "same w w1" by blast
  from 1 obtain key where s: "fund_session lib cfg hex req s key" by blast
  then have key: "parseKey lib hex = Inr key" and force: "se_forceDeposit s = fr_ForceDeposit req"
    by (simp_all add: fund_session_def)
  show ?case
    unfolding wp_deferE
  proof (rule wp_bindI [OF wp_session_plan], goal_cases)
    case (1 plan w2)
    then have w2: "same w w2" and enough: "se_deposit s \<le> wallet_of (held w) s"
      and skip: "fp_SkipDeposit plan = (se_deposit s \<le> funds_of (held w) s \<and> \<not> fr_ForceDeposit req)"
      using w1 force by auto
    have err: "?E e (eth_Close eth (se_client s) w')"
      if "prefix txs (fund_txs s key req (fp_SkipDeposit plan))" "sent w' = sent w @ txs" for e w' txs
      unfolding close using that s enough
      by (intro disjI2 exI [of _ s] exI [of _ key] exI [of _ txs]) (simp add: skip)
    show ?case
    proof (cases "transactor_error lib key (se_chainID s)")
      case (Some e)
      then show ?thesis using w2 by (simp add: key wp_simps close)
    next
      case None
      show ?thesis
        unfolding key None wp_bindE [of "sumE (Inr key)"] wp_sumE sum.case option.case
      proof (rule wp_bindI [OF wp_fund_broadcast], goal_cases)
        case (1 txs w3)
        then have w3: "sent w3 = sent w @ fund_txs s key req (fp_SkipDeposit plan)" using w2 by simp
        show ?case
        proof (rule wp_bindI [OF wp_balances(2)], goal_cases)
          case (1 funds w4)
          then show ?case
            unfolding wp_returnE
            by (intro exI [of _ s] exI [of _ key])
              (use s enough skip w3 \<open>sent w3 = _ \<and> _\<close> in \<open>simp add: fund_plan.defs close\<close>)
        qed (use err w3 in auto)
      next
        case (2 e w3)
        then show ?case using err w2 by auto
      qed
    qed
  qed (use w1 in \<open>simp add: close\<close>)
qed simp

end

section \<open>A chain in memory\<close>

record fake_chain =
  ch_log :: "(string, string) eth_tx list"
  ch_wallet :: int
  ch_funds :: int
  ch_id :: int

definition fake_lib :: "(string, string, string) eth_lib" where
  "fake_lib =
     \<lparr>HexToECDSA = \<lambda>s. if s = [] then Inl (Errorf ''invalid length'') else Inr s,
      PubkeyToAddress = \<lambda>k. ''address-of-'' @ k, HexToAddress = \<lambda>s. s, addr_Hex = \<lambda>a. a,
      abi_JSON = \<lambda>s. Inr s, transactor_error = \<lambda>_ _. None\<rparr>"

definition fake_answers :: "fake_chain \<Rightarrow> string \<Rightarrow> string \<Rightarrow> string abi_value list \<Rightarrow> int list" where
  "fake_answers f a m args =
     (if m = ''balanceOf'' then [ch_wallet f] else if m = ''accounts'' then [ch_funds f, 0, 0, 0] else [])"

definition fake_apply :: "(string, string) eth_tx \<Rightarrow> fake_chain \<Rightarrow> fake_chain" where
  "fake_apply tx f =
     (case tx_args tx of
        [AbiAddress _, AbiAddress _, AbiUint n] \<Rightarrow>
          f\<lparr>ch_log := ch_log f @ [tx], ch_wallet := ch_wallet f - n, ch_funds := ch_funds f + n\<rparr>
      | _ \<Rightarrow> f\<lparr>ch_log := ch_log f @ [tx]\<rparr>)"

definition fake_eth :: "(fake_chain, unit, string, string, string) eth_api" where
  "fake_eth =
     \<lparr>DialContext = \<lambda>url f. (Ok (), f), eth_Close = \<lambda>c f. f, eth_ChainID = \<lambda>c f. (Ok (ch_id f), f),
      contract_Call = \<lambda>c a b m args f. (Ok (fake_answers f a m args), f),
      contract_Transact = \<lambda>(k, chain) c a b m args f. (Ok (''0x'' @ m),
        fake_apply \<lparr>tx_key = k, tx_chain = chain, tx_to = a, tx_method = m, tx_args = args\<rparr> f),
      WaitMined = \<lambda>c h f. (Ok \<lparr>rc_Status = 1, rc_BlockNumber = 7\<rparr>, f)\<rparr>"

lemma fake_apply_log [simp]: "ch_log (fake_apply tx f) = ch_log f @ [tx]"
  by (auto simp: fake_apply_def split: list.split abi_value.split)

interpretation fake_chain: eth_chain fake_eth ch_log fake_answers
  by unfold_locales (auto simp: fake_eth_def wp_def fake_answers_def)

section \<open>Properties\<close>

text \<open>
  C12. What \<open>Execute\<close> signs. If it succeeds it has sent exactly approve, deposit (unless the account
  holds enough and the deposit is not forced) and setOperatorApproval, in this order, each mined with
  status 1, from the configured contracts and the amounts the request spells. If it fails it has sent
  at most a first part of them. Nothing is ever sent unless the deposit is positive, the wallet holds
  it, every setting is there and the chain id is the configured one in its low 64 bits.
\<close>

theorem Execute_sends_the_plan:
  assumes "eth_chain eth sent held" and "\<And>l. set (order l) = set l"
  shows "wp (Execute order (eth :: ('w, 'c, 'k, 'a, 'b) eth_api) lib cfg hex req)
      (\<lambda>res w'. \<exists>(s :: ('c, 'a, 'b) session) key. fund_session lib cfg hex req s key
         \<and> se_deposit s \<le> wallet_of (held w) s
         \<and> fp_SkipDeposit res = (se_deposit s \<le> funds_of (held w) s \<and> \<not> fr_ForceDeposit req)
         \<and> sent w' = sent w @ fund_txs s key req (fp_SkipDeposit res)
         \<and> map ft_Action (fres_Transactions res) = map tx_method (fund_txs s key req (fp_SkipDeposit res))
         \<and> (\<forall>tx \<in> set (fres_Transactions res). ft_Status tx = 1))
      (\<lambda>_ w'. sent w' = sent w \<or> (\<exists>(s :: ('c, 'a, 'b) session) key txs. fund_session lib cfg hex req s key
         \<and> se_deposit s \<le> wallet_of (held w) s
         \<and> prefix txs (fund_txs s key req (se_deposit s \<le> funds_of (held w) s \<and> \<not> fr_ForceDeposit req))
         \<and> sent w' = sent w @ txs)) w"
  by (rule eth_chain.wp_Execute [OF assms])

definition test_fund_config :: fund_config where
  "test_fund_config =
     \<lparr>fc_RPCURL = ''rpc'', fc_ChainID = 314159, fc_USDFC = ''usdfc'', fc_FilecoinPay = ''pay'', fc_Operator = ''fwss''\<rparr>"

definition test_fund_request :: fund_request where
  "test_fund_request =
     \<lparr>fr_Deposit = ''3'', fr_RateAllowance = ''0.1'', fr_LockupAllowance = ''3'', fr_MaxLockupPeriod = 86400,
      fr_ForceDeposit = False\<rparr>"

definition test_chain :: "int \<Rightarrow> fake_chain" where
  "test_chain chain =
     \<lparr>ch_log = [], ch_wallet = 5 * 10 ^ 18, ch_funds = 0, ch_id = chain\<rparr>"

lemmas fake_fund_defs = fake_eth_def fake_lib_def fake_answers_def fake_apply_def test_fund_config_def
  test_fund_request_def test_chain_def

lemma parse_test_amounts:
  "ParseUSDFC ''3'' = Inr (3 * 10 ^ 18)" "ParseUSDFC ''0.1'' = Inr (10 ^ 17)"
proof -
  have "usdfc_literal (trim_space ''3'') [] ''3'' []" "usdfc_literal (trim_space ''0.1'') [] ''0'' ''1''"
    by (simp_all add: trim_space_plain plain_char_def usdfc_literal_def is_digit_def usdfcDecimals_def)
  from this [THEN ParseUSDFC_literal]
  show "ParseUSDFC ''3'' = Inr (3 * 10 ^ 18)" "ParseUSDFC ''0.1'' = Inr (10 ^ 17)"
    by (simp_all add: usdfc_value_def digits_val_def digit_val_def usdfcDecimals_def)
qed

lemma test_key: "parseKey fake_lib ''0xkey'' = Inr ''key''"
proof -
  have "trim_space ''0xkey'' = ''0xkey''" by (simp add: trim_space_plain plain_char_def)
  then show ?thesis by (simp add: parseKey_def fake_lib_def trim_prefix_def)
qed

lemma test_chain_id: "big_Int64 314159 = 314159" "big_Int64 (2 ^ 64 + 314159) = 314159"
  by (simp_all add: big_Int64_def)

definition test_session :: "int \<Rightarrow> (unit, string, string) session" where
  "test_session chain =
     \<lparr>se_client = (), se_erc20 = erc20ABI, se_pay = filecoinPayABI, se_usdfc = ''usdfc'',
      se_filecoinPay = ''pay'', se_operator = ''fwss'', se_payer = ''address-of-key'', se_chainID = chain,
      se_deposit = 3 * 10 ^ 18, se_rateAllowance = 10 ^ 17, se_lockupAllowance = 3 * 10 ^ 18,
      se_forceDeposit = False\<rparr>"

lemma test_newSession:
  "newSession rev fake_eth fake_lib test_fund_config ''0xkey'' test_fund_request (test_chain chain) =
     (if big_Int64 chain = 314159 then
        (Ok (test_session chain), test_chain chain)
      else (Fail (Errorf (''RPC reports chain '' @ itoa chain @ '', expected '' @ itoa 314159 @ '': refusing to sign'')),
        test_chain chain))"
  using test_key
  by (simp add: newSession_def fund_settings_def parseE_def sumE_def mapErr_def closeOnErr_def bindE_def returnE_def
      failE_def fake_fund_defs parse_test_amounts test_session_def)

lemma fake_eth_select [simp]:
  "eth_Close fake_eth c f = f" "contract_Call fake_eth c a b m args f = (Ok (fake_answers f a m args), f)"
  "contract_Transact fake_eth (k, chain) c a b m args f = (Ok (''0x'' @ m),
     fake_apply \<lparr>tx_key = k, tx_chain = chain, tx_to = a, tx_method = m, tx_args = args\<rparr> f)"
  "WaitMined fake_eth c h f = (Ok \<lparr>rc_Status = 1, rc_BlockNumber = 7\<rparr>, f)"
  "transactor_error fake_lib k chain = None"
  by (simp_all add: fake_eth_def fake_lib_def)

lemma test_plan:
  assumes "se_deposit s = 3 * 10 ^ 18" "\<not> se_forceDeposit s"
  shows "\<exists>plan. session_plan fake_eth fake_lib s (test_chain chain) = (Ok plan, test_chain chain) \<and> \<not> fp_SkipDeposit plan"
  using assms by (simp add: session_plan_def walletBalance_def accountFunds_def bindE_def mapErr_def returnE_def
      fake_answers_def test_chain_def Let_def)

theorem Execute_sends_the_plan_witness:
  "\<exists>res w'. Execute rev fake_eth fake_lib test_fund_config ''0xkey'' test_fund_request (test_chain 314159) = (Ok res, w')
     \<and> map tx_method (ch_log w') = [''approve'', ''deposit'', ''setOperatorApproval'']
     \<and> map ft_Action (fres_Transactions res) = [''approve'', ''deposit'', ''setOperatorApproval'']"
proof -
  let ?run = "Execute rev fake_eth fake_lib test_fund_config ''0xkey'' test_fund_request"
  obtain plan where plan: "session_plan fake_eth fake_lib (test_session 314159) (test_chain 314159)
      = (Ok plan, test_chain 314159)" and "\<not> fp_SkipDeposit plan"
    using test_plan [of "test_session 314159" 314159] by (auto simp: test_session_def)
  then obtain res w' where run: "?run (test_chain 314159) = (Ok res, w')" and skip: "\<not> fp_SkipDeposit res"
    by (simp add: Execute_def bindE_def test_newSession test_chain_id deferE_def sumE_def returnE_def
        test_key fund_broadcast_def fund_send_def mapErr_def accountFunds_def fake_answers_def Let_def fund_plan.defs)
  have "set (rev l) = set l" for l :: "(string \<times> string) list" by simp
  note ex = Execute_sends_the_plan [OF fake_chain.eth_chain_axioms this, where w = "test_chain 314159", THEN wp_OkD, OF run]
  then obtain s :: "(unit, string, string) session" and key where
    "ch_log w' = ch_log (test_chain 314159) @ fund_txs s key test_fund_request False"
    "map ft_Action (fres_Transactions res) = map tx_method (fund_txs s key test_fund_request False)"
    using skip by auto
  then show ?thesis
    using run by (auto simp: fund_txs_def Let_def test_chain_def)
qed

text \<open>
  C30. \<open>Prepare\<close> signs nothing: whatever it returns, no transaction was sent and the chain is as it
  was. The plan it reports describes what \<open>Execute\<close> would then send, and there is one only if the
  wallet holds the deposit.
\<close>

theorem Prepare_signs_nothing:
  assumes "eth_chain eth sent held" and "\<And>l. set (order l) = set l"
  shows "wp (Prepare order (eth :: ('w, 'c, 'k, 'a, 'b) eth_api) lib cfg hex req)
      (\<lambda>plan w'. sent w' = sent w \<and> held w' = held w
         \<and> (\<exists>(s :: ('c, 'a, 'b) session) key. fund_session lib cfg hex req s key
         \<and> se_deposit s \<le> wallet_of (held w) s
         \<and> fp_SkipDeposit plan = (se_deposit s \<le> funds_of (held w) s \<and> \<not> fr_ForceDeposit req)
         \<and> fp_Actions plan = plan_actions lib s (funds_of (held w) s) (fp_SkipDeposit plan)))
      (\<lambda>_ w'. sent w' = sent w \<and> held w' = held w) w"
  using eth_chain.wp_Prepare [OF assms] by (rule wp_weaken) auto

theorem Prepare_signs_nothing_witness:
  "\<exists>plan w'. Prepare rev fake_eth fake_lib test_fund_config ''0xkey'' test_fund_request (test_chain 314159) = (Ok plan, w')
     \<and> ch_log w' = [] \<and> fp_SkipDeposit plan = False"
proof -
  let ?run = "Prepare rev fake_eth fake_lib test_fund_config ''0xkey'' test_fund_request"
  obtain plan w' where run: "?run (test_chain 314159) = (Ok plan, w')" and skip: "\<not> fp_SkipDeposit plan"
    using test_plan [of "test_session 314159" 314159]
    by (auto simp: Prepare_def bindE_def test_newSession test_chain_id deferE_def test_session_def)
  have "set (rev l) = set l" for l :: "(string \<times> string) list" by simp
  from Prepare_signs_nothing [OF fake_chain.eth_chain_axioms this, where w = "test_chain 314159", THEN wp_OkD, OF run]
  show ?thesis using run skip by (simp add: test_chain_def)
qed



end
