(* ===== verification/Provision.thy ===== *)
theory Provision
imports Fund OnboardClients
begin

text \<open>
  \<open>cmd/provision/main.go\<close>: what every phase takes and returns. The data the phases report
  (\<open>TokenPlan\<close>, \<open>RetirePlan\<close>, \<open>ResetAppsPlan\<close> and their results) is here because \<open>Response\<close> holds it.
  A nil pointer is \<open>None\<close>; a nil slice and an empty one are the same list.
\<close>

section \<open>The event\<close>

record provision_request =
  rq_Phase :: string
  rq_Trigger :: string
  rq_ApplianceRegions :: "string list"
  rq_RetiredApplianceRegions :: "string list"
  rq_Region :: string
  rq_NodeCIDR :: string
  rq_Period :: string
  rq_WrapTTL :: string
  rq_Reissue :: bool
  rq_PiriDID :: string
  rq_PiriURL :: string
  rq_IngotDID :: string
  rq_PiriProof :: string
  rq_PiriProofB64 :: string
  rq_Weight :: int
  rq_ReplicationWeight :: int
  rq_Confirm :: bool
  rq_Deposit :: string
  rq_LockupAllowance :: string
  rq_RateAllowance :: string
  rq_MaxLockupPeriod :: "64 word"
  rq_ForceDeposit :: bool

section \<open>What the phases report\<close>

record token_plan =
  tp_Region :: string
  tp_Action :: string
  tp_Accessor :: string
  tp_TokenLive :: bool
  tp_NodeCIDR :: string
  tp_Period :: string
  tp_WrapTTL :: string

record token_result =
  tr_Region :: string
  tr_WrappingToken :: string
  tr_Accessor :: string
  tr_WrapTTL :: string
  tr_Period :: string
  tr_NodeCIDR :: string
  tr_UnsealAddress :: string

record retire_plan =
  rp_Region :: string
  rp_ProviderDID :: string
  rp_Rows :: "(string, int) go_map"
  rp_Parameters :: "string list"

record retire_result =
  rr_Region :: string
  rr_ProviderDID :: string
  rr_Rows :: "(string, int) go_map"
  rr_Parameters :: "string list"

record reset_apps_plan =
  rap_Stage :: string
  rap_Databases :: "string list"
  rap_HiltSecrets :: int

record reset_apps_result =
  rar_Stage :: string
  rar_Dropped :: "string list"
  rar_Recreated :: "string list"
  rar_HiltSecretsDestroyed :: int

record response =
  rs_Phase :: string
  rs_DIDs :: "(string, string) go_map"
  rs_Addresses :: "(string, string) go_map"
  rs_Secrets :: "(string, (string, string) go_map) go_map"
  rs_Databases :: "string list"
  rs_Created :: "string list"
  rs_Initialised :: bool
  rs_ApplianceKeys :: "string list"
  rs_RetiredAppliances :: "string list"
  rs_DryRun :: bool
  rs_FundPlan :: "fund_plan option"
  rs_FundResult :: "fund_result option"
  rs_TokenPlan :: "token_plan option"
  rs_TokenResult :: "token_result option"
  rs_OnboardPlan :: "onboard_plan option"
  rs_OnboardResult :: "onboard_result option"
  rs_RetirePlan :: "retire_plan option"
  rs_RetireResult :: "retire_result option"
  rs_ResetAppsPlan :: "reset_apps_plan option"
  rs_ResetAppsResult :: "reset_apps_result option"

text \<open>\<open>&Response{Phase: phase}\<close>.\<close>

definition response_of :: "string \<Rightarrow> response" where
  "response_of phase =
     \<lparr>rs_Phase = phase, rs_DIDs = [], rs_Addresses = [], rs_Secrets = [], rs_Databases = [], rs_Created = [],
      rs_Initialised = False, rs_ApplianceKeys = [], rs_RetiredAppliances = [], rs_DryRun = False,
      rs_FundPlan = None, rs_FundResult = None, rs_TokenPlan = None, rs_TokenResult = None,
      rs_OnboardPlan = None, rs_OnboardResult = None, rs_RetirePlan = None, rs_RetireResult = None,
      rs_ResetAppsPlan = None, rs_ResetAppsResult = None\<rparr>"

definition addSecret :: "response \<Rightarrow> string \<Rightarrow> string \<Rightarrow> string \<Rightarrow> response" where
  "addSecret r service name arn =
     (let secrets = (case map_of (rs_Secrets r) service of None \<Rightarrow> [] | Some m \<Rightarrow> m) in
      r\<lparr>rs_Secrets := AList.update service (AList.update name arn secrets) (rs_Secrets r)\<rparr>)"

section \<open>What every phase has\<close>

text \<open>\<open>deps\<close>: the configuration, the two stores, and the Secrets Manager client that reads the RDS master secret.\<close>

record 'w deps =
  dp_cfg :: config
  dp_store :: "'w ssm_store"
  dp_keys :: "'w secret_store"
  dp_secrets :: "'w secrets_api"

definition valueOr :: "string \<Rightarrow> string \<Rightarrow> string" where
  "valueOr v fallback = (if v = [] then fallback else v)"

definition uint64OrDefault :: "64 word \<Rightarrow> 64 word \<Rightarrow> 64 word" where
  "uint64OrDefault v fallback = (if v = 0 then fallback else v)"

definition intOrDefault :: "int \<Rightarrow> int \<Rightarrow> int" where
  "intOrDefault v fallback = (if v = 0 then fallback else v)"

section \<open>The fund phase\<close>

definition defaultDeposit :: string where "defaultDeposit = ''3''"
definition defaultLockupAllowance :: string where "defaultLockupAllowance = ''3''"
definition defaultRateAllowance :: string where "defaultRateAllowance = ''0.1''"
definition defaultMaxLockupPeriod :: "64 word" where "defaultMaxLockupPeriod = 86400"

definition fund_config_of :: "config \<Rightarrow> fund_config" where
  "fund_config_of cfg =
     \<lparr>fc_RPCURL = cfg_ChainRPCURL cfg, fc_ChainID = cfg_ChainID cfg, fc_USDFC = cfg_USDFCAddress cfg,
      fc_FilecoinPay = cfg_FilecoinPayAddress cfg, fc_Operator = cfg_FWSSAddress cfg\<rparr>"

definition fund_request_of :: "provision_request \<Rightarrow> fund_request" where
  "fund_request_of req =
     \<lparr>fr_Deposit = valueOr (rq_Deposit req) defaultDeposit,
      fr_RateAllowance = valueOr (rq_RateAllowance req) defaultRateAllowance,
      fr_LockupAllowance = valueOr (rq_LockupAllowance req) defaultLockupAllowance,
      fr_MaxLockupPeriod = uint64OrDefault (rq_MaxLockupPeriod req) defaultMaxLockupPeriod,
      fr_ForceDeposit = rq_ForceDeposit req\<rparr>"

definition fundPhase ::
  "((string \<times> string) list \<Rightarrow> (string \<times> string) list) \<Rightarrow> ('w, 'c, 'k, 'a, 'b) eth_api \<Rightarrow> ('k, 'a, 'b) eth_lib
    \<Rightarrow> 'w deps \<Rightarrow> provision_request \<Rightarrow> ('w, response) act" where
  "fundPhase order eth lib d req =
     (let cfg = fund_config_of (dp_cfg d); fundReq = fund_request_of req in
      bindE (mapErr (wrap ''read the payer key: '') (sec_Get (dp_keys d) ''signing-service'' ''payer-key'')) (\<lambda>payer.
      if \<not> rq_Confirm req then
        bindE (Prepare order eth lib cfg (sec_Value payer) fundReq) (\<lambda>plan.
        returnE ((response_of ''fund'')\<lparr>rs_DryRun := True, rs_FundPlan := Some plan\<rparr>))
      else
        bindE (Execute order eth lib cfg (sec_Value payer) fundReq) (\<lambda>result.
        returnE ((response_of ''fund'')\<lparr>rs_FundResult := Some result\<rparr>))))"

end
