(* ===== verification/OnboardPhase.thy ===== *)
theory OnboardPhase
imports Proofs Keygen OnboardFakes Provision
begin

text \<open>
  \<open>cmd/provision/onboard.go\<close> and the client constructors of \<open>internal/onboard\<close>: the onboard phase.

  What the phase builds its clients from is the record \<open>onboard_env\<close>: the AWS configuration, the
  DynamoDB client, the UCAN and DID libraries, \<open>url.Parse\<close>, and the constructors of sprue's and
  hilt's published clients.
\<close>

record ('w, 'd, 'c, 's, 'i, 'u) onboard_env =
  oe_LoadDefaultConfig :: "('w, unit) act"
  oe_dynamo :: "'w dynamo_api"
  oe_ucan :: "('d, 'c) ucan_lib"
  oe_signers :: "('w, 's) signer_lib"
  oe_delegate :: "'w delegate_lib"
  oe_NewIssuer :: "'d \<Rightarrow> 's \<Rightarrow> 'i"
  oe_url_Parse :: "string \<Rightarrow> go_error + 'u"
  oe_sprueclient_New :: "'d \<Rightarrow> 'u \<Rightarrow> 'i \<Rightarrow> go_error + ('w, 'd, 'c) sprue_api"
  oe_NewAdminClient :: "'i \<Rightarrow> 'u \<Rightarrow> go_error + ('w, 'd) hilt_api"

section \<open>The request\<close>

definition defaultWeight :: int where "defaultWeight = 100"
definition defaultReplicationWeight :: int where "defaultReplicationWeight = 100"

definition decodePiriProof :: "provision_request \<Rightarrow> go_error + string" where
  "decodePiriProof req =
     (if rq_PiriProof req \<noteq> [] \<and> rq_PiriProofB64 req \<noteq> [] then
        Inl (Errorf ''send the appliance's proof as piri_proof or piri_proof_b64, not both'')
      else if rq_PiriProofB64 req \<noteq> [] then
        (case b64_DecodeString (rq_PiriProofB64 req) of
           Inl err \<Rightarrow> Inl (wrap ''decode piri_proof_b64: '' err)
         | Inr p \<Rightarrow> Inr p)
      else Inr (rq_PiriProof req))"

definition requireProvisionedRegion :: "'w deps \<Rightarrow> string \<Rightarrow> ('w, unit) act" where
  "requireProvisionedRegion d region =
     bindE (LookupPublic (dp_store d) (applianceService region) unsealTokenAccessorKey) (\<lambda>found.
     if found = None then
       failE (Errorf (''no unseal token was ever minted for region '' @ go_quote region
         @ '', so either the label is a typo or the appliance is not provisioned; check the region against the stage's appliance_regions and run scripts/mint-appliance-token.sh first''))
     else returnE ())"

text \<open>\<open>order\<close> is the order in which this run visits the map; \<open>%v\<close> prints the slice in brackets.\<close>

definition validateOnboardRequest ::
  "((string \<times> string) list \<Rightarrow> (string \<times> string) list) \<Rightarrow> provision_request \<Rightarrow> go_error option" where
  "validateOnboardRequest order req =
     (if rq_IngotDID req \<noteq> [] then
        Some (Errorf ''ingot_did is no longer an input: an appliance's Ingot did:web is derived from its region and the stage's Ingot hostname suffix'')
      else
        let missing = map fst (filter (\<lambda>(name, v). v = [])
              (order [(''region'', rq_Region req), (''piri_did'', rq_PiriDID req), (''piri_url'', rq_PiriURL req)])) in
        if missing \<noteq> [] then
          Some (Errorf (''the onboard phase needs ['' @ join '' '' missing @ '']; all of it comes from the appliance''))
        else
          (case piriParameterName (rq_PiriDID req) of
             Inl err \<Rightarrow> Some (wrap ''piri_did: '' err)
           | Inr _ \<Rightarrow> None))"

definition ingotDID :: "config \<Rightarrow> string \<Rightarrow> string" where
  "ingotDID cfg region = ''did:web:s3.'' @ region @ ''.'' @ cfg_IngotHostnameSuffix cfg"

section \<open>The clients\<close>

definition serviceURL :: "config \<Rightarrow> string \<Rightarrow> string" where
  "serviceURL cfg service = ''https://'' @ serviceHostname cfg service"

definition serviceIssuer ::
  "('w, 'd, 'c, 's, 'i, 'u) onboard_env \<Rightarrow> 'w deps \<Rightarrow> string \<Rightarrow> ('w, 'i \<times> string) act" where
  "serviceIssuer env d service =
     bindE (mapErr (wrap (''read '' @ service @ possessive @ '' identity: ''))
              (sec_Get (dp_keys d) service ''identity'')) (\<lambda>key.
     bindE (parseE (''decode '' @ service @ possessive @ '' identity: '')
              (DecodeSignerFromPEM (oe_signers env) (sec_Value key))) (\<lambda>signer.
     let didWeb = ''did:web:'' @ serviceHostname (dp_cfg d) service in
     bindE (parseE (''parse '' @ didWeb @ '': '') (did_Parse (oe_ucan env) didWeb)) (\<lambda>parsed.
     returnE (oe_NewIssuer env parsed signer, didWeb))))"

definition NewSprueClient ::
  "('w, 'd, 'c, 's, 'i, 'u) onboard_env \<Rightarrow> string \<Rightarrow> string \<Rightarrow> 'i \<Rightarrow> ('w, 'w sprue_admin) act" where
  "NewSprueClient env serviceDIDWeb endpoint issuer =
     bindE (parseE (''parse sprue's DID '' @ go_quote serviceDIDWeb @ '': '')
              (did_Parse (oe_ucan env) serviceDIDWeb)) (\<lambda>serviceDID.
     bindE (parseE (''parse sprue's endpoint '' @ go_quote endpoint @ '': '') (oe_url_Parse env endpoint)) (\<lambda>address.
     bindE (parseE ''build sprue's admin client: '' (oe_sprueclient_New env serviceDID address issuer)) (\<lambda>client.
     returnE (SprueClient (oe_ucan env) client))))"

definition NewHiltClient ::
  "('w, 'd, 'c, 's, 'i, 'u) onboard_env \<Rightarrow> string \<Rightarrow> 'i \<Rightarrow> ('w, 'w hilt_admin) act" where
  "NewHiltClient env endpoint issuer =
     bindE (parseE (''parse hilt's endpoint '' @ go_quote endpoint @ '': '') (oe_url_Parse env endpoint)) (\<lambda>address.
     bindE (parseE ''build hilt's admin client: '' (oe_NewAdminClient env issuer address)) (\<lambda>admin.
     returnE (HiltClient (oe_ucan env) admin)))"

section \<open>Hilt's delegation to the appliance\<close>

definition proofIssuerKey :: string where
  "proofIssuerKey = ''.issuer''"

definition recordProofIssuer :: "'w deps \<Rightarrow> ucan_proof \<Rightarrow> string \<Rightarrow> ('w, unit) act" where
  "recordProofIssuer d p issuerDID =
     PutPublic (dp_store d) (up_Consumer p) (up_Name p @ proofIssuerKey) issuerDID"

text \<open>What happens to a delegation that was stored before: the switch of \<open>applianceProofIssuer\<close>.\<close>

datatype stored_proof = KeepProof | StampProof | ReissueProof

definition judgeStoredProof :: "string list \<Rightarrow> string option \<Rightarrow> string \<Rightarrow> stored_proof" where
  "judgeStoredProof missing issuer hiltDID =
     (if missing \<noteq> [] then ReissueProof
      else case issuer of
        Some i \<Rightarrow> if i = hiltDID then KeepProof else ReissueProof
      | None \<Rightarrow> StampProof)"

definition applianceProofIssuer ::
  "('w, 's) signer_lib \<Rightarrow> 'w delegate_lib \<Rightarrow> 'w deps \<Rightarrow> string \<Rightarrow> string \<Rightarrow> string \<Rightarrow> ('w, string) act" where
  "applianceProofIssuer signers lib d hiltDIDWeb region ingot =
     (let p = HiltIngotS3Proof (applianceService region) hiltDIDWeb ingot in
      bindE (mapErr (wrap ''read hilt's identity to sign the proof: '') (sec_Get (dp_keys d) ''hilt'' ''identity'')) (\<lambda>hiltKey.
      bindE (parseE ''derive hilt's key DID: '' (ParseIdentity signers (sec_Value hiltKey))) (\<lambda>hiltIdentity.
      bindE (EnsurePublic (dp_store d) (up_Consumer p) (up_Name p) (IssueProof lib (sec_Value hiltKey) p)) (\<lambda>(stored, created).
      if created then
        thenE (recordProofIssuer d p (id_DID hiltIdentity)) (returnE stored)
      else
        bindE (sumE (MissingCommands lib stored p)) (\<lambda>missing.
        bindE (LookupPublic (dp_store d) (up_Consumer p) (up_Name p @ proofIssuerKey)) (\<lambda>issuer.
        case judgeStoredProof missing issuer (id_DID hiltIdentity) of
          KeepProof \<Rightarrow> returnE stored
        | StampProof \<Rightarrow> thenE (recordProofIssuer d p (id_DID hiltIdentity)) (returnE stored)
        | ReissueProof \<Rightarrow>
            bindE (IssueProof lib (sec_Value hiltKey) p) (\<lambda>reissued.
            thenE (PutPublic (dp_store d) (up_Consumer p) (up_Name p) reissued)
              (thenE (recordProofIssuer d p (id_DID hiltIdentity)) (returnE reissued)))))))))"

section \<open>The phase\<close>

definition onboardDeps ::
  "nat \<Rightarrow> ('w, 'd, 'c, 's, 'i, 'u) onboard_env \<Rightarrow> 'w deps \<Rightarrow> ('w, 'w onboard_deps) act" where
  "onboardDeps fuel env d =
     (let table = cfg_AllowListTable (dp_cfg d) in
      if table = [] then failE (Errorf ''FORGE_ALLOW_LIST_TABLE is required for the onboard phase'')
      else
        bindE (serviceIssuer env d ''sprue'') (\<lambda>(sprueIssuer, sprueDIDWeb).
        bindE (NewSprueClient env sprueDIDWeb (serviceURL (dp_cfg d) ''sprue'') sprueIssuer) (\<lambda>sprueClient.
        bindE (serviceIssuer env d ''hilt'') (\<lambda>(hiltIssuer, hiltDIDWeb).
        bindE (NewHiltClient env (serviceURL (dp_cfg d) ''hilt'') hiltIssuer) (\<lambda>hiltClient.
        returnE
          \<lparr>od_AllowList = dynamo_AllowList (NewDynamoAllowList (oe_dynamo env) table (cfg_Stage (dp_cfg d))),
           od_Sprue = sprueClient, od_Hilt = hiltClient,
           od_IssueProof = applianceProofIssuer (oe_signers env) (oe_delegate env) d hiltDIDWeb,
           od_PiriRecord = piriRecords (ssm_publicStore fuel (dp_store d))\<rparr>)))))"

definition onboardPhase ::
  "((string \<times> string) list \<Rightarrow> (string \<times> string) list) \<Rightarrow> nat \<Rightarrow> ('w, 'd, 'c, 's, 'i, 'u) onboard_env
    \<Rightarrow> 'w deps \<Rightarrow> provision_request \<Rightarrow> ('w, response) act" where
  "onboardPhase order fuel env d req =
     (case validateOnboardRequest order req of
        Some err \<Rightarrow> failE err
      | None \<Rightarrow>
     thenE (mapErr (wrap ''load AWS config: '') (oe_LoadDefaultConfig env))
       (bindE (sumE (decodePiriProof req)) (\<lambda>piriProof.
        let onboardReq =
          \<lparr>or_Region = rq_Region req, or_PiriDID = rq_PiriDID req,
           or_IngotDID = ingotDID (dp_cfg d) (rq_Region req), or_PiriURL = rq_PiriURL req,
           or_PiriProof = piriProof, or_Weight = intOrDefault (rq_Weight req) defaultWeight,
           or_ReplicationWeight = intOrDefault (rq_ReplicationWeight req) defaultReplicationWeight\<rparr> in
        thenE (requireProvisionedRegion d (rq_Region req))
          (bindE (onboardDeps fuel env d) (\<lambda>odeps.
           bindE (Read odeps onboardReq) (\<lambda>state.
           let plan = PlanFrom state onboardReq in
           if \<not> rq_Confirm req then
             returnE ((response_of ''onboard'')\<lparr>rs_DryRun := True, rs_OnboardPlan := Some plan\<rparr>)
           else
             bindE (Apply odeps onboardReq plan) (\<lambda>result.
             returnE ((response_of ''onboard'')\<lparr>rs_OnboardResult := Some result\<rparr>)))))))) "

section \<open>What issuing the delegation relies on\<close>

definition ingot_proof_name :: string where
  "ingot_proof_name = ''hilt-ingot-s3-proof''"

definition proof_path :: "'w deps \<Rightarrow> string \<Rightarrow> string" where
  "proof_path d region = Path (dp_store d) (applianceService region) ingot_proof_name"

definition issuer_path :: "'w deps \<Rightarrow> string \<Rightarrow> string" where
  "issuer_path d region = Path (dp_store d) (applianceService region) (ingot_proof_name @ proofIssuerKey)"

lemma proof_fields [simp]:
  "up_Consumer (HiltIngotS3Proof consumer hilt ingot) = consumer"
  "up_Name (HiltIngotS3Proof consumer hilt ingot) = ingot_proof_name"
  "up_codec (HiltIngotS3Proof consumer hilt ingot) \<noteq> []"
  by (simp_all add: HiltIngotS3Proof_def ingot_proof_name_def)

text \<open>A UCAN command: a slash first, printable characters only.\<close>

definition ucan_command :: "string \<Rightarrow> bool" where
  "ucan_command c \<longleftrightarrow> has_prefix c ''/'' \<and> list_all plain_char c"

lemma proof_commands [simp]: "list_all ucan_command (up_commands (HiltIngotS3Proof consumer hilt ingot))"
  by (simp add: HiltIngotS3Proof_def ucan_command_def plain_char_def)

lemma paths_differ [simp]: "issuer_path d region \<noteq> proof_path d region" "proof_path d region \<noteq> issuer_path d region"
  by (simp_all add: issuer_path_def proof_path_def proofIssuerKey_def ingot_proof_name_def)

text \<open>What a failed run may have left: the two parameters of the region, and nothing deleted.\<close>

definition only_proof_touched ::
  "'w deps \<Rightarrow> string \<Rightarrow> (string \<Rightarrow> string option) \<Rightarrow> (string \<Rightarrow> string option) \<Rightarrow> bool" where
  "only_proof_touched d region T T' \<longleftrightarrow>
     (\<forall>n. n \<noteq> proof_path d region \<longrightarrow> n \<noteq> issuer_path d region \<longrightarrow> T' n = T n) \<and> dom T \<subseteq> dom T'"

lemma only_proof_touched [intro, simp]:
  "only_proof_touched d region T T"
  "only_proof_touched d region T (T(proof_path d region \<mapsto> v))"
  "only_proof_touched d region T (T(issuer_path d region \<mapsto> i))"
  "only_proof_touched d region T (T(proof_path d region \<mapsto> v, issuer_path d region \<mapsto> i))"
  by (auto simp: only_proof_touched_def)

text \<open>The outcome: the delegation in place, complete and signed by hilt's key; an unchanged one if it was.\<close>

definition proof_settled ::
  "'w deps \<Rightarrow> 'w delegate_lib \<Rightarrow> identity \<Rightarrow> string \<Rightarrow> string \<Rightarrow> string \<Rightarrow> (string \<Rightarrow> string option) \<Rightarrow> string \<Rightarrow> (string \<Rightarrow> string option) \<Rightarrow> bool" where
  "proof_settled d lib hid hilt region ingot T out T' \<longleftrightarrow>
     T' = T(proof_path d region \<mapsto> out, issuer_path d region \<mapsto> id_DID hid)
     \<and> MissingCommands lib out (HiltIngotS3Proof (applianceService region) hilt ingot) = Inr []
     \<and> (\<forall>stored. T (proof_path d region) = Some stored
          \<longrightarrow> MissingCommands lib stored (HiltIngotS3Proof (applianceService region) hilt ingot) = Inr []
          \<longrightarrow> T (issuer_path d region) \<in> {None, Some (id_DID hid)} \<longrightarrow> out = stored)"

text \<open>
  This run is the only writer of SSM, and a delegation signed with a container codec is text that decodes to a container granting exactly the requested commands.
\<close>

locale appliance_proofs = ssm_service api params pages
  for api :: "'w ssm_api" and params :: "'w \<Rightarrow> string \<Rightarrow> string option"
    and pages :: "(string \<Rightarrow> string option) \<Rightarrow> string \<Rightarrow> string option \<Rightarrow> (string \<times> string) list list" +
  fixes d :: "'w deps"
    and lib :: "'w delegate_lib"
  assumes client: "ssm_client (dp_store d) = api"
    and signs: "list_all ucan_command (ur_Commands r) \<Longrightarrow> wp (IssueFromPEM lib pem r)
      (\<lambda>res w'. params w' = params w \<and> (ur_ContainerCodec r \<noteq> [] \<longrightarrow> ut_IsText res
         \<and> (\<exists>t granted. ut_Text res = Inr t \<and> dg_Commands lib t = Inr granted \<and> set granted = set (ur_Commands r))))
      (\<lambda>_ w'. params w' = params w) w"
begin

lemma wp_IssueProof:
  assumes "up_codec p \<noteq> []" "list_all ucan_command (up_commands p)"
  shows "wp (IssueProof lib pem p)
      (\<lambda>v w'. MissingCommands lib v p = Inr [] \<and> params w' = params w) (\<lambda>_ w'. params w' = params w) w"
proof (cases "validateProof p")
  case None
  show ?thesis
    unfolding IssueProof_def None option.case MissingCommands_none
    by (rule wp_bind_mapErr [OF signs]) (use assms in \<open>auto simp: wp_simps\<close>)
qed (simp add: IssueProof_def wp_failE)

lemma wp_put_public:
  assumes "P = Path (dp_store d) service name"
  shows "wp (PutPublic (dp_store d) service name v)
      (\<lambda>_ w'. params w' = (params w)(P \<mapsto> v))
      (\<lambda>_ w'. params w' = params w \<or> params w' = (params w)(P \<mapsto> v)) w"
  unfolding PutPublic_def assms by (rule wp_ssm_put [OF client]) auto

lemma wp_record_issuer:
  assumes "params w = T(proof_path d region \<mapsto> v)"
  shows "wp (thenE (recordProofIssuer d (HiltIngotS3Proof (applianceService region) hilt ingot) i) (returnE v))
      (\<lambda>out w'. out = v \<and> params w' = T(proof_path d region \<mapsto> v, issuer_path d region \<mapsto> i))
      (\<lambda>_ w'. only_proof_touched d region T (params w')) w"
  unfolding recordProofIssuer_def proof_fields
  by (rule wp_thenI [OF wp_put_public [OF issuer_path_def]]) (use assms in \<open>auto simp: wp_simps\<close>)

lemma wp_applianceProofIssuer:
  assumes path: "\<not> contains (proof_path d region) ''ParameterAlreadyExists''"
    and key: "wp (sec_Get (dp_keys d) ''hilt'' ''identity'')
      (\<lambda>s w'. params w' = params w \<and> ParseIdentity signers (sec_Value s) = Inr hid)
      (\<lambda>_ w'. params w' = params w) w"
  shows "wp (applianceProofIssuer signers lib d hilt region ingot)
      (\<lambda>out w'. proof_settled d lib hid hilt region ingot (params w) out (params w'))
      (\<lambda>_ w'. only_proof_touched d region (params w) (params w')) w" (is "wp _ ?Q ?E w")
proof -
  let ?p = "HiltIngotS3Proof (applianceService region) hilt ingot"
  note path = path [unfolded proof_path_def]
  have stamp: "wp (thenE (recordProofIssuer d ?p (id_DID hid)) (returnE v)) ?Q ?E w1"
    if "params w1 = (params w)(proof_path d region \<mapsto> v)" "MissingCommands lib v ?p = Inr []"
      "\<And>stored. params w (proof_path d region) = Some stored \<Longrightarrow> MissingCommands lib stored ?p = Inr []
        \<Longrightarrow> params w (issuer_path d region) \<in> {None, Some (id_DID hid)} \<Longrightarrow> v = stored" for v w1
    by (rule wp_weaken [OF wp_record_issuer [OF that(1)]]) (use that in \<open>auto simp: proof_settled_def\<close>)
  have judged: "wp (case judgeStoredProof missing i (id_DID hid) of
          KeepProof \<Rightarrow> returnE stored
        | StampProof \<Rightarrow> thenE (recordProofIssuer d ?p (id_DID hid)) (returnE stored)
        | ReissueProof \<Rightarrow> bindE (IssueProof lib pem ?p) (\<lambda>reissued.
            thenE (PutPublic (dp_store d) (up_Consumer ?p) (up_Name ?p) reissued)
              (thenE (recordProofIssuer d ?p (id_DID hid)) (returnE reissued)))) ?Q ?E w3"
    if w3: "params w3 = params w" and stored: "params w (proof_path d region) = Some stored"
      and i: "params w (issuer_path d region) = i" and missing: "MissingCommands lib stored ?p = Inr missing"
    for stored i missing pem w3
  proof (cases "judgeStoredProof missing i (id_DID hid)")
    case KeepProof
    then have "missing = []" "i = Some (id_DID hid)"
      by (auto simp: judgeStoredProof_def split: if_splits option.splits)
    then show ?thesis
      using w3 stored i missing KeepProof by (auto simp: wp_returnE proof_settled_def fun_upd_idem)
  next
    case StampProof
    then have "missing = []" by (auto simp: judgeStoredProof_def split: if_splits)
    then show ?thesis
      unfolding StampProof stored_proof.case
      by (intro stamp) (use w3 stored missing in \<open>auto simp: fun_upd_idem\<close>)
  next
    case ReissueProof
    then have "\<not> (missing = [] \<and> i \<in> {None, Some (id_DID hid)})"
      by (cases i) (auto simp: judgeStoredProof_def split: if_splits)
    then have changed: "MissingCommands lib s ?p = Inr [] \<Longrightarrow> i \<in> {None, Some (id_DID hid)} \<Longrightarrow> s = stored \<Longrightarrow> False" for s
      using missing by auto
    show ?thesis
      unfolding ReissueProof stored_proof.case proof_fields
    proof (rule wp_bindI [OF wp_IssueProof [OF proof_fields(3) proof_commands]], goal_cases)
      case (1 v w4)
      then have w4: "params w4 = params w" and v: "MissingCommands lib v ?p = Inr []" using w3 by auto
      show ?case
        by (rule wp_thenI [OF wp_put_public [OF proof_path_def]], rule stamp)
          (use w4 v stored i changed in auto)
    qed (use w3 in simp)
  qed
  show ?thesis
    unfolding applianceProofIssuer_def Let_def
  proof (rule wp_bind_mapErr [OF key], goal_cases)
    case (2 s w1)
    then have w1: "params w1 = params w" and parse: "ParseIdentity signers (sec_Value s) = Inr hid" by auto
    show ?case
      unfolding parse wp_bindE [of "parseE _ _"] wp_parseE sum.case proof_fields EnsurePublic_def
      unfolding wp_bindE [of "ensure _ _ _ _ _"]
    proof (rule wp_ensure_frame [where G = "\<lambda>v. MissingCommands lib v ?p = Inr []", OF client path], goal_cases)
      case (1 w2)
      show ?case
        by (rule wp_weaken [OF wp_IssueProof [OF proof_fields(3) proof_commands]]) (use 1 in auto)
    next
      case (2 stored w2)
      then have w2: "params w2 = params w" and stored: "params w (proof_path d region) = Some stored"
        using w1 by (auto simp: proof_path_def)
      show ?case
      proof (cases "MissingCommands lib stored ?p")
        case (Inl e)
        then show ?thesis using w2 by (simp add: wp_simps)
      next
        case (Inr missing)
        show ?thesis
          unfolding prod.case if_False simp_thms Inr wp_bindE [of "sumE _"] wp_sumE sum.case LookupPublic_def
          unfolding wp_bindE [of "ssm_get _ _ _"]
          by (rule wp_ssm_get_frame [OF client])
            (use w2 stored Inr in \<open>auto intro!: judged [unfolded proof_fields] simp: issuer_path_def\<close>)
      qed
    next
      case (3 v w2)
      then have "params w2 = (params w)(proof_path d region \<mapsto> v)" "params w (proof_path d region) = None"
        "MissingCommands lib v ?p = Inr []"
        using w1 by (auto simp: proof_path_def)
      then show ?case unfolding prod.case if_True simp_thms by (intro stamp) auto
    next
      case (4 e w2)
      then show ?case using w1 by (auto simp: proof_path_def [symmetric])
    qed
  qed simp
qed

end

section \<open>The delegation over the in-memory services\<close>

definition toy_signers :: "('w, string) signer_lib" where
  "toy_signers =
     \<lparr>ed25519_Generate = returnE ''fresh'', DecodeSignerFromPEM = Inr, EncodeSignerToPEM = Inr,
      FormatSigner = (\<lambda>s. ''m'' @ s), signer_DID = (\<lambda>s. ''did:key:z'' @ s)\<rparr>"

text \<open>A delegation is written as its commands, one to a line.\<close>

definition toy_delegate :: "'w delegate_lib" where
  "toy_delegate =
     \<lparr>IssueFromPEM = (\<lambda>pem r. returnE \<lparr>ut_IsText = ur_ContainerCodec r \<noteq> [], ut_Bytes = ''bytes'',
        ut_Text = Inr (concat (map (\<lambda>c. c @ [CHR 0x0A]) (ur_Commands r)))\<rparr>),
      dg_Commands = (\<lambda>s. Inr (filter (\<lambda>c. c \<noteq> []) (split_at (CHR 0x0A) s)))\<rparr>"

lemma split_at_line: "CHR 0x0A \<notin> set c \<Longrightarrow> split_at (CHR 0x0A) (c @ CHR 0x0A # s) = c # split_at (CHR 0x0A) s"
  by (induction c) auto

lemma toy_delegate_reads:
  assumes "list_all ucan_command cs"
  shows "dg_Commands toy_delegate (concat (map (\<lambda>c. c @ [CHR 0x0A]) cs)) = Inr cs"
proof -
  have "c \<noteq> [] \<and> CHR 0x0A \<notin> set c" if "c \<in> set cs" for c
    using assms that by (fastforce simp: list_all_iff ucan_command_def plain_char_def)
  then show ?thesis
    by (induction cs) (simp_all add: toy_delegate_def split_at_line)
qed

definition test_stage :: "(fake_ssm \<times> fake_secrets) deps" where
  "test_stage =
     \<lparr>dp_cfg = test_config, dp_store = \<lparr>ssm_client = fst_ssm_api fake_ssm_api, ssm_stage = ''test''\<rparr>,
      dp_keys = \<lparr>sec_client = snd_secrets_api fake_secrets_api, sec_stage = ''test''\<rparr>,
      dp_secrets = snd_secrets_api fake_secrets_api\<rparr>"

lemma test_sec_Get:
  assumes "map_of (fk_values (snd w)) (''forge-central/test/'' @ service @ ''/'' @ name) = Some v"
  shows "sec_Get (dp_keys test_stage) service name w
    = (Ok \<lparr>sec_Value = v, sec_ARN = fakeARN (''forge-central/test/'' @ service @ ''/'' @ name)\<rparr>, w)"
proof -
  have "\<not> has_prefix (''forge-central/test/'' @ service @ ''/'' @ name) ''arn:''" by simp
  from fake_get_by_name [OF this, of "snd w"] assms
  have "GetSecretValue (sec_client (dp_keys test_stage)) (sec_Name (dp_keys test_stage) service name) w
      = (Ok (v, fakeARN (''forge-central/test/'' @ service @ ''/'' @ name)), w)"
    by (simp add: test_stage_def fake_secrets_api_def on_snd_def sec_Name_def)
  then show ?thesis
    by (simp add: sec_Get_def sec_Lookup_def sec_get_def bindE_def catchE_def returnE_def)
qed

interpretation test_proofs: appliance_proofs "fst_ssm_api fake_ssm_api" "\<lambda>w. fake_held (fst w)" fake_pages
    test_stage toy_delegate
proof (intro appliance_proofs.intro fst_ssm_service appliance_proofs_axioms.intro, goal_cases)
  case 1
  then show ?case by (simp add: test_stage_def)
next
  case (2 r pem w)
  then show ?case
    using toy_delegate_reads [OF 2]
    unfolding toy_delegate_def delegate_lib.simps wp_returnE ucan_result.simps by blast
qed

section \<open>Properties\<close>

text \<open>
  C13. The delegation central hands an appliance is settled: when the call succeeds, SSM holds exactly
  what is returned under the proof's name and hilt's current did:key beside it, nothing else changed,
  and the delegation grants every command Ingot invokes. A stored delegation that already did, and
  whose recorded signer is hilt's key or was never recorded, is returned unchanged. If the call
  fails, no other parameter is touched and nothing is deleted.
\<close>

theorem appliance_proof_settles:
  assumes "appliance_proofs api params pages d lib"
    and "\<not> contains (proof_path d region) ''ParameterAlreadyExists''"
    and "wp (sec_Get (dp_keys d) ''hilt'' ''identity'')
      (\<lambda>s w'. params w' = params w \<and> ParseIdentity signers (sec_Value s) = Inr hid)
      (\<lambda>_ w'. params w' = params w) w"
  shows "wp (applianceProofIssuer signers lib d hilt region ingot)
      (\<lambda>out w'. proof_settled d lib hid hilt region ingot (params w) out (params w'))
      (\<lambda>_ w'. only_proof_touched d region (params w) (params w')) w"
  by (rule appliance_proofs.wp_applianceProofIssuer [OF assms])

text \<open>A stage whose hilt key is \<open>k1\<close> and whose region has a delegation that lacks a command.\<close>

definition stale_stage :: "fake_ssm \<times> fake_secrets" where
  "stale_stage =
     (fake_with [(''/forge-central/test/appliance/us-east-9/hilt-ingot-s3-proof'', ''/s3/bucket/info'' @ [CHR 0x0A])],
      fake_secrets_with [(''forge-central/test/hilt/identity'', ''k1'')])"

theorem appliance_proof_settles_witness:
  "MissingCommands toy_delegate (''/s3/bucket/info'' @ [CHR 0x0A])
      (HiltIngotS3Proof ''appliance/us-east-9'' ''did:web:hilt'' ''did:web:ingot'') \<noteq> Inr []
   \<and> wp (applianceProofIssuer toy_signers toy_delegate test_stage ''did:web:hilt'' ''us-east-9'' ''did:web:ingot'')
      (\<lambda>out w'. proof_settled test_stage toy_delegate \<lparr>id_PrivatePEM = ''k1'', id_Multibase = ''mk1'', id_DID = ''did:key:zk1''\<rparr>
         ''did:web:hilt'' ''us-east-9'' ''did:web:ingot'' (fake_held (fst stale_stage)) out (fake_held (fst w')))
      (\<lambda>_ w'. only_proof_touched test_stage ''us-east-9'' (fake_held (fst stale_stage)) (fake_held (fst w'))) stale_stage"
proof
  show "MissingCommands toy_delegate (''/s3/bucket/info'' @ [CHR 0x0A])
      (HiltIngotS3Proof ''appliance/us-east-9'' ''did:web:hilt'' ''did:web:ingot'') \<noteq> Inr []"
    by (simp add: MissingCommands_def toy_delegate_def HiltIngotS3Proof_def)
  have path: "\<not> contains (proof_path test_stage ''us-east-9'') ''ParameterAlreadyExists''"
    by (rule not_contains [of "CHR ''P''"])
      (simp_all add: proof_path_def test_stage_def Path_def applianceService_def ingot_proof_name_def)
  have key: "wp (sec_Get (dp_keys test_stage) ''hilt'' ''identity'')
      (\<lambda>s w'. fake_held (fst w') = fake_held (fst stale_stage)
         \<and> ParseIdentity toy_signers (sec_Value s) = Inr \<lparr>id_PrivatePEM = ''k1'', id_Multibase = ''mk1'', id_DID = ''did:key:zk1''\<rparr>)
      (\<lambda>_ w'. fake_held (fst w') = fake_held (fst stale_stage)) stale_stage"
    using test_sec_Get [of stale_stage "''hilt''" "''identity''" "''k1''"]
    by (simp add: wp_def stale_stage_def fake_secrets_with_def ParseIdentity_def newIdentity_def toy_signers_def)
  show "wp (applianceProofIssuer toy_signers toy_delegate test_stage ''did:web:hilt'' ''us-east-9'' ''did:web:ingot'')
      (\<lambda>out w'. proof_settled test_stage toy_delegate \<lparr>id_PrivatePEM = ''k1'', id_Multibase = ''mk1'', id_DID = ''did:key:zk1''\<rparr>
         ''did:web:hilt'' ''us-east-9'' ''did:web:ingot'' (fake_held (fst stale_stage)) out (fake_held (fst w')))
      (\<lambda>_ w'. only_proof_touched test_stage ''us-east-9'' (fake_held (fst stale_stage)) (fake_held (fst w'))) stale_stage"
    by (rule appliance_proof_settles [OF test_proofs.appliance_proofs_axioms path key])
qed

text \<open>
  C34. The proof reaches the plan as the appliance wrote it: base64 of any bytes, NUL included, decodes
  to those bytes, and text is taken as it is. A request carrying both forms is refused.
\<close>

theorem decodePiriProof_roundtrip:
  "decodePiriProof (req\<lparr>rq_PiriProof := [], rq_PiriProofB64 := b64_EncodeToString p\<rparr>) = Inr p
   \<and> decodePiriProof (req\<lparr>rq_PiriProof := p, rq_PiriProofB64 := []\<rparr>) = Inr p
   \<and> (\<exists>e. decodePiriProof (req\<lparr>rq_PiriProof := c # p, rq_PiriProofB64 := d # q\<rparr>) = Inl e)"
proof -
  have "b64_EncodeToString p = [] \<Longrightarrow> p = []"
    by (metis b64_roundtrip b64_DecodeString_def b64_quanta.simps(1) sum.inject(2))
  then show ?thesis by (auto simp: decodePiriProof_def)
qed

end
