(* ===== verification/DbInit.thy ===== *)
theory DbInit
imports Keygen
begin

text \<open>
  \<open>internal/dbinit\<close>: one Postgres role and database per service, further login roles, the removal of
  a database, and the connection strings.

  The connection (pgx) is the parameter \<open>pg_conn\<close>: \<open>Exec\<close>, a \<open>QueryRow\<close> of one argument scanned into
  a bool or a string, and the quoting of an identifier. Statements are kept as their SQL text. The
  URL of a connection string follows \<open>net/url\<close> (\<open>URL.String\<close>, \<open>escape\<close>) and \<open>net.JoinHostPort\<close>.
  What the code relies on of the server is the locale \<open>pg_server\<close>: what each statement does when its
  literals are inert, that is, hex for a password and a duration for a setting.
\<close>

record 'w pg_conn =
  pg_Exec :: "string \<Rightarrow> ('w, unit) act"
  pg_QueryBool :: "string \<Rightarrow> string \<Rightarrow> ('w, bool) act"
  pg_QueryText :: "string \<Rightarrow> string \<Rightarrow> ('w, string) act"
  pg_Sanitize :: "string \<Rightarrow> string"

section \<open>The data\<close>

record setting =
  set_Name :: string
  set_Value :: string

record role =
  role_Name :: string
  role_Password :: string
  role_Settings :: "setting list"

record database =
  db_Name :: string
  db_Owner :: string
  db_Password :: string
  db_LoginRoles :: "role list"

definition OwnerRole :: "database \<Rightarrow> string" where
  "OwnerRole db = (if db_Owner db \<noteq> [] then db_Owner db else db_Name db)"

definition SSLRequire :: string where
  "SSLRequire = ''require''"

definition SSLVerifyFull :: string where
  "SSLVerifyFull = ''verify-full''"

section \<open>Validation\<close>

text \<open>\<open>^[0-9a-f]+$\<close> and \<open>^[0-9]+(ms|s|min)?$\<close>; without \<open>(?m)\<close>, \<open>$\<close> is the end of the text.\<close>

definition hexOnly :: "string \<Rightarrow> bool" where
  "hexOnly s \<longleftrightarrow> s \<noteq> [] \<and> list_all is_hex s"

definition durationValue :: "string \<Rightarrow> bool" where
  "durationValue s \<longleftrightarrow>
     takeWhile is_digit s \<noteq> [] \<and> dropWhile is_digit s \<in> {[], ''ms'', ''s'', ''min''}"

definition allowedSettings :: "(string \<times> bool) list" where
  "allowedSettings = [(''statement_timeout'', True), (''idle_in_transaction_session_timeout'', True)]"

text \<open>\<open>for _, x := range xs { if err := check(x); err != nil { return err } }\<close>.\<close>

primrec first_error :: "('a \<Rightarrow> go_error option) \<Rightarrow> 'a list \<Rightarrow> go_error option" where
  "first_error check [] = None"
| "first_error check (x # xs) = (case check x of Some err \<Rightarrow> Some err | None \<Rightarrow> first_error check xs)"

definition not_hex_only :: "string \<Rightarrow> go_error" where
  "not_hex_only name =
     Errorf (''password for '' @ name @ '' is not hex-only; refusing to interpolate it into SQL'')"

definition validate_setting :: "role \<Rightarrow> setting \<Rightarrow> go_error option" where
  "validate_setting r s =
     (if map_of allowedSettings (set_Name s) \<noteq> Some True then
        Some (Errorf (''role '' @ role_Name r @ '': setting '' @ go_quote (set_Name s) @ '' is not one dbinit applies''))
      else if \<not> durationValue (set_Value s) then
        Some (Errorf (''role '' @ role_Name r @ '': '' @ set_Name s @ '' = '' @ go_quote (set_Value s)
          @ '' is not a duration like 15s; refusing to interpolate it into SQL''))
      else None)"

definition validate_role :: "role \<Rightarrow> go_error option" where
  "validate_role r =
     (if \<not> hexOnly (role_Password r) then Some (not_hex_only (role_Name r))
      else first_error (validate_setting r) (role_Settings r))"

definition validate :: "database \<Rightarrow> go_error option" where
  "validate db =
     (if \<not> hexOnly (db_Password db) then Some (not_hex_only (OwnerRole db))
      else first_error validate_role (db_LoginRoles db))"

section \<open>The statements\<close>

definition sql_role_exists :: string where
  "sql_role_exists = ''SELECT EXISTS (SELECT 1 FROM pg_roles WHERE rolname = $1)''"

definition sql_database_exists :: string where
  "sql_database_exists = ''SELECT EXISTS (SELECT 1 FROM pg_database WHERE datname = $1)''"

definition sql_database_owner :: string where
  "sql_database_owner = ''SELECT pg_get_userbyid(datdba) FROM pg_database WHERE datname = $1''"

definition sql_create_role :: "string \<Rightarrow> string" where
  "sql_create_role quotedName = ''CREATE ROLE '' @ quotedName @ '' WITH LOGIN''"

definition sql_set_password :: "string \<Rightarrow> string \<Rightarrow> string" where
  "sql_set_password quotedName password =
     ''ALTER ROLE '' @ quotedName @ '' WITH LOGIN PASSWORD '' @ [CHR 0x27] @ password @ [CHR 0x27]"

definition sql_set_setting :: "string \<Rightarrow> setting \<Rightarrow> string" where
  "sql_set_setting quotedRole s =
     ''ALTER ROLE '' @ quotedRole @ '' SET '' @ set_Name s @ '' = '' @ [CHR 0x27] @ set_Value s @ [CHR 0x27]"

definition sql_grant :: "string \<Rightarrow> string" where
  "sql_grant quotedOwner = ''GRANT '' @ quotedOwner @ '' TO CURRENT_USER''"

definition sql_create_database :: "string \<Rightarrow> string \<Rightarrow> string" where
  "sql_create_database quotedName quotedOwner = ''CREATE DATABASE '' @ quotedName @ '' OWNER '' @ quotedOwner"

definition sql_drop_database :: "string \<Rightarrow> string" where
  "sql_drop_database quotedName = ''DROP DATABASE IF EXISTS '' @ quotedName @ '' WITH (FORCE)''"

text \<open>\<open>errors.As(err, &pgErr)\<close> finds the first Postgres error of the tree.\<close>

primrec first_pg_code :: "dep_error list \<Rightarrow> string option" where
  "first_pg_code [] = None"
| "first_pg_code (d # ds) = (case d of PgError code \<Rightarrow> Some code | _ \<Rightarrow> first_pg_code ds)"

definition isDuplicate :: "go_error \<Rightarrow> bool" where
  "isDuplicate err = (case first_pg_code (err_deps err) of
     Some code \<Rightarrow> code = ''42710'' \<or> code = ''42P04'' | None \<Rightarrow> False)"

text \<open>\<open>if err != nil && !isDuplicate(err) { return ... }\<close>.\<close>

definition unlessDuplicate :: "string \<Rightarrow> ('w, unit) act \<Rightarrow> ('w, unit) act" where
  "unlessDuplicate pre m = catchE m (\<lambda>err. if isDuplicate err then returnE () else failE (wrap pre err))"

definition ensureLoginRole :: "'w pg_conn \<Rightarrow> string \<Rightarrow> string \<Rightarrow> ('w, unit) act" where
  "ensureLoginRole conn name password =
     (let quotedName = pg_Sanitize conn name in
      bindE (mapErr (wrap (''check role '' @ name @ '': '')) (pg_QueryBool conn sql_role_exists name)) (\<lambda>roleExists.
      thenE (if \<not> roleExists then
               unlessDuplicate (''create role '' @ name @ '': '') (pg_Exec conn (sql_create_role quotedName))
             else returnE ())
        (mapErr (wrap (''set password for role '' @ name @ '': '')) (pg_Exec conn (sql_set_password quotedName password)))))"

definition ensureSettings :: "'w pg_conn \<Rightarrow> role \<Rightarrow> ('w, unit) act" where
  "ensureSettings conn r =
     forE (\<lambda>s. mapErr (wrap (''set '' @ set_Name s @ '' for role '' @ role_Name r @ '': ''))
       (pg_Exec conn (sql_set_setting (pg_Sanitize conn (role_Name r)) s))) (role_Settings r)"

definition ensureOne :: "'w pg_conn \<Rightarrow> database \<Rightarrow> ('w, unit) act" where
  "ensureOne conn db =
     (let quotedName = pg_Sanitize conn (db_Name db); quotedOwner = pg_Sanitize conn (OwnerRole db) in
      thenE (ensureLoginRole conn (OwnerRole db) (db_Password db))
      (bindE (mapErr (wrap ''check database: '') (pg_QueryBool conn sql_database_exists (db_Name db))) (\<lambda>dbExists.
      thenE (if \<not> dbExists then
               thenE (mapErr (wrap ''grant role to admin: '') (pg_Exec conn (sql_grant quotedOwner)))
                 (unlessDuplicate ''create database: '' (pg_Exec conn (sql_create_database quotedName quotedOwner)))
             else returnE ())
        (forE (\<lambda>r. thenE (ensureLoginRole conn (role_Name r) (role_Password r)) (ensureSettings conn r))
           (db_LoginRoles db)))))"

definition validateAll :: "database list \<Rightarrow> go_error option" where
  "validateAll =
     first_error (\<lambda>db. map_option (wrap (''ensure database '' @ db_Name db @ '': '')) (validate db))"

definition dbinit_Ensure :: "'w pg_conn \<Rightarrow> database list \<Rightarrow> ('w, unit) act" where
  "dbinit_Ensure conn databases =
     (case validateAll databases of
        Some err \<Rightarrow> failE err
      | None \<Rightarrow> forE (\<lambda>db. mapErr (wrap (''ensure database '' @ db_Name db @ '': '')) (ensureOne conn db)) databases)"

definition Existing :: "'w pg_conn \<Rightarrow> string list \<Rightarrow> ('w, string list) act" where
  "Existing conn names =
     foldE (\<lambda>name existing.
       bindE (mapErr (wrap (''check database '' @ name @ '': '')) (pg_QueryBool conn sql_database_exists name)) (\<lambda>ex.
       returnE (if ex then existing @ [name] else existing))) names []"

definition dbinit_Drop :: "'w pg_conn \<Rightarrow> string \<Rightarrow> ('w, bool) act" where
  "dbinit_Drop conn name =
     bindE (tryE (pg_QueryText conn sql_database_owner name)) (\<lambda>res.
     case res of
       Inl err \<Rightarrow>
         if ErrNoRows \<in> set (err_deps err) then returnE False
         else failE (wrap (''read the owner of database '' @ name @ '': '') err)
     | Inr owner \<Rightarrow>
         thenE (mapErr (wrap (''grant role '' @ owner @ '' to admin: '')) (pg_Exec conn (sql_grant (pg_Sanitize conn owner))))
         (thenE (mapErr (wrap (''drop database '' @ name @ '': '')) (pg_Exec conn (sql_drop_database (pg_Sanitize conn name))))
         (returnE True)))"

section \<open>Connection strings\<close>

text \<open>\<open>net/url\<close>: which bytes \<open>escape\<close> writes as \<open>%XX\<close> in the user info, the host and the path.\<close>

datatype url_mode = EncodeUserPassword | EncodeHost | EncodePath

definition is_alnum :: "char \<Rightarrow> bool" where
  "is_alnum c \<longleftrightarrow>
     (let n = byte c in 97 \<le> n \<and> n \<le> 122 \<or> 65 \<le> n \<and> n \<le> 90 \<or> 48 \<le> n \<and> n \<le> 57)"

definition shouldEscape :: "url_mode \<Rightarrow> char \<Rightarrow> bool" where
  "shouldEscape mode c =
     (if is_alnum c then False
      else if mode = EncodeHost \<and> (c \<in> set ''!$&()*+,;=:[]<>'' \<or> c = CHR 0x27 \<or> c = CHR 0x22) then False
      else if c \<in> set ''-_.~'' then False
      else if c \<in> set ''$&+,/:;=?@'' then
        (case mode of
           EncodePath \<Rightarrow> c = CHR ''?''
         | EncodeUserPassword \<Rightarrow> c \<in> set ''@/?:''
         | EncodeHost \<Rightarrow> True)
      else True)"

definition escape_char :: "char \<Rightarrow> string" where
  "escape_char c = [CHR ''%'', upper_nibble (byte c div 16), upper_nibble (byte c mod 16)]"

definition url_escape :: "url_mode \<Rightarrow> string \<Rightarrow> string" where
  "url_escape mode s = concat (map (\<lambda>c. if shouldEscape mode c then escape_char c else [c]) s)"

definition JoinHostPort :: "string \<Rightarrow> string \<Rightarrow> string" where
  "JoinHostPort host port =
     (if CHR '':'' \<in> set host then ''['' @ host @ '']:'' @ port else host @ '':'' @ port)"

text \<open>\<open>url.URL{...}.String()\<close> of a URL with a scheme, user, host, rooted path and query.\<close>

definition url_String :: "string \<Rightarrow> string \<Rightarrow> string \<Rightarrow> string \<Rightarrow> string \<Rightarrow> string \<Rightarrow> string" where
  "url_String scheme username password host path rawQuery =
     scheme @ ''://'' @ url_escape EncodeUserPassword username @ '':'' @ url_escape EncodeUserPassword password
       @ ''@'' @ url_escape EncodeHost host @ url_escape EncodePath path @ ''?'' @ rawQuery"

definition connectionString :: "string \<Rightarrow> int \<Rightarrow> string \<Rightarrow> string \<Rightarrow> string \<Rightarrow> string \<Rightarrow> string" where
  "connectionString host port database username password sslmode =
     url_String ''postgres'' username password (JoinHostPort host (itoa port)) (''/'' @ database) (''sslmode='' @ sslmode)"

definition DSN :: "string \<Rightarrow> int \<Rightarrow> string \<Rightarrow> string \<Rightarrow> string \<Rightarrow> string \<Rightarrow> string" where
  "DSN host port database username password sslmode =
     connectionString host port database username password sslmode"

definition AdminDSN :: "string \<Rightarrow> int \<Rightarrow> string \<Rightarrow> string \<Rightarrow> string \<Rightarrow> string" where
  "AdminDSN host port database username password =
     connectionString host port database username password SSLRequire"

text \<open>
  A reader of such a string, in the order \<open>url.Parse\<close> takes it apart: the fragment, the query, the
  authority up to the first slash, the user info up to the last at sign and the password after its
  first colon. It gives the user, the password, the host with its port, the path and the query.
\<close>

fun url_unescape :: "string \<Rightarrow> string" where
  "url_unescape (c # p # q # s) =
     (if c = CHR ''%'' then
        (case (hex_digit p, hex_digit q) of
           (Some a, Some b) \<Rightarrow> char_of (16 * a + b) # url_unescape s
         | _ \<Rightarrow> c # url_unescape (p # q # s))
      else c # url_unescape (p # q # s))"
| "url_unescape s = s"

definition cut_last :: "string \<Rightarrow> char \<Rightarrow> string \<times> string" where
  "cut_last s c =
     (let (behind, front, found) = cut_at (rev s) c in (rev front, rev behind))"

definition url_Parse :: "string \<Rightarrow> (string \<times> string \<times> string \<times> string \<times> string) option" where
  "url_Parse raw =
     (let (url, frag, hasFragment) = cut_at raw (CHR ''#'') in
      if hasFragment then None
      else case cut_prefix url ''postgres://'' of
        None \<Rightarrow> None
      | Some rest \<Rightarrow>
         (let (rest, query, _) = cut_at rest (CHR ''?'');
              (authority, path, _) = cut_at rest (CHR ''/'');
              (userinfo, host) = cut_last authority (CHR ''@'');
              (username, password, _) = cut_at userinfo (CHR '':'') in
          Some (url_unescape username, url_unescape password, host, url_unescape path, query)))"

lemma hex_digit_upper [simp]: "n < 16 \<Longrightarrow> hex_digit (upper_nibble n) = Some n"
  by (simp add: hex_digit_def upper_nibble_def of_char_of Let_def)

lemma is_alnum_upper [simp]: "n < 16 \<Longrightarrow> is_alnum (upper_nibble n)"
  by (simp add: is_alnum_def upper_nibble_def of_char_of Let_def)

lemma byte_nibbles [simp]: "byte c div 16 < 16" "char_of (16 * (byte c div 16) + byte c mod 16) = c"
  using nat_of_char_less_256 [of c] by (simp_all add: less_mult_imp_div_less)

lemma url_unescape_Cons: "c \<noteq> CHR ''%'' \<Longrightarrow> url_unescape (c # s) = c # url_unescape s"
  by (cases s rule: url_unescape.cases) auto

lemma url_unescape_escape: "shouldEscape mode (CHR ''%'') \<Longrightarrow> url_unescape (url_escape mode s) = s"
proof (induction s)
  case (Cons c s)
  then have "\<not> shouldEscape mode c \<Longrightarrow> c \<noteq> CHR ''%''" by blast
  with Cons show ?case by (simp add: url_escape_def escape_char_def url_unescape_Cons)
qed (simp add: url_escape_def)

lemma percent_escaped [simp]: "shouldEscape mode (CHR ''%'')"
  by (cases mode) (simp_all add: shouldEscape_def is_alnum_def)

text \<open>What an escaped part is free of.\<close>

lemma url_escape_free:
  assumes "shouldEscape mode c" "c \<noteq> CHR ''%''"
  shows "c \<notin> set (url_escape mode s)"
proof -
  have "\<not> is_alnum c" using assms(1) by (auto simp: shouldEscape_def)
  then have "n < 16 \<Longrightarrow> c \<noteq> upper_nibble n" for n using is_alnum_upper by blast
  then have "c \<noteq> upper_nibble (byte x div 16)" "c \<noteq> upper_nibble (byte x mod 16)" for x by simp_all
  with assms show ?thesis by (simp add: url_escape_def escape_char_def)
qed

text \<open>A host name is letters, digits, dots and hyphens.\<close>

definition host_char :: "char \<Rightarrow> bool" where
  "host_char c \<longleftrightarrow> is_alnum c \<or> c = CHR ''.'' \<or> c = CHR ''-''"

lemma host_char_free: "list_all host_char h \<Longrightarrow> \<not> is_alnum c \<Longrightarrow> c \<noteq> CHR ''.'' \<Longrightarrow> c \<noteq> CHR ''-'' \<Longrightarrow> c \<notin> set h"
  by (auto simp: list_all_iff host_char_def)

lemma url_escape_host: "list_all (\<lambda>c. host_char c \<or> c = CHR '':'') h \<Longrightarrow> url_escape EncodeHost h = h"
  by (induction h) (auto simp: url_escape_def host_char_def shouldEscape_def is_alnum_def)

lemma cut_last_append: "c \<notin> set t \<Longrightarrow> cut_last (s @ c # t) c = (s, t)"
proof -
  assume "c \<notin> set t"
  then have "cut_at (rev t @ c # rev s) c = (rev t, rev s, True)" by (intro cut_at_append) simp
  then show ?thesis by (simp add: cut_last_def)
qed

lemma itoa_host_chars: "list_all host_char (itoa i)"
proof -
  have "is_digit c \<Longrightarrow> host_char c" for c
    by (simp add: is_digit_def host_char_def is_alnum_def Let_def)
  then have "list_all host_char (dec_digits n)" for n
    using dec_digits_val [of n] by (auto simp: list_all_iff)
  then show ?thesis by (simp add: itoa_def host_char_def)
qed

lemma not_alnum [simp]: "\<not> is_alnum (CHR ''#'')" "\<not> is_alnum (CHR ''?'')" "\<not> is_alnum (CHR ''/'')"
    "\<not> is_alnum (CHR ''@'')" "\<not> is_alnum (CHR '':'')"
  by (simp_all add: is_alnum_def)

lemma escapes_delimiters:
  "list_all (shouldEscape EncodeUserPassword) ''#?/@:''" "list_all (shouldEscape EncodePath) ''#?''"
  by (simp_all add: shouldEscape_def)

lemma escape_free_of:
  assumes "list_all (shouldEscape mode) cs" "CHR ''%'' \<notin> set cs" "c \<in> set cs"
  shows "c \<notin> set (url_escape mode s)"
  using assms by (intro url_escape_free) (auto simp: list_all_iff)

lemmas userinfo_free = escape_free_of [OF escapes_delimiters(1)]
lemmas path_free = escape_free_of [OF escapes_delimiters(2)]

lemma url_Parse_connectionString:
  assumes host: "list_all host_char host" and mode: "CHR ''#'' \<notin> set sslmode"
  shows "url_Parse (connectionString host port database username password sslmode)
    = Some (username, password, host @ '':'' @ itoa port, database, ''sslmode='' @ sslmode)"
proof -
  let ?u = "url_escape EncodeUserPassword username" and ?p = "url_escape EncodeUserPassword password"
    and ?d = "url_escape EncodePath database" and ?h = "host @ '':'' @ itoa port"
  let ?ui = "?u @ '':'' @ ?p" and ?q = "''sslmode='' @ sslmode"
  let ?rest = "(?ui @ ''@'' @ ?h) @ ''/'' @ ?d"
  have no: "c \<in> set ''#?/@'' \<Longrightarrow> c \<notin> set ?h" for c
    using host_char_free [OF host, of c] host_char_free [OF itoa_host_chars, of c port] by auto
  have "list_all (\<lambda>c. host_char c \<or> c = CHR '':'') ?h"
    using host itoa_host_chars [of port] by (auto simp: list_all_iff)
  then have h: "url_escape EncodeHost ?h = ?h" by (rule url_escape_host)
  have "CHR '':'' \<notin> set host" using host_char_free [OF host] by simp
  then have "connectionString host port database username password sslmode = ''postgres://'' @ ?rest @ ''?'' @ ?q"
    by (simp add: connectionString_def url_String_def JoinHostPort_def h [simplified] url_escape_def [of EncodePath] shouldEscape_def)
  moreover have "cut_at (''postgres://'' @ ?rest @ ''?'' @ ?q) (CHR ''#'') = (''postgres://'' @ ?rest @ ''?'' @ ?q, [], False)"
    using no mode by (intro cut_at_absent) (simp add: userinfo_free path_free)
  moreover have "cut_prefix (''postgres://'' @ ?rest @ ''?'' @ ?q) ''postgres://'' = Some (?rest @ ''?'' @ ?q)"
    by (rule cut_prefix_append)
  moreover have "cut_at (?rest @ ''?'' @ ?q) (CHR ''?'') = (?rest, ?q, True)"
    using no cut_at_append [of "CHR ''?''" ?rest ?q] by (simp add: userinfo_free path_free)
  moreover have "cut_at ?rest (CHR ''/'') = (?ui @ ''@'' @ ?h, ?d, True)"
    using no cut_at_append [of "CHR ''/''" "?ui @ ''@'' @ ?h" ?d] by (simp add: userinfo_free)
  moreover have "cut_last (?ui @ ''@'' @ ?h) (CHR ''@'') = (?ui, ?h)"
    using no cut_last_append [of "CHR ''@''" ?h ?ui] by simp
  moreover have "cut_at ?ui (CHR '':'') = (?u, ?p, True)"
    using cut_at_append [of "CHR '':''" ?u ?p] by (simp add: userinfo_free)
  ultimately show ?thesis
    by (simp only: url_Parse_def Let_def prod.case option.case if_False url_unescape_escape [OF percent_escaped])
qed

section \<open>What the code relies on of the server\<close>

record pg_role =
  rl_login :: bool
  rl_password :: "string option"
  rl_settings :: "string \<Rightarrow> string option"

record pg_state =
  pg_roles :: "string \<Rightarrow> pg_role option"
  pg_dbs :: "string \<Rightarrow> string option"
  pg_admin :: "string set"

definition put_role :: "string \<Rightarrow> pg_role \<Rightarrow> pg_state \<Rightarrow> pg_state" where
  "put_role n r s = s\<lparr>pg_roles := (pg_roles s)(n \<mapsto> r)\<rparr>"

definition put_db :: "string \<Rightarrow> string option \<Rightarrow> pg_state \<Rightarrow> pg_state" where
  "put_db n owner s = s\<lparr>pg_dbs := (pg_dbs s)(n := owner)\<rparr>"

definition put_member :: "string \<Rightarrow> pg_state \<Rightarrow> pg_state" where
  "put_member n s = s\<lparr>pg_admin := insert n (pg_admin s)\<rparr>"

lemma put_sel [simp]:
  "pg_roles (put_role n r s) = (pg_roles s)(n \<mapsto> r)" "pg_dbs (put_role n r s) = pg_dbs s" "pg_admin (put_role n r s) = pg_admin s"
  "pg_roles (put_db n b s) = pg_roles s" "pg_dbs (put_db n b s) = (pg_dbs s)(n := b)" "pg_admin (put_db n b s) = pg_admin s"
  "pg_roles (put_member n s) = pg_roles s" "pg_dbs (put_member n s) = pg_dbs s" "pg_admin (put_member n s) = insert n (pg_admin s)"
  by (simp_all add: put_role_def put_db_def put_member_def)

text \<open>An identifier Postgres takes as it is: it cuts a name at 63 bytes, and pgx drops a NUL.\<close>

definition pg_name :: "string \<Rightarrow> bool" where
  "pg_name n \<longleftrightarrow> n \<noteq> [] \<and> length n \<le> 63 \<and> CHR 0x00 \<notin> set n"

definition safe_setting :: "setting \<Rightarrow> bool" where
  "safe_setting s \<longleftrightarrow> map_of allowedSettings (set_Name s) = Some True \<and> durationValue (set_Value s)"

text \<open>
  The documented behaviour of the statements. One that fails may still have been carried out, when
  the answer was lost. A role or a database may come into being from a concurrent run between the
  check and the statement that creates it; the server then says so with a duplicate error. The server
  is asked nothing else: a password that is not hex or a setting that is not safe has no law.
\<close>

locale pg_server =
  fixes conn :: "'w pg_conn"
    and st :: "'w \<Rightarrow> pg_state"
  assumes role_exists: "wp (pg_QueryBool conn sql_role_exists n)
      (\<lambda>b w'. (b \<longleftrightarrow> pg_roles (st w) n \<noteq> None) \<and> st w' = st w) (\<lambda>_ w'. st w' = st w) w"
    and database_exists: "wp (pg_QueryBool conn sql_database_exists n)
      (\<lambda>b w'. (b \<longleftrightarrow> pg_dbs (st w) n \<noteq> None) \<and> st w' = st w) (\<lambda>_ w'. st w' = st w) w"
    and database_owner: "wp (pg_QueryText conn sql_database_owner n)
      (\<lambda>owner w'. pg_dbs (st w) n = Some owner \<and> st w' = st w)
      (\<lambda>e w'. st w' = st w \<and> (ErrNoRows \<in> set (err_deps e) \<longrightarrow> pg_dbs (st w) n = None)) w"
    and create_role: "pg_name n \<Longrightarrow> wp (pg_Exec conn (sql_create_role (pg_Sanitize conn n)))
      (\<lambda>_ w'. pg_roles (st w) n = None \<and> (\<exists>r. st w' = put_role n r (st w)))
      (\<lambda>e w'. (st w' = st w \<or> pg_roles (st w) n = None \<and> (\<exists>r. st w' = put_role n r (st w)))
         \<and> (isDuplicate e \<longrightarrow> pg_roles (st w') n \<noteq> None)) w"
    and set_password: "pg_name n \<Longrightarrow> hexOnly p \<Longrightarrow> pg_roles (st w) n = Some r \<Longrightarrow>
      wp (pg_Exec conn (sql_set_password (pg_Sanitize conn n) p))
      (\<lambda>_ w'. st w' = put_role n (r\<lparr>rl_login := True, rl_password := Some p\<rparr>) (st w))
      (\<lambda>_ w'. st w' = st w \<or> st w' = put_role n (r\<lparr>rl_login := True, rl_password := Some p\<rparr>) (st w)) w"
    and set_setting: "pg_name n \<Longrightarrow> safe_setting s \<Longrightarrow> pg_roles (st w) n = Some r \<Longrightarrow>
      wp (pg_Exec conn (sql_set_setting (pg_Sanitize conn n) s))
      (\<lambda>_ w'. st w' = put_role n (r\<lparr>rl_settings := (rl_settings r)(set_Name s \<mapsto> set_Value s)\<rparr>) (st w))
      (\<lambda>_ w'. st w' = st w
         \<or> st w' = put_role n (r\<lparr>rl_settings := (rl_settings r)(set_Name s \<mapsto> set_Value s)\<rparr>) (st w)) w"
    and grant: "pg_name n \<Longrightarrow> wp (pg_Exec conn (sql_grant (pg_Sanitize conn n)))
      (\<lambda>_ w'. st w' = put_member n (st w)) (\<lambda>_ w'. st w' = st w \<or> st w' = put_member n (st w)) w"
    and create_database: "pg_name n \<Longrightarrow> pg_name o' \<Longrightarrow> o' \<in> pg_admin (st w) \<Longrightarrow>
      wp (pg_Exec conn (sql_create_database (pg_Sanitize conn n) (pg_Sanitize conn o')))
      (\<lambda>_ w'. pg_dbs (st w) n = None \<and> st w' = put_db n (Some o') (st w))
      (\<lambda>e w'. (st w' = st w \<or> pg_dbs (st w) n = None \<and> st w' = put_db n (Some o') (st w))
         \<and> (isDuplicate e \<longrightarrow> pg_dbs (st w') n \<noteq> None)) w"
    and drop_database: "pg_name n \<Longrightarrow> pg_dbs (st w) n = Some o' \<Longrightarrow> o' \<in> pg_admin (st w) \<Longrightarrow>
      wp (pg_Exec conn (sql_drop_database (pg_Sanitize conn n)))
      (\<lambda>_ w'. st w' = put_db n None (st w)) (\<lambda>_ w'. st w' = st w \<or> st w' = put_db n None (st w)) w"

text \<open>A role that can log in with this password.\<close>

definition role_ready :: "pg_state \<Rightarrow> string \<Rightarrow> string \<Rightarrow> bool" where
  "role_ready s n p \<longleftrightarrow> (\<exists>r. pg_roles s n = Some r \<and> rl_login r \<and> rl_password r = Some p)"

text \<open>The defaults a list of settings leaves: the last one of a name wins.\<close>

definition settings_of :: "setting list \<Rightarrow> string \<Rightarrow> string option" where
  "settings_of ss = map_of (rev (map (\<lambda>s. (set_Name s, set_Value s)) ss))"

definition login_ready :: "pg_state \<Rightarrow> role \<Rightarrow> bool" where
  "login_ready s r \<longleftrightarrow> role_ready s (role_Name r) (role_Password r)
     \<and> settings_of (role_Settings r) \<subseteq>\<^sub>m rl_settings (the (pg_roles s (role_Name r)))"

definition database_ready :: "pg_state \<Rightarrow> database \<Rightarrow> bool" where
  "database_ready s db \<longleftrightarrow> pg_dbs s (db_Name db) \<noteq> None \<and> role_ready s (OwnerRole db) (db_Password db)
     \<and> list_all (login_ready s) (db_LoginRoles db)"

definition roles_of :: "database \<Rightarrow> string list" where
  "roles_of db = OwnerRole db # map role_Name (db_LoginRoles db)"

text \<open>Nothing but these roles and these databases changes, a new database has one of these owners, and nothing goes.\<close>

definition pg_grows :: "string set \<Rightarrow> (string \<Rightarrow> string set) \<Rightarrow> pg_state \<Rightarrow> pg_state \<Rightarrow> bool" where
  "pg_grows R D s s' \<longleftrightarrow> (\<forall>n. n \<notin> R \<longrightarrow> pg_roles s' n = pg_roles s n) \<and> dom (pg_roles s) \<subseteq> dom (pg_roles s')
     \<and> pg_dbs s \<subseteq>\<^sub>m pg_dbs s' \<and> (\<forall>n owner. pg_dbs s n = None \<longrightarrow> pg_dbs s' n = Some owner \<longrightarrow> owner \<in> D n)"

lemma pg_grows_refl [simp]: "pg_grows R D s s"
  by (simp add: pg_grows_def)

lemma pg_grows_trans:
  assumes "pg_grows R D s s'" "pg_grows R D s' s''"
  shows "pg_grows R D s s''"
proof -
  have "owner \<in> D n" if "pg_dbs s n = None" "pg_dbs s'' n = Some owner" for n owner
  proof (cases "pg_dbs s' n")
    case None
    then show ?thesis using assms(2) that unfolding pg_grows_def by blast
  next
    case (Some b)
    then have "pg_dbs s'' n = Some b" using assms(2) unfolding pg_grows_def by (blast dest: map_le_Some)
    then show ?thesis using Some assms(1) that unfolding pg_grows_def by auto
  qed
  moreover have "pg_dbs s \<subseteq>\<^sub>m pg_dbs s''"
    using assms unfolding pg_grows_def by (blast intro: map_le_trans)
  moreover have "dom (pg_roles s) \<subseteq> dom (pg_roles s'')"
    using assms unfolding pg_grows_def by (blast intro: subset_trans)
  ultimately show ?thesis using assms unfolding pg_grows_def by simp
qed

lemma pg_grows_mono: "pg_grows R D s s' \<Longrightarrow> R \<subseteq> R' \<Longrightarrow> (\<And>n. D n \<subseteq> D' n) \<Longrightarrow> pg_grows R' D' s s'"
  unfolding pg_grows_def by blast

lemma pg_grows_put [simp, intro]:
  "n \<in> R \<Longrightarrow> pg_grows R D s (put_role n r s)" "pg_grows R D s (put_member n s)"
  "pg_dbs s n = None \<Longrightarrow> owner \<in> D n \<Longrightarrow> pg_grows R D s (put_db n (Some owner) s)"
  by (auto simp: pg_grows_def map_le_def)

lemma settings_of_Cons: "settings_of (x # xs) = [set_Name x \<mapsto> set_Value x] ++ settings_of xs"
  by (simp add: settings_of_def map_add_def fun_eq_iff map_of_append split: option.split)

lemma database_ready_stable:
  assumes "database_ready s db" "pg_grows R D s s'" "set (roles_of db) \<inter> R = {}"
  shows "database_ready s' db"
proof -
  have same: "pg_roles s' n = pg_roles s n" if "n \<in> set (roles_of db)" for n
    using assms(2,3) that by (auto simp: pg_grows_def)
  then have "pg_roles s' (OwnerRole db) = pg_roles s (OwnerRole db)"
    "r \<in> set (db_LoginRoles db) \<Longrightarrow> pg_roles s' (role_Name r) = pg_roles s (role_Name r)" for r
    by (auto simp: roles_of_def)
  moreover have "pg_dbs s' (db_Name db) \<noteq> None"
    using assms(1,2) by (auto simp: database_ready_def pg_grows_def dest: map_le_Some)
  ultimately show ?thesis
    using assms(1) by (auto simp: database_ready_def login_ready_def role_ready_def list_all_iff)
qed

lemma first_error_None: "first_error check xs = None \<longleftrightarrow> list_all (\<lambda>x. check x = None) xs"
  by (induction xs) (simp_all split: option.split)

lemma validate_setting_None: "validate_setting r s = None \<longleftrightarrow> safe_setting s"
  by (simp add: validate_setting_def safe_setting_def)

lemma validate_None:
  "validate db = None \<longleftrightarrow> hexOnly (db_Password db)
     \<and> list_all (\<lambda>r. hexOnly (role_Password r) \<and> list_all safe_setting (role_Settings r)) (db_LoginRoles db)"
  by (auto simp: validate_def validate_role_def first_error_None validate_setting_None list_all_iff)

lemma validateAll_None: "validateAll dbs = None \<longleftrightarrow> list_all (\<lambda>db. validate db = None) dbs"
  by (simp add: validateAll_def first_error_None)

context pg_server
begin

lemma wp_ensureLoginRole:
  assumes n: "pg_name n" and p: "hexOnly p"
  shows "wp (ensureLoginRole conn n p)
      (\<lambda>_ w'. \<exists>r. st w' = put_role n r (st w) \<and> rl_login r \<and> rl_password r = Some p)
      (\<lambda>_ w'. pg_grows {n} D (st w) (st w')) w"
proof -
  have set_pw: "wp (mapErr g (pg_Exec conn (sql_set_password (pg_Sanitize conn n) p)))
      (\<lambda>_ w'. \<exists>r. st w' = put_role n r (st w) \<and> rl_login r \<and> rl_password r = Some p)
      (\<lambda>_ w'. pg_grows {n} D (st w) (st w')) w1"
    if "pg_roles (st w1) n = Some r1" "st w1 = st w \<or> st w1 = put_role n r1 (st w)" for g w1 r1
    unfolding wp_mapErr
  proof (rule wp_weaken [OF set_password [OF n p that(1)]], goal_cases)
    case (1 u w2)
    then show ?case using that(2) by (auto simp: put_role_def)
  next
    case (2 e w2)
    then show ?case using that(2) by (auto simp: put_role_def pg_grows_def)
  qed
  show ?thesis
    unfolding ensureLoginRole_def Let_def
  proof (rule wp_bind_mapErr [OF role_exists], goal_cases)
    case (2 b w1)
    have "wp (if \<not> b then unlessDuplicate pre (pg_Exec conn (sql_create_role (pg_Sanitize conn n))) else returnE ())
        (\<lambda>_ w2. \<exists>r1. pg_roles (st w2) n = Some r1 \<and> (st w2 = st w \<or> st w2 = put_role n r1 (st w)))
        (\<lambda>_ w2. pg_grows {n} D (st w) (st w2)) w1" for pre
    proof (rule wp_ifI)
      assume "\<not> b"
      then show "wp (unlessDuplicate pre (pg_Exec conn (sql_create_role (pg_Sanitize conn n))))
          (\<lambda>_ w2. \<exists>r1. pg_roles (st w2) n = Some r1 \<and> (st w2 = st w \<or> st w2 = put_role n r1 (st w)))
          (\<lambda>_ w2. pg_grows {n} D (st w) (st w2)) w1"
        unfolding unlessDuplicate_def wp_catchE
        by (intro wp_weaken [OF create_role [OF n]]) (use 2 in \<open>auto simp: wp_simps\<close>)
    qed (use 2 in \<open>auto simp: wp_returnE\<close>)
    then show ?case
      by (rule wp_thenI) (auto intro: set_pw)
  qed simp
qed

lemma wp_set_settings:
  assumes n: "pg_name n" and "list_all safe_setting ss" "pg_roles (st w) n = Some r"
  shows "wp (forE (\<lambda>s. mapErr (g s) (pg_Exec conn (sql_set_setting (pg_Sanitize conn n) s))) ss)
      (\<lambda>_ w'. st w' = put_role n (r\<lparr>rl_settings := rl_settings r ++ settings_of ss\<rparr>) (st w))
      (\<lambda>_ w'. pg_grows {n} D (st w) (st w')) w"
  using assms(2-)
proof (induction ss arbitrary: w r)
  case Nil
  then show ?case by (simp add: wp_returnE settings_of_def put_role_def fun_upd_idem)
next
  case (Cons x xs)
  then have x: "safe_setting x" by simp
  let ?r = "r\<lparr>rl_settings := (rl_settings r)(set_Name x \<mapsto> set_Value x)\<rparr>"
  show ?case
    unfolding forE_Cons
  proof (rule wp_then_mapErr [OF set_setting [OF n x Cons.prems(2)]], goal_cases)
    case (1 e w')
    then show ?case by auto
  next
    case (2 u w1)
    then have "wp (forE (\<lambda>s. mapErr (g s) (pg_Exec conn (sql_set_setting (pg_Sanitize conn n) s))) xs)
        (\<lambda>_ w'. st w' = put_role n (?r\<lparr>rl_settings := rl_settings ?r ++ settings_of xs\<rparr>) (st w1))
        (\<lambda>_ w'. pg_grows {n} D (st w1) (st w')) w1"
      using Cons.prems by (intro Cons.IH) simp_all
    then show ?case
      by (rule wp_weaken)
        (use 2 in \<open>auto simp: put_role_def settings_of_Cons pg_grows_def\<close>)
  qed
qed

end

text \<open>Inputs \<open>Ensure\<close> accepts, whose names are Postgres names and whose roles differ.\<close>

definition database_ok :: "database \<Rightarrow> bool" where
  "database_ok db \<longleftrightarrow> validate db = None \<and> pg_name (db_Name db) \<and> list_all pg_name (roles_of db) \<and> distinct (roles_of db)"

definition owner_of :: "database list \<Rightarrow> string \<Rightarrow> string set" where
  "owner_of dbs n = {OwnerRole db | db. db \<in> set dbs \<and> db_Name db = n}"

lemma owner_of_Cons [simp]:
  "owner_of [] n = {}" "owner_of (db # dbs) n = (if db_Name db = n then {OwnerRole db} else {}) \<union> owner_of dbs n"
  by (auto simp: owner_of_def)

lemma login_ready_stable:
  "login_ready s r \<Longrightarrow> pg_grows R D s s' \<Longrightarrow> role_Name r \<notin> R \<Longrightarrow> login_ready s' r"
  by (simp add: login_ready_def role_ready_def pg_grows_def)

context pg_server
begin

lemma wp_login_role:
  assumes n: "pg_name (role_Name r)" and p: "hexOnly (role_Password r)" and s: "list_all safe_setting (role_Settings r)"
  shows "wp (thenE (ensureLoginRole conn (role_Name r) (role_Password r)) (ensureSettings conn r))
      (\<lambda>_ w'. login_ready (st w') r \<and> pg_grows {role_Name r} D (st w) (st w'))
      (\<lambda>_ w'. pg_grows {role_Name r} D (st w) (st w')) w"
proof (rule wp_thenI [OF wp_ensureLoginRole [OF n p, of _ D]], goal_cases)
  case (1 u w1)
  then obtain pr where pr: "st w1 = put_role (role_Name r) pr (st w)" "rl_login pr" "rl_password pr = Some (role_Password r)"
    by blast
  show ?case
    unfolding ensureSettings_def
  proof (rule wp_weaken [OF wp_set_settings [OF n s, of _ _ _ D]])
    show "pg_roles (st w1) (role_Name r) = Some pr" using pr by simp
  qed (use pr in \<open>auto simp: login_ready_def role_ready_def pg_grows_def split: if_splits\<close>)
qed

lemma wp_login_roles:
  assumes "list_all (\<lambda>r. pg_name (role_Name r) \<and> hexOnly (role_Password r) \<and> list_all safe_setting (role_Settings r)) rs"
    and "distinct (map role_Name rs)"
  shows "wp (forE (\<lambda>r. thenE (ensureLoginRole conn (role_Name r) (role_Password r)) (ensureSettings conn r)) rs)
      (\<lambda>_ w'. list_all (login_ready (st w')) rs \<and> pg_grows (role_Name ` set rs) D (st w) (st w'))
      (\<lambda>_ w'. pg_grows (role_Name ` set rs) D (st w) (st w')) w"
  using assms
proof (induction rs arbitrary: w)
  case Nil
  then show ?case by (simp add: wp_returnE)
next
  case (Cons r rs)
  let ?R = "role_Name ` set (r # rs)"
  have one: "pg_grows {role_Name r} D s s' \<Longrightarrow> pg_grows ?R D s s'" for s s'
    by (erule pg_grows_mono) auto
  have more': "pg_grows (role_Name ` set rs) D s s' \<Longrightarrow> pg_grows ?R D s s'" for s s'
    by (erule pg_grows_mono) auto
  have r: "pg_name (role_Name r)" "hexOnly (role_Password r)" "list_all safe_setting (role_Settings r)"
    using Cons.prems by auto
  show ?case
    unfolding forE_Cons
  proof (rule wp_thenI [OF wp_login_role [OF r, of D]], goal_cases)
    case (1 u w1)
    then have r1: "login_ready (st w1) r" and g1: "pg_grows ?R D (st w) (st w1)" by (blast intro: one)+
    have "wp (forE (\<lambda>r. thenE (ensureLoginRole conn (role_Name r) (role_Password r)) (ensureSettings conn r)) rs)
        (\<lambda>_ w'. list_all (login_ready (st w')) rs \<and> pg_grows (role_Name ` set rs) D (st w1) (st w'))
        (\<lambda>_ w'. pg_grows (role_Name ` set rs) D (st w1) (st w')) w1"
      using Cons.prems by (intro Cons.IH) auto
    then show ?case
    proof (rule wp_weaken, goal_cases)
      case (1 v w2)
      moreover have "role_Name r \<notin> role_Name ` set rs" using Cons.prems(2) by auto
      ultimately have "login_ready (st w2) r" using r1 login_ready_stable by blast
      moreover have "pg_grows ?R D (st w) (st w2)" using 1 by (blast intro: pg_grows_trans [OF g1] more')
      ultimately show ?case using 1 by simp
    next
      case (2 e w2)
      then show ?case by (blast intro: pg_grows_trans [OF g1] more')
    qed
  qed (blast intro: one)
qed

lemma wp_create_database:
  assumes n: "pg_name (db_Name db)" and o': "pg_name (OwnerRole db)" and absent: "pg_dbs (st w) (db_Name db) = None"
  shows "wp (thenE (mapErr g (pg_Exec conn (sql_grant (pg_Sanitize conn (OwnerRole db)))))
        (unlessDuplicate pre (pg_Exec conn (sql_create_database (pg_Sanitize conn (db_Name db)) (pg_Sanitize conn (OwnerRole db))))))
      (\<lambda>_ w'. pg_dbs (st w') (db_Name db) \<noteq> None \<and> pg_grows {} (owner_of [db]) (st w) (st w'))
      (\<lambda>_ w'. pg_grows {} (owner_of [db]) (st w) (st w')) w"
proof (rule wp_then_mapErr [OF grant [OF o']], goal_cases)
  case (1 e w')
  then show ?case by auto
next
  case (2 u w1)
  then have "OwnerRole db \<in> pg_admin (st w1)" by simp
  then show ?case
    unfolding unlessDuplicate_def wp_catchE
    by (intro wp_weaken [OF create_database [OF n o']]) (use 2 absent in \<open>auto simp: wp_simps pg_grows_def map_le_def\<close>)
qed

lemma wp_ensureOne:
  assumes ok: "database_ok db"
  shows "wp (ensureOne conn db)
      (\<lambda>_ w'. database_ready (st w') db \<and> pg_grows (set (roles_of db)) (owner_of [db]) (st w) (st w'))
      (\<lambda>_ w'. pg_grows (set (roles_of db)) (owner_of [db]) (st w) (st w')) w"
proof -
  let ?R = "set (roles_of db)" and ?D = "owner_of [db]"
  have n: "pg_name (db_Name db)" and o': "pg_name (OwnerRole db)" and p: "hexOnly (db_Password db)"
    and rs: "list_all (\<lambda>r. pg_name (role_Name r) \<and> hexOnly (role_Password r) \<and> list_all safe_setting (role_Settings r)) (db_LoginRoles db)"
    and dist: "distinct (map role_Name (db_LoginRoles db))" and other: "OwnerRole db \<notin> role_Name ` set (db_LoginRoles db)"
    using ok by (auto simp: database_ok_def validate_None roles_of_def list_all_iff)
  have sub: "pg_grows R ?D s s' \<Longrightarrow> R \<subseteq> ?R \<Longrightarrow> pg_grows ?R ?D s s'" for R s s'
    by (erule pg_grows_mono) auto
  have R: "{OwnerRole db} \<subseteq> ?R" "{} \<subseteq> ?R" "role_Name ` set (db_LoginRoles db) \<subseteq> ?R"
    by (auto simp: roles_of_def)
  show ?thesis
    unfolding ensureOne_def Let_def
  proof (rule wp_thenI [OF wp_ensureLoginRole [OF o' p, of _ ?D]], goal_cases)
    case (1 u w1)
    then have own: "role_ready (st w1) (OwnerRole db) (db_Password db)" and g1: "pg_grows ?R ?D (st w) (st w1)"
      by (auto simp: role_ready_def roles_of_def)
    show ?case
    proof (rule wp_bind_mapErr [OF database_exists], goal_cases)
      case (2 b w2)
      then have w2: "st w2 = st w1" and b: "b \<longleftrightarrow> pg_dbs (st w2) (db_Name db) \<noteq> None" by auto
      have made: "wp (if \<not> b then thenE (mapErr g (pg_Exec conn (sql_grant (pg_Sanitize conn (OwnerRole db)))))
          (unlessDuplicate pre (pg_Exec conn (sql_create_database (pg_Sanitize conn (db_Name db)) (pg_Sanitize conn (OwnerRole db)))))
        else returnE ())
        (\<lambda>_ w'. pg_dbs (st w') (db_Name db) \<noteq> None \<and> pg_grows {} ?D (st w2) (st w'))
        (\<lambda>_ w'. pg_grows {} ?D (st w2) (st w')) w2" for g pre
      proof (rule wp_ifI)
        show "wp (returnE ()) (\<lambda>_ w'. pg_dbs (st w') (db_Name db) \<noteq> None \<and> pg_grows {} ?D (st w2) (st w'))
          (\<lambda>_ w'. pg_grows {} ?D (st w2) (st w')) w2" if "\<not> \<not> b"
          using that b by (simp add: wp_returnE)
      qed (rule wp_create_database [OF n o'], use b in simp)
      show ?case
      proof (rule wp_thenI [OF made], goal_cases)
        case (1 v w3)
        then have g3: "pg_grows ?R ?D (st w) (st w3)"
          unfolding w2 using sub [OF _ R(2)] by (blast intro: pg_grows_trans [OF g1])
        have own3: "role_ready (st w3) (OwnerRole db) (db_Password db)"
          using 1 own unfolding w2 by (simp add: role_ready_def pg_grows_def)
        show ?case
        proof (rule wp_weaken [OF wp_login_roles [OF rs dist, of ?D]], goal_cases)
          case (1 x w4)
          then have "role_ready (st w4) (OwnerRole db) (db_Password db)"
            using own3 other by (simp add: role_ready_def pg_grows_def)
          moreover have "pg_dbs (st w4) (db_Name db) \<noteq> None"
            using 1 \<open>pg_dbs (st w3) (db_Name db) \<noteq> None \<and> _\<close> by (auto simp: pg_grows_def dest: map_le_Some)
          ultimately show ?case
            using 1 sub [OF _ R(3)] by (auto simp: database_ready_def intro: pg_grows_trans [OF g3])
        next
          case (2 e w4)
          then show ?case using sub [OF _ R(3)] by (blast intro: pg_grows_trans [OF g3])
        qed
      next
        case (2 e w3)
        then show ?case unfolding w2 using sub [OF _ R(2)] by (blast intro: pg_grows_trans [OF g1])
      qed
    qed (use g1 in auto)
  next
    case (2 e w1)
    then show ?case using sub [OF _ R(1)] by blast
  qed
qed

lemma wp_ensure_each:
  assumes "list_all database_ok dbs" "distinct (concat (map roles_of dbs))"
  shows "wp (forE (\<lambda>db. mapErr (g db) (ensureOne conn db)) dbs)
      (\<lambda>_ w'. list_all (database_ready (st w')) dbs
         \<and> pg_grows (set (concat (map roles_of dbs))) (owner_of dbs) (st w) (st w'))
      (\<lambda>_ w'. pg_grows (set (concat (map roles_of dbs))) (owner_of dbs) (st w) (st w')) w"
  using assms
proof (induction dbs arbitrary: w)
  case Nil
  then show ?case by (simp add: wp_returnE)
next
  case (Cons db dbs)
  let ?R = "set (concat (map roles_of (db # dbs)))" and ?D = "owner_of (db # dbs)"
    and ?R' = "set (concat (map roles_of dbs))"
  have one: "pg_grows (set (roles_of db)) (owner_of [db]) s s' \<Longrightarrow> pg_grows ?R ?D s s'" for s s'
    by (erule pg_grows_mono) auto
  have rest: "pg_grows ?R' (owner_of dbs) s s' \<Longrightarrow> pg_grows ?R ?D s s'" for s s'
    by (erule pg_grows_mono) auto
  have ok: "database_ok db" using Cons.prems by simp
  show ?case
    unfolding forE_Cons
  proof (rule wp_then_mapErr [OF wp_ensureOne [OF ok]], goal_cases)
    case (2 u w1)
    then have r1: "database_ready (st w1) db" and g1: "pg_grows ?R ?D (st w) (st w1)" by (blast intro: one)+
    have "wp (forE (\<lambda>db. mapErr (g db) (ensureOne conn db)) dbs)
        (\<lambda>_ w'. list_all (database_ready (st w')) dbs \<and> pg_grows ?R' (owner_of dbs) (st w1) (st w'))
        (\<lambda>_ w'. pg_grows ?R' (owner_of dbs) (st w1) (st w')) w1"
      using Cons.prems by (intro Cons.IH) auto
    then show ?case
    proof (rule wp_weaken, goal_cases)
      case (1 v w2)
      moreover have "set (roles_of db) \<inter> ?R' = {}" using Cons.prems(2) by auto
      ultimately have "database_ready (st w2) db" using r1 database_ready_stable by blast
      moreover have "pg_grows ?R ?D (st w) (st w2)" using 1 by (blast intro: pg_grows_trans [OF g1] rest)
      ultimately show ?case using 1 unfolding list.pred_inject by blast
    next
      case (2 e w2)
      then show ?case by (blast intro: pg_grows_trans [OF g1] rest)
    qed
  qed (blast intro: one)
qed

lemma wp_Ensure:
  assumes "list_all (\<lambda>db. pg_name (db_Name db) \<and> list_all pg_name (roles_of db)) dbs" "distinct (concat (map roles_of dbs))"
  shows "wp (dbinit_Ensure conn dbs)
      (\<lambda>_ w'. list_all (database_ready (st w')) dbs
         \<and> pg_grows (set (concat (map roles_of dbs))) (owner_of dbs) (st w) (st w'))
      (\<lambda>_ w'. pg_grows (set (concat (map roles_of dbs))) (owner_of dbs) (st w) (st w')) w"
proof (cases "validateAll dbs")
  case None
  moreover have "\<forall>db\<in>set dbs. distinct (roles_of db)"
    using assms(2) by (auto simp: distinct_concat_iff)
  ultimately have "list_all database_ok dbs"
    using assms(1) by (auto simp: validateAll_None database_ok_def list_all_iff)
  then show ?thesis
    using None wp_ensure_each [OF _ assms(2)] by (simp add: dbinit_Ensure_def)
qed (simp add: dbinit_Ensure_def wp_failE)

lemma wp_Drop:
  assumes n: "pg_name n" and owners: "\<And>owner. pg_dbs (st w) n = Some owner \<Longrightarrow> pg_name owner"
  shows "wp (dbinit_Drop conn n)
      (\<lambda>dropped w'. pg_dbs (st w') = (pg_dbs (st w))(n := None) \<and> (dropped \<longleftrightarrow> pg_dbs (st w) n \<noteq> None)
         \<and> pg_roles (st w') = pg_roles (st w))
      (\<lambda>_ w'. pg_dbs (st w') \<in> {pg_dbs (st w), (pg_dbs (st w))(n := None)} \<and> pg_roles (st w') = pg_roles (st w)) w"
  unfolding dbinit_Drop_def wp_bindE wp_tryE
proof (rule wp_weaken [OF database_owner], goal_cases)
  case (1 owner w1)
  then have w1: "pg_dbs (st w) n = Some owner" "st w1 = st w" by auto
  show ?case
    unfolding sum.case
  proof (rule wp_then_mapErr [OF grant [OF owners [OF w1(1)]]], goal_cases)
    case (2 u w2)
    then have w2: "pg_dbs (st w2) n = Some owner" "owner \<in> pg_admin (st w2)" using w1 by auto
    show ?case
      by (rule wp_then_mapErr [OF drop_database [OF n w2]]) (use 2 w1 in \<open>auto simp: wp_returnE\<close>)
  qed (use w1 in auto)
next
  case (2 e w1)
  then show ?case by (auto simp: wp_simps)
qed

lemma wp_Existing:
  "wp (Existing conn names) (\<lambda>ex w'. ex = filter (\<lambda>n. pg_dbs (st w) n \<noteq> None) names \<and> st w' = st w) (\<lambda>_ w'. st w' = st w) w"
proof -
  have "wp (foldE (\<lambda>name existing.
      bindE (mapErr (g name) (pg_QueryBool conn sql_database_exists name)) (\<lambda>ex.
      returnE (if ex then existing @ [name] else existing))) names acc)
    (\<lambda>ex w'. ex = acc @ filter (\<lambda>n. pg_dbs (st w) n \<noteq> None) names \<and> st w' = st w) (\<lambda>_ w'. st w' = st w) w" for g acc
  proof (induction names arbitrary: acc w)
    case Nil
    then show ?case by (simp add: wp_returnE)
  next
    case (Cons n names)
    show ?case
      unfolding foldE.simps bindE_assoc bindE_returnE
    proof (rule wp_bind_mapErr [OF database_exists], goal_cases)
      case (2 b w1)
      show ?case by (rule wp_weaken [OF Cons.IH]) (use 2 in auto)
    qed simp
  qed
  from this [of _ "[]"] show ?thesis by (simp add: Existing_def)
qed

end

text \<open>The statements frame what the operations do.\<close>

lemma keeps_dbinit:
  assumes R: "world_order R" and Exec: "\<And>sql. keeps R (pg_Exec conn sql)"
    and Query: "\<And>sql n. keeps R (pg_QueryBool conn sql n)" "\<And>sql n. keeps R (pg_QueryText conn sql n)"
  shows "keeps R (dbinit_Drop conn n)" "keeps R (dbinit_Ensure conn dbs)"
proof -
  note steps = keeps_intros R Exec Query
  show "keeps R (dbinit_Drop conn n)" unfolding dbinit_Drop_def Let_def by (intro steps)
  have "keeps R (ensureLoginRole conn name p)" for name p
    unfolding ensureLoginRole_def unlessDuplicate_def Let_def by (intro steps)
  moreover have "keeps R (ensureSettings conn r)" for r
    unfolding ensureSettings_def Let_def by (intro steps)
  ultimately have "keeps R (ensureOne conn db)" for db
    unfolding ensureOne_def unlessDuplicate_def Let_def by (intro steps)
  then show "keeps R (dbinit_Ensure conn dbs)" unfolding dbinit_Ensure_def by (intro steps)
qed

section \<open>An in-memory server\<close>

text \<open>
  It reads the statements back: an identifier between double quotes, a quote in it doubled. With
  \<open>fp_race\<close>, a concurrent run always creates the role or the database first.
\<close>

record fake_pg =
  fp_state :: pg_state
  fp_race :: bool

definition quoted :: "string \<Rightarrow> string" where
  "quoted n = [CHR 0x22] @ concat (map (\<lambda>c. if c = CHR 0x22 then [c, c] else [c]) n) @ [CHR 0x22]"

fun read_quoted :: "string \<Rightarrow> string \<times> string" where
  "read_quoted [] = ([], [])"
| "read_quoted [c] = (if c = CHR 0x22 then ([], []) else ([c], []))"
| "read_quoted (c # d # s) =
     (if c \<noteq> CHR 0x22 then (let (n, t) = read_quoted (d # s) in (c # n, t))
      else if d = CHR 0x22 then (let (n, t) = read_quoted s in (c # n, t))
      else ([], d # s))"

definition read_ident :: "string \<Rightarrow> string \<times> string" where
  "read_ident s = read_quoted (tl s)"

definition fake_create :: "string \<Rightarrow> bool \<Rightarrow> (pg_state \<Rightarrow> pg_state) \<Rightarrow> (fake_pg, unit) act" where
  "fake_create code ex upd w =
     (if ex then (Fail (Dep (PgError code) ''already exists''), w)
      else (if fp_race w then Fail (Dep (PgError code) ''already exists'') else Ok (), w\<lparr>fp_state := upd (fp_state w)\<rparr>))"

definition fake_update :: "(pg_state \<Rightarrow> pg_state) \<Rightarrow> (fake_pg, unit) act" where
  "fake_update upd w = (Ok (), w\<lparr>fp_state := upd (fp_state w)\<rparr>)"

definition fake_alter :: "string \<Rightarrow> string \<Rightarrow> (fake_pg, unit) act" where
  "fake_alter n t w =
     (case pg_roles (fp_state w) n of
        None \<Rightarrow> (Fail (Dep (PgError ''42704'') ''role does not exist''), w)
      | Some r \<Rightarrow>
     (case cut_prefix t ('' WITH LOGIN PASSWORD '' @ [CHR 0x27]) of
        Some v \<Rightarrow> fake_update (put_role n (r\<lparr>rl_login := True, rl_password := Some (butlast v)\<rparr>)) w
      | None \<Rightarrow>
          (let (name, v, _) = cut_at (drop 5 t) (CHR '' '') in
           fake_update (put_role n (r\<lparr>rl_settings := (rl_settings r)(name \<mapsto> butlast (drop 3 v))\<rparr>)) w)))"

definition fake_Exec :: "string \<Rightarrow> (fake_pg, unit) act" where
  "fake_Exec sql w =
     (case cut_prefix sql ''CREATE ROLE '' of
        Some s \<Rightarrow>
          (let n = fst (read_ident s) in
           fake_create ''42710'' (pg_roles (fp_state w) n \<noteq> None) (put_role n \<lparr>rl_login = True, rl_password = None, rl_settings = Map.empty\<rparr>) w)
      | None \<Rightarrow>
     (case cut_prefix sql ''ALTER ROLE '' of
        Some s \<Rightarrow> (let (n, t) = read_ident s in fake_alter n t w)
      | None \<Rightarrow>
     (case cut_prefix sql ''GRANT '' of
        Some s \<Rightarrow> fake_update (put_member (fst (read_ident s))) w
      | None \<Rightarrow>
     (case cut_prefix sql ''CREATE DATABASE '' of
        Some s \<Rightarrow>
          (let (n, t) = read_ident s; o' = fst (read_ident (drop 7 t)) in
           fake_create ''42P04'' (pg_dbs (fp_state w) n \<noteq> None) (put_db n (Some o')) w)
      | None \<Rightarrow>
     (case cut_prefix sql ''DROP DATABASE IF EXISTS '' of
        Some s \<Rightarrow> fake_update (put_db (fst (read_ident s)) None) w
      | None \<Rightarrow> (Fail (Dep (PgError ''42601'') ''syntax error''), w))))))"

definition fake_pg_conn :: "fake_pg pg_conn" where
  "fake_pg_conn =
     \<lparr>pg_Exec = fake_Exec,
      pg_QueryBool = (\<lambda>sql n w.
        (Ok (if sql = sql_role_exists then pg_roles (fp_state w) n \<noteq> None else pg_dbs (fp_state w) n \<noteq> None), w)),
      pg_QueryText = (\<lambda>sql n w.
        (case pg_dbs (fp_state w) n of Some o' \<Rightarrow> Ok o' | None \<Rightarrow> Fail (Dep ErrNoRows ''no rows in result set''), w)),
      pg_Sanitize = quoted\<rparr>"

lemma read_quoted_stop: "t = [] \<or> hd t \<noteq> CHR 0x22 \<Longrightarrow> read_quoted (CHR 0x22 # t) = ([], t)"
  by (cases t) auto

lemma read_quoted_quoted:
  assumes "t = [] \<or> hd t \<noteq> CHR 0x22"
  shows "read_quoted (concat (map (\<lambda>c. if c = CHR 0x22 then [c, c] else [c]) n) @ CHR 0x22 # t) = (n, t)"
proof (induction n)
  case Nil
  then show ?case using read_quoted_stop [OF assms] by simp
next
  case (Cons c n)
  have step: "c \<noteq> CHR 0x22 \<Longrightarrow> u \<noteq> [] \<Longrightarrow> read_quoted (c # u) = (let (n, t) = read_quoted u in (c # n, t))"
    "read_quoted (CHR 0x22 # CHR 0x22 # u) = (let (n, t) = read_quoted u in (CHR 0x22 # n, t))" for u
    by (cases u, simp_all)
  show ?case
    by (cases "c = CHR 0x22") (simp_all add: step Cons.IH del: read_quoted.simps)
qed

lemma read_ident_quoted [simp]:
  "t = [] \<or> hd t \<noteq> CHR 0x22 \<Longrightarrow> read_ident (quoted n @ t) = (n, t)"
  by (simp add: read_ident_def quoted_def read_quoted_quoted)

lemma read_ident_quoted_end [simp]: "read_ident (quoted n) = (n, [])"
  using read_ident_quoted [of "[]" n] by simp


lemmas sql_defs = sql_create_role_def sql_set_password_def sql_set_setting_def sql_grant_def
  sql_create_database_def sql_drop_database_def

lemma fake_statements:
  "fake_Exec (sql_create_role (quoted n)) w =
     fake_create ''42710'' (pg_roles (fp_state w) n \<noteq> None) (put_role n \<lparr>rl_login = True, rl_password = None, rl_settings = Map.empty\<rparr>) w"
  "fake_Exec (sql_grant (quoted n)) w = fake_update (put_member n) w"
  "fake_Exec (sql_create_database (quoted n) (quoted o')) w =
     fake_create ''42P04'' (pg_dbs (fp_state w) n \<noteq> None) (put_db n (Some o')) w"
  "fake_Exec (sql_drop_database (quoted n)) w = fake_update (put_db n None) w"
  "fake_Exec (sql_set_password (quoted n) p) w =
     fake_alter n ('' WITH LOGIN PASSWORD '' @ [CHR 0x27] @ p @ [CHR 0x27]) w"
  "fake_Exec (sql_set_setting (quoted n) s) w =
     fake_alter n ('' SET '' @ set_Name s @ '' = '' @ [CHR 0x27] @ set_Value s @ [CHR 0x27]) w"
  by (simp_all add: fake_Exec_def sql_defs cut_prefix_def)

lemma fake_alter_password:
  "pg_roles (fp_state w) n = Some r \<Longrightarrow>
   fake_alter n ('' WITH LOGIN PASSWORD '' @ [CHR 0x27] @ p @ [CHR 0x27]) w
     = fake_update (put_role n (r\<lparr>rl_login := True, rl_password := Some p\<rparr>)) w"
  by (simp add: fake_alter_def cut_prefix_def)

lemma fake_alter_setting:
  assumes "pg_roles (fp_state w) n = Some r" "safe_setting s"
  shows "fake_alter n ('' SET '' @ set_Name s @ '' = '' @ [CHR 0x27] @ set_Value s @ [CHR 0x27]) w
     = fake_update (put_role n (r\<lparr>rl_settings := (rl_settings r)(set_Name s \<mapsto> set_Value s)\<rparr>)) w"
proof -
  have "set_Name s = ''statement_timeout'' \<or> set_Name s = ''idle_in_transaction_session_timeout''"
    using assms(2) by (simp add: safe_setting_def allowedSettings_def split: if_splits)
  then have "CHR '' '' \<notin> set (set_Name s)" by auto
  then have "cut_at (set_Name s @ CHR '' '' # t) (CHR '' '') = (set_Name s, t, True)" for t
    by (rule cut_at_append)
  then show ?thesis
    using assms(1) by (simp add: fake_alter_def cut_prefix_def)
qed

lemma fake_pg_sel [simp]:
  "pg_Exec fake_pg_conn = fake_Exec" "pg_Sanitize fake_pg_conn = quoted"
  by (simp_all add: fake_pg_conn_def)

lemma sql_differ [simp]: "sql_database_exists \<noteq> sql_role_exists"
  by (simp add: sql_database_exists_def sql_role_exists_def)

interpretation fake_pg: pg_server fake_pg_conn fp_state
proof (unfold_locales, unfold fake_pg_sel, goal_cases)
  case (1 n w)
  show ?case by (simp add: fake_pg_conn_def wp_def)
next
  case (2 n w)
  show ?case by (simp add: fake_pg_conn_def wp_def)
next
  case (3 n w)
  show ?case by (simp add: fake_pg_conn_def wp_def split: option.split)
next
  case (4 n w)
  show ?case
    unfolding wp_def fake_statements fake_create_def by auto
next
  case (5 n p w r)
  show ?case
    unfolding wp_def fake_statements fake_alter_password [OF 5(3)] fake_update_def by simp
next
  case (6 n s w r)
  show ?case
    unfolding wp_def fake_statements fake_alter_setting [OF 6(3,2)] fake_update_def by simp
next
  case (7 n w)
  show ?case unfolding wp_def fake_statements fake_update_def by simp
next
  case (8 n o' w)
  show ?case
    unfolding wp_def fake_statements fake_create_def by auto
next
  case (9 n w o')
  show ?case unfolding wp_def fake_statements fake_update_def by simp
qed

section \<open>Properties\<close>

text \<open>A value that cannot end a literal: letters and digits only, and at least one.\<close>

definition inert :: "string \<Rightarrow> bool" where
  "inert v \<longleftrightarrow> v \<noteq> [] \<and> list_all is_alnum v"

lemma hexOnly_inert: "hexOnly p \<Longrightarrow> inert p"
proof -
  have "list_all is_alnum ''0123456789abcdef''" by (simp add: is_alnum_def)
  then have "is_hex c \<Longrightarrow> is_alnum c" for c unfolding is_hex_def list_all_iff by blast
  then show "hexOnly p \<Longrightarrow> inert p" unfolding hexOnly_def inert_def list_all_iff by blast
qed

lemma durationValue_inert:
  assumes "durationValue v"
  shows "inert v"
proof -
  have "v = takeWhile is_digit v @ dropWhile is_digit v" by simp
  moreover have "list_all is_alnum (takeWhile is_digit v)"
    by (auto simp: list_all_iff is_alnum_def is_digit_def dest!: set_takeWhileD)
  moreover have "\<forall>u\<in>{[], ''ms'', ''s'', ''min''}. list_all is_alnum u" by (simp add: is_alnum_def)
  then have "list_all is_alnum (dropWhile is_digit v)" using assms unfolding durationValue_def by blast
  moreover have "takeWhile is_digit v \<noteq> []" using assms unfolding durationValue_def by blast
  ultimately show ?thesis
    unfolding inert_def by (metis append_is_Nil_conv list_all_append)
qed

text \<open>
  C15. Nothing is sent to Postgres unless every input is safe to write into a statement: either
  \<open>Ensure\<close> fails with the connection never used, or every password and every setting value of every
  database in the list is made of letters and digits only and every setting is one of the allowed
  ones.
\<close>

theorem Ensure_validates_first:
  "(\<exists>err. validateAll dbs = Some err \<and> dbinit_Ensure conn dbs = failE err)
   \<or> list_all (\<lambda>db. inert (db_Password db) \<and> list_all (\<lambda>r. inert (role_Password r)
        \<and> list_all (\<lambda>s. set_Name s \<in> {''statement_timeout'', ''idle_in_transaction_session_timeout''} \<and> inert (set_Value s))
            (role_Settings r)) (db_LoginRoles db)) dbs"
proof (cases "validateAll dbs")
  case None
  have "safe_setting s \<Longrightarrow> set_Name s \<in> {''statement_timeout'', ''idle_in_transaction_session_timeout''} \<and> inert (set_Value s)" for s
    by (auto simp: safe_setting_def allowedSettings_def durationValue_inert split: if_splits)
  then show ?thesis
    using None by (auto simp: validateAll_None validate_None list_all_iff hexOnly_inert)
qed (simp add: dbinit_Ensure_def)

text \<open>
  C14. After a successful \<open>Ensure\<close> every database exists, its owner and every further role can log in
  with the given password and has the given settings. Whatever the outcome, only the named roles
  have changed, no role or database is gone, a database that existed keeps its owner and a new one has
  the owner asked for. Other runs may create the same roles and databases at the same time.
\<close>

theorem Ensure_reaches:
  assumes "pg_server conn st"
    and "list_all (\<lambda>db. pg_name (db_Name db) \<and> list_all pg_name (roles_of db)) dbs"
    and "distinct (concat (map roles_of dbs))"
  shows "wp (dbinit_Ensure conn dbs)
      (\<lambda>_ w'. list_all (database_ready (st w')) dbs
         \<and> pg_grows (set (concat (map roles_of dbs))) (owner_of dbs) (st w) (st w'))
      (\<lambda>_ w'. pg_grows (set (concat (map roles_of dbs))) (owner_of dbs) (st w) (st w')) w"
  by (rule pg_server.wp_Ensure [OF assms])

definition test_databases :: "database list" where
  "test_databases =
     [\<lparr>db_Name = ''sprue'', db_Owner = [], db_Password = ''abc123'', db_LoginRoles = []\<rparr>,
      \<lparr>db_Name = ''pandora'', db_Owner = ''pandora_admin'', db_Password = ''abc124'', db_LoginRoles =
         [\<lparr>role_Name = ''pandora_storage_server'', role_Password = ''abc125'',
           role_Settings = [\<lparr>set_Name = ''statement_timeout'', set_Value = ''15s''\<rparr>]\<rparr>]\<rparr>]"

definition test_pg :: "bool \<Rightarrow> fake_pg" where
  "test_pg race =
     \<lparr>fp_state = \<lparr>pg_roles = [''sprue'' \<mapsto> \<lparr>rl_login = True, rl_password = None, rl_settings = Map.empty\<rparr>],
        pg_dbs = [''sprue'' \<mapsto> ''sprue''], pg_admin = {}\<rparr>, fp_race = race\<rparr>"

theorem Ensure_reaches_witness:
  "wp (dbinit_Ensure fake_pg_conn test_databases)
      (\<lambda>_ w'. list_all (database_ready (fp_state w')) test_databases
         \<and> pg_grows (set (concat (map roles_of test_databases))) (owner_of test_databases) (fp_state (test_pg True)) (fp_state w'))
      (\<lambda>_ w'. pg_grows (set (concat (map roles_of test_databases))) (owner_of test_databases) (fp_state (test_pg True)) (fp_state w'))
      (test_pg True)"
  by (rule Ensure_reaches [OF fake_pg.pg_server_axioms])
    (simp_all add: test_databases_def pg_name_def roles_of_def OwnerRole_def)

text \<open>
  C35. \<open>Drop\<close> removes exactly the named database, whoever owns it, reports whether there was one, and
  keeps every role with its password. A call that fails has dropped at most that database.
\<close>

theorem Drop_exact:
  assumes "pg_server conn st" "pg_name n" "\<And>owner. pg_dbs (st w) n = Some owner \<Longrightarrow> pg_name owner"
  shows "wp (dbinit_Drop conn n)
      (\<lambda>dropped w'. pg_dbs (st w') = (pg_dbs (st w))(n := None) \<and> (dropped \<longleftrightarrow> pg_dbs (st w) n \<noteq> None)
         \<and> pg_roles (st w') = pg_roles (st w))
      (\<lambda>_ w'. pg_dbs (st w') \<in> {pg_dbs (st w), (pg_dbs (st w))(n := None)} \<and> pg_roles (st w') = pg_roles (st w)) w"
  by (rule pg_server.wp_Drop [OF assms])

theorem Drop_exact_witness:
  "wp (dbinit_Drop fake_pg_conn ''sprue'')
      (\<lambda>dropped w'. pg_dbs (fp_state w') = (pg_dbs (fp_state (test_pg False)))(''sprue'' := None)
         \<and> (dropped \<longleftrightarrow> pg_dbs (fp_state (test_pg False)) ''sprue'' \<noteq> None)
         \<and> pg_roles (fp_state w') = pg_roles (fp_state (test_pg False)))
      (\<lambda>_ w'. pg_dbs (fp_state w') \<in> {pg_dbs (fp_state (test_pg False)), (pg_dbs (fp_state (test_pg False)))(''sprue'' := None)}
         \<and> pg_roles (fp_state w') = pg_roles (fp_state (test_pg False))) (test_pg False)"
  by (rule Drop_exact [OF fake_pg.pg_server_axioms]) (simp_all add: test_pg_def pg_name_def split: if_splits)

text \<open>
  C36. A connection string is read back as what it was made from: whatever bytes the user, the
  password and the database carry, a parser finds the same ones, the host and the port, and the TLS
  mode. In particular the password RDS generates cannot move where the host begins.
\<close>

theorem connection_string_roundtrip:
  assumes "list_all host_char host"
  shows "url_Parse (AdminDSN host port database username password)
      = Some (username, password, host @ '':'' @ itoa port, database, ''sslmode=require'')
    \<and> url_Parse (DSN host port database username password SSLVerifyFull)
      = Some (username, password, host @ '':'' @ itoa port, database, ''sslmode=verify-full'')"
  using url_Parse_connectionString [OF assms, of SSLRequire] url_Parse_connectionString [OF assms, of SSLVerifyFull]
  by (simp add: AdminDSN_def DSN_def SSLRequire_def SSLVerifyFull_def)

theorem connection_string_roundtrip_witness:
  "url_Parse (AdminDSN ''db.internal'' 5432 ''postgres'' ''forge_admin'' ''a[b]c/d?e#f@g'')
      = Some (''forge_admin'', ''a[b]c/d?e#f@g'', ''db.internal'' @ '':'' @ itoa 5432, ''postgres'', ''sslmode=require'')"
  by (rule connection_string_roundtrip [THEN conjunct1]) (simp add: host_char_def is_alnum_def)

end
