(* ===== verification/Retire.thy ===== *)
theory Retire
imports OnboardPhase DbInit
begin

text \<open>
  \<open>cmd/provision/retire.go\<close>: the phase that removes a region's Ingot identity from hilt's database and
  from SSM. hilt's database is reached through pgx, whose connections and transactions are the
  parameters below; \<open>rows.Close\<close> frees client memory and is left out.
\<close>

section \<open>pgx\<close>

datatype pg_arg = ArgText string | ArgTexts "string list"

text \<open>
  The read half: a row of one text or one count, or the rows of a query, as the scans in order (one
  may fail) and the error \<open>rows.Err\<close> reports after the last.
\<close>

record 'w querier =
  qr_QueryText :: "string \<Rightarrow> pg_arg \<Rightarrow> ('w, string) act"
  qr_QueryCount :: "string \<Rightarrow> pg_arg \<Rightarrow> ('w, int) act"
  qr_Query :: "string \<Rightarrow> pg_arg \<Rightarrow> ('w, (go_error + string) list \<times> go_error option) act"

record 'w pgx_tx =
  tx_querier :: "'w querier"
  tx_Exec :: "string \<Rightarrow> pg_arg \<Rightarrow> ('w, int) act"
  tx_Commit :: "('w, unit) act"
  tx_Rollback :: "'w \<Rightarrow> 'w"

record 'w pgx_conn =
  px_querier :: "'w querier"
  px_db :: "'w pg_conn"
  px_Begin :: "('w, 'w pgx_tx) act"
  px_Close :: "'w \<Rightarrow> 'w"

type_synonym 'w pgx_Connect = "string \<Rightarrow> ('w, 'w pgx_conn) act"

section \<open>What a region holds\<close>

definition rp_Empty :: "retire_plan \<Rightarrow> bool" where
  "rp_Empty p \<longleftrightarrow> rp_ProviderDID p = [] \<and> rp_Parameters p = []"

definition proofParameters :: "string list" where
  "proofParameters = [''hilt-ingot-s3-proof'', ''hilt-ingot-s3-proof'' @ proofIssuerKey]"

record regionDIDs =
  rd_provider :: string
  rd_buckets :: "string list"

definition rd_all :: "regionDIDs \<Rightarrow> string list" where
  "rd_all r = rd_provider r # rd_buckets r"

definition sql_region_provider :: string where
  "sql_region_provider = ''SELECT id FROM provider WHERE region = $1''"

definition sql_provider_buckets :: string where
  "sql_provider_buckets = ''SELECT id FROM bucket WHERE provider_id = $1''"

text \<open>\<open>for rows.Next() { if err := rows.Scan(&id); err != nil { return nil, err }; ... }\<close>.\<close>

fun scan_rows :: "(go_error + string) list \<Rightarrow> go_error + string list" where
  "scan_rows [] = Inr []"
| "scan_rows (Inl err # rows) = Inl err"
| "scan_rows (Inr v # rows) = (case scan_rows rows of Inl err \<Rightarrow> Inl err | Inr vs \<Rightarrow> Inr (v # vs))"

definition readRegionDIDs :: "'w querier \<Rightarrow> string \<Rightarrow> ('w, regionDIDs option) act" where
  "readRegionDIDs conn region =
     bindE (tryE (qr_QueryText conn sql_region_provider (ArgText region))) (\<lambda>res.
     case res of
       Inl err \<Rightarrow>
         if ErrNoRows \<in> set (err_deps err) then returnE None
         else failE (wrap (''read hilt'' @ possessive @ '' provider row for region '' @ region @ '': '') err)
     | Inr provider \<Rightarrow>
         (let pre = ''read hilt'' @ possessive @ '' bucket rows under '' @ provider @ '': '' in
          bindE (mapErr (wrap pre) (qr_Query conn sql_provider_buckets (ArgText provider))) (\<lambda>(rows, rowsErr).
          bindE (sumE (scan_rows rows)) (\<lambda>buckets.
          case rowsErr of
            Some err \<Rightarrow> failE (wrap pre err)
          | None \<Rightarrow> returnE (Some \<lparr>rd_provider = provider, rd_buckets = buckets\<rparr>)))))"

definition delegationPredicate :: string where
  "delegationPredicate = ''issuer = ANY($1) OR audience = ANY($1) OR subject = ANY($1)''"

definition countDelegations :: "'w querier \<Rightarrow> string list \<Rightarrow> ('w, int) act" where
  "countDelegations conn dids =
     mapErr (wrap (''count hilt'' @ possessive @ '' delegations for the region: ''))
       (qr_QueryCount conn (''SELECT count(*) FROM delegation WHERE '' @ delegationPredicate) (ArgTexts dids))"

record regionDelete =
  del_table :: string
  del_sql :: string
  del_arg :: pg_arg

definition regionDeletes :: "regionDIDs \<Rightarrow> regionDelete list" where
  "regionDeletes dids =
     [\<lparr>del_table = ''delegation'', del_sql = ''DELETE FROM delegation WHERE '' @ delegationPredicate, del_arg = ArgTexts (rd_all dids)\<rparr>,
      \<lparr>del_table = ''bucket'', del_sql = ''DELETE FROM bucket WHERE provider_id = $1'', del_arg = ArgText (rd_provider dids)\<rparr>,
      \<lparr>del_table = ''provider'', del_sql = ''DELETE FROM provider WHERE id = $1'', del_arg = ArgText (rd_provider dids)\<rparr>]"

section \<open>The plan\<close>

definition planRetire :: "'w pgx_Connect \<Rightarrow> 'w deps \<Rightarrow> string \<Rightarrow> string \<Rightarrow> ('w, retire_plan) act" where
  "planRetire connect d dsn region =
     (let service = applianceService region in
      bindE (foldE (\<lambda>name ps.
          bindE (LookupPublic (dp_store d) service name) (\<lambda>found.
          returnE (case found of None \<Rightarrow> ps | Some _ \<Rightarrow> ps @ [Path (dp_store d) service name]))) proofParameters []) (\<lambda>ps.
      let plan = \<lparr>rp_Region = region, rp_ProviderDID = [], rp_Rows = [], rp_Parameters = ps\<rparr> in
      bindE (mapErr (wrap (''connect to hilt'' @ possessive @ '' database: '')) (connect dsn)) (\<lambda>conn.
      deferE (px_Close conn)
        (bindE (readRegionDIDs (px_querier conn) region) (\<lambda>found.
         case found of
           None \<Rightarrow> returnE plan
         | Some dids \<Rightarrow>
             bindE (countDelegations (px_querier conn) (rd_all dids)) (\<lambda>delegations.
             returnE (plan\<lparr>rp_ProviderDID := rd_provider dids,
               rp_Rows := [(''provider'', 1), (''bucket'', int (length (rd_buckets dids))), (''delegation'', delegations)]\<rparr>)))))))"

section \<open>The deletion\<close>

definition delete_rows :: "'w pgx_tx \<Rightarrow> string \<Rightarrow> regionDelete list \<Rightarrow> ('w, (string, int) go_map) act" where
  "delete_rows tx region deletes =
     foldE (\<lambda>s deleted.
       bindE (mapErr (wrap (''delete hilt'' @ possessive @ '' '' @ del_table s @ '' rows for region '' @ region @ '': ''))
         (tx_Exec tx (del_sql s) (del_arg s))) (\<lambda>rows.
       returnE (AList.update (del_table s) rows deleted))) deletes []"

definition deleteRegionRows :: "'w pgx_Connect \<Rightarrow> string \<Rightarrow> string \<Rightarrow> ('w, (string, int) go_map) act" where
  "deleteRegionRows connect dsn region =
     bindE (mapErr (wrap (''connect to hilt'' @ possessive @ '' database: '')) (connect dsn)) (\<lambda>conn.
     deferE (px_Close conn)
       (bindE (mapErr (wrap ''begin the retirement transaction: '') (px_Begin conn)) (\<lambda>tx.
        deferE (tx_Rollback tx)
          (bindE (readRegionDIDs (tx_querier tx) region) (\<lambda>found.
           case found of
             None \<Rightarrow> failE (Errorf (''hilt'' @ possessive @ '' provider row for region '' @ region @ '' went away mid-retirement''))
           | Some dids \<Rightarrow>
               bindE (delete_rows tx region (regionDeletes dids)) (\<lambda>deleted.
               thenE (mapErr (wrap ''commit the retirement: '') (tx_Commit tx)) (returnE deleted)))))))"

definition applyRetire :: "'w pgx_Connect \<Rightarrow> 'w deps \<Rightarrow> string \<Rightarrow> retire_plan \<Rightarrow> ('w, response) act" where
  "applyRetire connect d dsn plan =
     bindE (if rp_ProviderDID plan \<noteq> [] then deleteRegionRows connect dsn (rp_Region plan) else returnE []) (\<lambda>rows.
     bindE (Delete (dp_store d) (applianceService (rp_Region plan)) proofParameters) (\<lambda>deleted.
     returnE ((response_of ''retire'')
       \<lparr>rs_RetireResult := Some \<lparr>rr_Region = rp_Region plan, rr_ProviderDID = rp_ProviderDID plan,
          rr_Rows = rows, rr_Parameters = deleted\<rparr>\<rparr>)))"

definition retirePhase :: "'w pgx_Connect \<Rightarrow> 'w deps \<Rightarrow> provision_request \<Rightarrow> ('w, response) act" where
  "retirePhase connect d req =
     (if rq_Region req = [] then failE (Errorf ''the retire phase needs a region'')
      else
        bindE (mapErr (wrap (''read hilt'' @ possessive @ '' database DSN: '')) (GetSecret (dp_store d) ''hilt'' ''postgres-dsn'')) (\<lambda>dsn.
        bindE (planRetire connect d dsn (rq_Region req)) (\<lambda>plan.
        if \<not> rq_Confirm req then
          returnE ((response_of ''retire'')\<lparr>rs_DryRun := True, rs_RetirePlan := Some plan\<rparr>)
        else if rp_Empty plan then
          returnE ((response_of ''retire'')
            \<lparr>rs_RetireResult := Some \<lparr>rr_Region = rq_Region req, rr_ProviderDID = [], rr_Rows = [], rr_Parameters = []\<rparr>\<rparr>)
        else applyRetire connect d dsn plan)))"

end
