(* ===== verification/Json.thy ===== *)
theory Json
imports Encodings
begin

text \<open>
  \<open>encoding/json\<close>, as far as the program uses it: \<open>Marshal\<close> of strings, of a list of strings and of a
  map from strings to strings, and \<open>Unmarshal\<close> into a struct of strings. Text is bytes in UTF-8. The
  wording of a syntax error is not modelled.
\<close>

text \<open>A decoded value; a number keeps its literal.\<close>

datatype json =
    JNull
  | JBool bool
  | JNum string
  | JStr string
  | JArr "json list"
  | JObj "(string \<times> json) list"

section \<open>UTF-8\<close>

definition in_range :: "nat \<Rightarrow> nat \<Rightarrow> char \<Rightarrow> bool" where
  "in_range a b c \<longleftrightarrow> a \<le> byte c \<and> byte c \<le> b"

abbreviation utf8_tail :: "char \<Rightarrow> bool" where
  "utf8_tail \<equiv> in_range 0x80 0xBF"

text \<open>\<open>utf8.DecodeRune\<close>: the length of the encoding at the head, \<open>0\<close> if there is none.\<close>

fun utf8_len :: "string \<Rightarrow> nat" where
  "utf8_len [] = 0"
| "utf8_len (a # s) =
     (if byte a < 0x80 then 1
      else (case s of
        [] \<Rightarrow> 0
      | b # s2 \<Rightarrow>
          if in_range 0xC2 0xDF a then (if utf8_tail b then 2 else 0)
          else (case s2 of
            [] \<Rightarrow> 0
          | c # s3 \<Rightarrow>
              if in_range 0xE0 0xEF a then
                (if (if byte a = 0xE0 then in_range 0xA0 0xBF b
                     else if byte a = 0xED then in_range 0x80 0x9F b
                     else utf8_tail b) \<and> utf8_tail c then 3 else 0)
              else (case s3 of
                [] \<Rightarrow> 0
              | d # _ \<Rightarrow>
                  if in_range 0xF0 0xF4 a
                     \<and> (if byte a = 0xF0 then in_range 0x90 0xBF b
                        else if byte a = 0xF4 then in_range 0x80 0x8F b
                        else utf8_tail b) \<and> utf8_tail c \<and> utf8_tail d then 4 else 0))))"

lemma utf8_len_le: "utf8_len s \<le> length s"
  by (cases s) (auto split: list.split)

definition utf8_rune :: "nat \<Rightarrow> string" where
  "utf8_rune r =
     (if r < 0x80 then [char_of r]
      else if r < 0x800 then [char_of (0xC0 + r div 64), char_of (0x80 + r mod 64)]
      else if r < 0x10000 then
        [char_of (0xE0 + r div 4096), char_of (0x80 + r div 64 mod 64), char_of (0x80 + r mod 64)]
      else
        [char_of (0xF0 + r div 262144), char_of (0x80 + r div 4096 mod 64), char_of (0x80 + r div 64 mod 64),
         char_of (0x80 + r mod 64)])"

definition replacement_rune :: string where
  "replacement_rune = [CHR 0xEF, CHR 0xBF, CHR 0xBD]"

section \<open>Marshal\<close>

definition u_escape :: "nat \<Rightarrow> string" where
  "u_escape n =
     [CHR 0x5C, CHR ''u'', hex_nibble (n div 4096 mod 16), hex_nibble (n div 256 mod 16), hex_nibble (n div 16 mod 16),
      hex_nibble (n mod 16)]"

definition json_ascii :: "char \<Rightarrow> string" where
  "json_ascii c =
     (if c = CHR 0x22 \<or> c = CHR 0x5C then [CHR 0x5C, c]
      else if byte c = 8 then [CHR 0x5C, CHR ''b'']
      else if byte c = 12 then [CHR 0x5C, CHR ''f'']
      else if byte c = 10 then [CHR 0x5C, CHR ''n'']
      else if byte c = 13 then [CHR 0x5C, CHR ''r'']
      else if byte c = 9 then [CHR 0x5C, CHR ''t'']
      else if byte c < 0x20 \<or> c \<in> set ''<>&'' then u_escape (byte c)
      else [c])"

function json_escape :: "string \<Rightarrow> string" where
  "json_escape [] = []"
| "json_escape (c # s) =
     (let n = utf8_len (c # s) in
      if byte c < 0x80 then json_ascii c @ json_escape s
      else if n = 0 then u_escape 0xFFFD @ json_escape s
      else if take 3 (c # s) = utf8_rune 0x2028 then u_escape 0x2028 @ json_escape (drop n (c # s))
      else if take 3 (c # s) = utf8_rune 0x2029 then u_escape 0x2029 @ json_escape (drop n (c # s))
      else take n (c # s) @ json_escape (drop n (c # s)))"
  by pat_completeness auto
termination
  by (relation "measure length") auto

definition json_quote :: "string \<Rightarrow> string" where
  "json_quote s = [CHR 0x22] @ json_escape s @ [CHR 0x22]"

definition Marshal_strings :: "string list \<Rightarrow> string" where
  "Marshal_strings xs = ''['' @ join '','' (map json_quote xs) @ '']''"

text \<open>A map is written with its keys sorted.\<close>

definition Marshal_map :: "(string, string) go_map \<Rightarrow> string" where
  "Marshal_map m =
     ''{'' @ join '','' (map (\<lambda>k. json_quote k @ '':'' @ json_quote (the (map_of m k))) (sort (map_keys m))) @ ''}''"

section \<open>Unmarshal\<close>

fun skip_space :: "string \<Rightarrow> string" where
  "skip_space (c # s) = (if c \<in> {CHR '' '', CHR 0x09, CHR 0x0A, CHR 0x0D} then skip_space s else c # s)"
| "skip_space [] = []"

text \<open>\<open>getu4\<close>: the four hex digits of a \<open>\u\<close> escape.\<close>

fun hex4 :: "string \<Rightarrow> nat option" where
  "hex4 (a # b # c # d # s) =
     (case (hex_digit a, hex_digit b, hex_digit c, hex_digit d) of
        (Some w, Some x, Some y, Some z) \<Rightarrow> Some (((w * 16 + x) * 16 + y) * 16 + z)
      | _ \<Rightarrow> None)"
| "hex4 _ = None"

fun second_surrogate :: "string \<Rightarrow> nat option" where
  "second_surrogate (a # b # s) =
     (if a = CHR 0x5C \<and> b = CHR ''u'' then
        (case hex4 s of Some r \<Rightarrow> if 0xDC00 \<le> r \<and> r < 0xE000 then Some r else None | None \<Rightarrow> None)
      else None)"
| "second_surrogate _ = None"

text \<open>The rune of a \<open>\u\<close> escape and how many bytes after the \<open>u\<close> it takes.\<close>

definition escaped_rune :: "string \<Rightarrow> (string \<times> nat) option" where
  "escaped_rune s =
     (case hex4 s of
        None \<Rightarrow> None
      | Some r \<Rightarrow>
          if 0xD800 \<le> r \<and> r < 0xE000 then
            (case (r < 0xDC00, second_surrogate (drop 4 s)) of
               (True, Some r2) \<Rightarrow> Some (utf8_rune (0x10000 + (r - 0xD800) * 1024 + (r2 - 0xDC00)), 10)
             | _ \<Rightarrow> Some (replacement_rune, 4))
          else Some (utf8_rune r, 4))"

definition simple_escape :: "char \<Rightarrow> char option" where
  "simple_escape c =
     (if c \<in> {CHR 0x22, CHR 0x5C, CHR ''/''} then Some c
      else if c = CHR ''b'' then Some (CHR 0x08)
      else if c = CHR ''f'' then Some (CHR 0x0C)
      else if c = CHR ''n'' then Some (CHR 0x0A)
      else if c = CHR ''r'' then Some (CHR 0x0D)
      else if c = CHR ''t'' then Some (CHR 0x09)
      else None)"

text \<open>The rest of a string literal: what it decodes to and the text after it.\<close>

definition prepend :: "string \<Rightarrow> (string \<times> string) option \<Rightarrow> (string \<times> string) option" where
  "prepend p r = map_option (\<lambda>(v, rest). (p @ v, rest)) r"

function json_string :: "string \<Rightarrow> (string \<times> string) option" where
  "json_string [] = None"
| "json_string (c # s) =
     (if c = CHR 0x22 then Some ([], s)
      else if c = CHR 0x5C then
        (case s of
           [] \<Rightarrow> None
         | e # s2 \<Rightarrow>
             if e = CHR ''u'' then
               (case escaped_rune s2 of
                  None \<Rightarrow> None
                | Some (r, n) \<Rightarrow> prepend r (json_string (drop n s2)))
             else (case simple_escape e of
                  None \<Rightarrow> None
                | Some d \<Rightarrow> prepend [d] (json_string s2)))
      else if byte c < 0x20 then None
      else (let n = utf8_len (c # s) in
        if n = 0 then prepend replacement_rune (json_string s)
        else prepend (take n (c # s)) (json_string (drop n (c # s)))))"
  by pat_completeness auto
termination
  by (relation "measure length") auto

text \<open>A number literal: an optional minus, an integer with no leading zero, a fraction, an exponent.\<close>

definition json_fraction :: "string \<Rightarrow> (string \<times> string) option" where
  "json_fraction s =
     (case s of
        c # t \<Rightarrow>
          if c = CHR ''.'' then
            (if takeWhile is_digit t = [] then None else Some (c # takeWhile is_digit t, dropWhile is_digit t))
          else Some ([], s)
      | [] \<Rightarrow> Some ([], []))"

definition json_exponent :: "string \<Rightarrow> (string \<times> string) option" where
  "json_exponent s =
     (case s of
        c # t \<Rightarrow>
          if c = CHR ''e'' \<or> c = CHR ''E'' then
            (let (sign, u) = (case t of d # u \<Rightarrow> if d = CHR ''+'' \<or> d = CHR ''-'' then ([d], u) else ([], t) | [] \<Rightarrow> ([], [])) in
             if takeWhile is_digit u = [] then None else Some (c # sign @ takeWhile is_digit u, dropWhile is_digit u))
          else Some ([], s)
      | [] \<Rightarrow> Some ([], []))"

definition json_number :: "string \<Rightarrow> (string \<times> string) option" where
  "json_number s =
     (let (sign, u) = (case s of d # u \<Rightarrow> if d = CHR ''-'' then ([d], u) else ([], s) | [] \<Rightarrow> ([], []));
          int_part = (case u of c # _ \<Rightarrow> if c = CHR ''0'' then [c] else takeWhile is_digit u | [] \<Rightarrow> []) in
      if int_part = [] then None
      else (case json_fraction (drop (length int_part) u) of
        None \<Rightarrow> None
      | Some (frac, v) \<Rightarrow>
         (case json_exponent v of
            None \<Rightarrow> None
          | Some (ex, rest) \<Rightarrow> Some (sign @ int_part @ frac @ ex, rest))))"

text \<open>
  A value and the text after it. The fuel bounds the recursion: a value takes at most two calls for each byte
  and one more. \<open>depth\<close> is how many more arrays and objects may be open, which Go limits to 10000.
\<close>

fun json_value :: "nat \<Rightarrow> nat \<Rightarrow> string \<Rightarrow> (json \<times> string) option"
  and json_elements :: "nat \<Rightarrow> nat \<Rightarrow> string \<Rightarrow> (json list \<times> string) option"
  and json_members :: "nat \<Rightarrow> nat \<Rightarrow> string \<Rightarrow> ((string \<times> json) list \<times> string) option" where
  "json_value 0 depth s = None"
| "json_value (Suc fuel) depth s =
     (case skip_space s of
        [] \<Rightarrow> None
      | c # t \<Rightarrow>
          if c = CHR 0x22 then map_option (\<lambda>(v, rest). (JStr v, rest)) (json_string t)
          else if c = CHR ''['' then
            (if depth = 0 then None
             else (case skip_space t of
               d # rest \<Rightarrow>
                 if d = CHR '']'' then Some (JArr [], rest)
                 else map_option (\<lambda>(vs, rest). (JArr vs, rest)) (json_elements fuel (depth - 1) t)
             | [] \<Rightarrow> None))
          else if c = CHR ''{'' then
            (if depth = 0 then None
             else (case skip_space t of
               d # rest \<Rightarrow>
                 if d = CHR ''}'' then Some (JObj [], rest)
                 else map_option (\<lambda>(ms, rest). (JObj ms, rest)) (json_members fuel (depth - 1) t)
             | [] \<Rightarrow> None))
          else (case cut_prefix (c # t) ''null'' of Some rest \<Rightarrow> Some (JNull, rest) | None \<Rightarrow>
               (case cut_prefix (c # t) ''true'' of Some rest \<Rightarrow> Some (JBool True, rest) | None \<Rightarrow>
               (case cut_prefix (c # t) ''false'' of Some rest \<Rightarrow> Some (JBool False, rest) | None \<Rightarrow>
                map_option (\<lambda>(n, rest). (JNum n, rest)) (json_number (c # t))))))"
| "json_elements 0 depth s = None"
| "json_elements (Suc fuel) depth s =
     (case json_value fuel depth s of
        None \<Rightarrow> None
      | Some (v, rest) \<Rightarrow>
         (case skip_space rest of
            c # t \<Rightarrow>
              if c = CHR '','' then map_option (\<lambda>(vs, r). (v # vs, r)) (json_elements fuel depth t)
              else if c = CHR '']'' then Some ([v], t)
              else None
          | [] \<Rightarrow> None))"
| "json_members 0 depth s = None"
| "json_members (Suc fuel) depth s =
     (case skip_space s of
        [] \<Rightarrow> None
      | q # s1 \<Rightarrow>
          if q \<noteq> CHR 0x22 then None
          else (case json_string s1 of
            None \<Rightarrow> None
          | Some (k, s2) \<Rightarrow>
             (case skip_space s2 of
                [] \<Rightarrow> None
              | col # s3 \<Rightarrow>
                  if col \<noteq> CHR '':'' then None
                  else (case json_value fuel depth s3 of
                    None \<Rightarrow> None
                  | Some (v, s4) \<Rightarrow>
                     (case skip_space s4 of
                        c # t \<Rightarrow>
                          if c = CHR '','' then map_option (\<lambda>(ms, r). ((k, v) # ms, r)) (json_members fuel depth t)
                          else if c = CHR ''}'' then Some ([(k, v)], t)
                          else None
                      | [] \<Rightarrow> None)))))"

definition json_parse :: "string \<Rightarrow> json option" where
  "json_parse s =
     (case json_value (2 * length s + 2) 10000 s of
        Some (v, rest) \<Rightarrow> if skip_space rest = [] then Some v else None
      | None \<Rightarrow> None)"

text \<open>A key matches a field that folds to the same name; two runes beyond ASCII fold to letters.\<close>

definition to_upper :: "char \<Rightarrow> char" where
  "to_upper c = (if in_range 97 122 c then char_of (byte c - 32) else c)"

fun fold_name :: "string \<Rightarrow> string" where
  "fold_name [] = []"
| "fold_name (c # s) =
     (if has_prefix (c # s) [CHR 0xC5, CHR 0xBF] then CHR ''S'' # fold_name (tl s)
      else if has_prefix (c # s) [CHR 0xE2, CHR 0x84, CHR 0xAA] then CHR ''K'' # fold_name (tl (tl s))
      else to_upper c # fold_name s)"

text \<open>
  A string field of the struct after the members of an object, from left to right: a string is
  stored, null changes nothing, and anything else is an error that is reported at the end. Each field
  is followed on its own; a key that is exactly another field's name goes to that field.
\<close>

definition json_field :: "string list \<Rightarrow> string \<Rightarrow> string \<Rightarrow> bool" where
  "json_field names field key \<longleftrightarrow> key = field \<or> key \<notin> set names \<and> fold_name key = fold_name field"

primrec json_store :: "string list \<Rightarrow> string \<Rightarrow> (string \<times> json) list \<Rightarrow> string \<Rightarrow> string" where
  "json_store names field [] old = old"
| "json_store names field (m # ms) old =
     (let (k, v) = m in
      json_store names field ms (case v of JStr x \<Rightarrow> if json_field names field k then x else old | _ \<Rightarrow> old))"

definition json_fits :: "string list \<Rightarrow> (string \<times> json) list \<Rightarrow> bool" where
  "json_fits names ms \<longleftrightarrow>
     list_all (\<lambda>(k, v). list_all (\<lambda>f. json_field names f k \<longrightarrow> (case v of JStr _ \<Rightarrow> True | JNull \<Rightarrow> True | _ \<Rightarrow> False)) names) ms"

text \<open>\<open>Unmarshal\<close> into a fresh struct with these string fields, as the values of the fields in order.\<close>

definition Unmarshal_strings :: "string list \<Rightarrow> string \<Rightarrow> go_error + string list" where
  "Unmarshal_strings names s =
     (case json_parse s of
        None \<Rightarrow> Inl (Dep Untyped ''syntax error in JSON input'')
      | Some JNull \<Rightarrow> Inr (map (\<lambda>_. []) names)
      | Some (JObj ms) \<Rightarrow>
          if json_fits names ms then Inr (map (\<lambda>f. json_store names f ms []) names)
          else Inl (Dep Untyped ''json: cannot unmarshal value into Go struct field of type string'')
      | Some _ \<Rightarrow> Inl (Dep Untyped ''json: cannot unmarshal value into Go value of type struct''))"

section \<open>What is written is read back\<close>

definition ascii :: "string \<Rightarrow> bool" where
  "ascii s \<longleftrightarrow> list_all (\<lambda>c. byte c < 0x80) s"

lemma byte_eq: "n < 256 \<Longrightarrow> byte c = n \<longleftrightarrow> c = char_of n"
  by auto

lemma control_chars:
  "char_of (8 :: nat) = CHR 0x08" "char_of (9 :: nat) = CHR 0x09" "char_of (10 :: nat) = CHR 0x0A"
  "char_of (12 :: nat) = CHR 0x0C" "char_of (13 :: nat) = CHR 0x0D"
  by (simp_all add: char_of_eq_iff)

lemma hex4_u_escape: "byte c < 0x80 \<Longrightarrow> hex4 (tl (tl (u_escape (byte c))) @ t) = Some (byte c)"
  by (simp add: u_escape_def)

lemma escaped_rune_ascii: "byte c < 0x80 \<Longrightarrow> escaped_rune (tl (tl (u_escape (byte c))) @ t) = Some ([c], 4)"
  unfolding escaped_rune_def hex4_u_escape by (simp add: utf8_rune_def)

lemma json_string_ascii:
  assumes "byte c < 0x80"
  shows "json_string (json_ascii c @ t) = prepend [c] (json_string t)"
proof -
  consider "c = CHR 0x22 \<or> c = CHR 0x5C"
    | "byte c \<in> {8, 12, 10, 13, 9}"
    | "c \<noteq> CHR 0x22" "c \<noteq> CHR 0x5C" "byte c \<notin> {8, 12, 10, 13, 9}" "byte c < 0x20 \<or> c \<in> set ''<>&''"
    | "c \<noteq> CHR 0x22" "c \<noteq> CHR 0x5C" "\<not> byte c < 0x20" "c \<notin> set ''<>&''"
    by fastforce
  then show ?thesis
  proof cases
    case 1
    then show ?thesis by (auto simp: json_ascii_def simple_escape_def)
  next
    case 2
    then have "c \<in> {CHR 0x08, CHR 0x0C, CHR 0x0A, CHR 0x0D, CHR 0x09}"
      by (elim insertE emptyE) (simp_all add: byte_eq control_chars)
    then obtain e where "json_ascii c = [CHR 0x5C, e]" "simple_escape e = Some c" "e \<noteq> CHR ''u''"
      by (elim insertE emptyE) (simp_all add: json_ascii_def simple_escape_def)
    then show ?thesis by simp
  next
    case 3
    have "json_string (CHR 0x5C # CHR ''u'' # tl (tl (u_escape (byte c))) @ t) = prepend [c] (json_string t)"
      using escaped_rune_ascii [OF assms, of t] by (simp add: u_escape_def)
    moreover have "json_ascii c = CHR 0x5C # CHR ''u'' # tl (tl (u_escape (byte c)))"
      using 3 by (simp add: json_ascii_def) (simp add: u_escape_def)
    ultimately show ?thesis by simp
  next
    case 4
    then have "json_ascii c = [c]" by (simp add: json_ascii_def)
    moreover have "json_string (c # t) = prepend [c] (json_string t)"
      using 4 assms by simp
    ultimately show ?thesis by simp
  qed
qed

lemma json_string_escape: "ascii s \<Longrightarrow> json_string (json_escape s @ CHR 0x22 # t) = Some (s, t)"
proof (induction s)
  case (Cons c s)
  then have "byte c < 0x80" "json_string (json_escape s @ CHR 0x22 # t) = Some (s, t)" by (auto simp: ascii_def)
  then show ?case
    using json_string_ascii [of c "json_escape s @ CHR 0x22 # t"] by (simp add: prepend_def del: json_string.simps)
qed simp

lemma json_value_quote:
  assumes "ascii s" "0 < fuel"
  shows "json_value fuel depth (json_quote s @ t) = Some (JStr s, t)"
proof -
  obtain f where "fuel = Suc f" using assms(2) by (cases fuel) auto
  then show ?thesis
    using json_string_escape [OF assms(1), of t] by (simp add: json_quote_def)
qed

definition json_member :: "string \<times> string \<Rightarrow> string" where
  "json_member kv = json_quote (fst kv) @ '':'' @ json_quote (snd kv)"

lemma json_members_written:
  assumes "kvs \<noteq> []" "list_all (\<lambda>kv. ascii (fst kv) \<and> ascii (snd kv)) kvs" "length kvs < fuel"
  shows "json_members fuel depth (join '','' (map json_member kvs) @ ''}'' @ t)
    = Some (map (\<lambda>kv. (fst kv, JStr (snd kv))) kvs, t)"
  using assms
proof (induction kvs arbitrary: fuel)
  case (Cons kv kvs)
  note IH = Cons.IH and prems = Cons.prems
  obtain k v where kv: "kv = (k, v)" by fastforce
  obtain f where f: "fuel = Suc f" "0 < f" using Cons.prems(3) by (cases fuel) auto
  have head: "json_members fuel depth (json_member kv @ u)
      = (case skip_space u of
          c # t \<Rightarrow> if c = CHR '','' then map_option (\<lambda>(ms, r). ((k, JStr v) # ms, r)) (json_members f depth t)
            else if c = CHR ''}'' then Some ([(k, JStr v)], t) else None
        | [] \<Rightarrow> None)" for u
    using Cons.prems(2) json_string_escape [of k "'':'' @ json_quote v @ u"] json_value_quote [of v f depth u] f
    by (simp add: kv json_member_def json_quote_def cong: list.case_cong)
  show ?case
  proof (cases kvs)
    case Nil
    then show ?thesis using head [of "''}'' @ t"] by (simp add: kv)
  next
    case (Cons kv' kvs')
    note rest = Cons
    have "json_members f depth (join '','' (map json_member kvs) @ ''}'' @ t)
        = Some (map (\<lambda>kv. (fst kv, JStr (snd kv))) kvs, t)"
      using IH [of f] rest prems f by simp
    moreover have "join '','' (map json_member (kv # kvs)) @ ''}'' @ t
        = json_member kv @ '','' @ join '','' (map json_member kvs) @ ''}'' @ t"
      using rest by simp
    ultimately show ?thesis using head [of "'','' @ join '','' (map json_member kvs) @ ''}'' @ t"]
      by (simp add: kv)
  qed
qed simp

lemma join_length: "list_all (\<lambda>x. x \<noteq> []) xs \<Longrightarrow> length xs \<le> length (join sep xs)"
  by (induction sep xs rule: join.induct) (auto simp: Suc_le_eq neq_Nil_conv)

lemma json_parse_object:
  assumes "kvs \<noteq> []" "list_all (\<lambda>kv. ascii (fst kv) \<and> ascii (snd kv)) kvs"
  shows "json_parse (''{'' @ join '','' (map json_member kvs) @ ''}'') = Some (JObj (map (\<lambda>kv. (fst kv, JStr (snd kv))) kvs))"
proof -
  let ?txt = "join '','' (map json_member kvs) @ ''}''"
  have "length kvs \<le> length (join '','' (map json_member kvs))"
    using join_length [of "map json_member kvs" "'',''"] by (simp add: json_member_def json_quote_def list_all_iff)
  then have "length kvs < Suc (2 * length ?txt + 2)" by simp
  from json_members_written [OF assms this, of 9999 "[]", unfolded append_Nil2]
  have members: "json_members (Suc (2 * length ?txt + 2)) 9999 ?txt = Some (map (\<lambda>kv. (fst kv, JStr (snd kv))) kvs, [])" .
  obtain c rest where "?txt = c # rest" "c = CHR 0x22"
    using assms(1) by (cases kvs; cases "tl kvs") (auto simp: json_member_def json_quote_def)
  then have "json_value (2 * length (''{'' @ ?txt) + 2) 10000 (''{'' @ ?txt)
      = map_option (\<lambda>(ms, rest). (JObj ms, rest)) (json_members (Suc (2 * length ?txt + 2)) 9999 ?txt)"
    by simp
  then have "json_value (2 * length (''{'' @ ?txt) + 2) 10000 (''{'' @ ?txt)
      = Some (JObj (map (\<lambda>kv. (fst kv, JStr (snd kv))) kvs), [])"
    unfolding members by simp
  then show ?thesis
    unfolding json_parse_def by (simp add: comp_def)
qed

lemma json_parse_Marshal_map:
  assumes "m \<noteq> []" "list_all (\<lambda>kv. ascii (fst kv) \<and> ascii (snd kv)) m"
  shows "json_parse (Marshal_map m) = Some (JObj (map (\<lambda>k. (k, JStr (the (map_of m k)))) (sort (map_keys m))))"
proof -
  let ?kvs = "map (\<lambda>k. (k, the (map_of m k))) (sort (map_keys m))"
  have written: "Marshal_map m = ''{'' @ join '','' (map json_member ?kvs) @ ''}''"
    by (simp add: Marshal_map_def json_member_def comp_def)
  have "(k, the (map_of m k)) \<in> set m" if "k \<in> dom (map_of m)" for k
    using that map_of_SomeD by fastforce
  then have ascii: "list_all (\<lambda>kv. ascii (fst kv) \<and> ascii (snd kv)) ?kvs"
    using assms(2) by (fastforce simp: list_all_iff)
  have "set (sort (map_keys m)) \<noteq> {}"
    using assms(1) by (simp add: dom_map_of_conv_image_fst)
  then have ne: "?kvs \<noteq> []" by (metis map_is_Nil_conv set_empty)
  show ?thesis unfolding written json_parse_object [OF ne ascii] by (simp add: comp_def)
qed

end
