(* ===== verification/Vault.thy ===== *)
theory Vault
imports Json
begin

text \<open>
  \<open>internal/vaultinit\<close>: what is done to OpenBao, call by call.

  The client library is the parameter \<open>bao_api\<close>. A client carries its token and the wrapping TTL its
  lookup function answers with, so which credential a call is made with, and which one call asks for
  a wrapped response, can be seen; \<open>SetToken\<close> and \<open>SetWrappingLookupFunc\<close> update it. A call that
  answers with nothing is \<open>None\<close>, as the library's nil secret is. Contexts carry a deadline, in
  seconds of the clock \<open>clock\<close>.
\<close>

section \<open>The client library\<close>

record bao_client =
  bc_Address :: string
  bc_Token :: string
  bc_WrapTTL :: string

record bao_auth =
  au_ClientToken :: string
  au_Accessor :: string

record bao_wrap =
  wr_Token :: string
  wr_WrappedAccessor :: string

record bao_secret =
  sc_Data :: "(string \<times> json) list option"
  sc_Auth :: "bao_auth option"
  sc_WrapInfo :: "bao_wrap option"

record bao_health =
  bh_Initialized :: bool
  bh_Sealed :: bool

record 'w bao_api =
  bao_NewClient :: "string \<Rightarrow> ('w, bao_client) act"
  bao_Clone :: "bao_client \<Rightarrow> ('w, bao_client) act"
  bao_Read :: "bao_client \<Rightarrow> string \<Rightarrow> ('w, bao_secret option) act"
  bao_List :: "bao_client \<Rightarrow> string \<Rightarrow> ('w, bao_secret option) act"
  bao_Write :: "bao_client \<Rightarrow> string \<Rightarrow> (string \<times> json) list \<Rightarrow> ('w, bao_secret option) act"
  bao_Delete :: "bao_client \<Rightarrow> string \<Rightarrow> ('w, unit) act"
  bao_SealStatus :: "bao_client \<Rightarrow> ('w, bao_health) act"
  bao_InitStatus :: "bao_client \<Rightarrow> ('w, bool) act"
  bao_Init :: "bao_client \<Rightarrow> nat \<Rightarrow> nat \<Rightarrow> ('w, string \<times> string list) act"
  bao_ListMounts :: "bao_client \<Rightarrow> ('w, string list) act"
  bao_Mount :: "bao_client \<Rightarrow> string \<Rightarrow> string \<Rightarrow> (string \<times> string) list \<Rightarrow> ('w, unit) act"
  bao_ListAuth :: "bao_client \<Rightarrow> ('w, string list) act"
  bao_EnableAuth :: "bao_client \<Rightarrow> string \<Rightarrow> string \<Rightarrow> ('w, unit) act"
  bao_PutPolicy :: "bao_client \<Rightarrow> string \<Rightarrow> string \<Rightarrow> ('w, unit) act"
  bao_DeletePolicy :: "bao_client \<Rightarrow> string \<Rightarrow> ('w, unit) act"
  bao_LookupAccessor :: "bao_client \<Rightarrow> string \<Rightarrow> ('w, bao_secret option) act"
  bao_RevokeAccessor :: "bao_client \<Rightarrow> string \<Rightarrow> ('w, unit) act"
  bao_DeleteMetadata :: "bao_client \<Rightarrow> string \<Rightarrow> string \<Rightarrow> ('w, unit) act"

text \<open>\<open>resp.Data[key].(string)\<close>; a nil map has no entry.\<close>

definition data_string :: "bao_secret \<Rightarrow> string \<Rightarrow> string option" where
  "data_string resp key =
     (case sc_Data resp of
        Some data \<Rightarrow> (case map_of data key of Some (JStr s) \<Rightarrow> Some s | _ \<Rightarrow> None)
      | None \<Rightarrow> None)"

definition data_list :: "bao_secret \<Rightarrow> string \<Rightarrow> json list option" where
  "data_list resp key =
     (case sc_Data resp of
        Some data \<Rightarrow> (case map_of data key of Some (JArr xs) \<Rightarrow> Some xs | _ \<Rightarrow> None)
      | None \<Rightarrow> None)"

definition JStrs :: "string list \<Rightarrow> json" where
  "JStrs xs = JArr (map JStr xs)"

section \<open>Time\<close>

record 'w clock =
  ck_Now :: "'w \<Rightarrow> nat"
  ck_Sleep :: "nat \<Rightarrow> 'w \<Rightarrow> 'w"

text \<open>A context is done at its deadline; \<open>WithTimeout\<close> keeps the earlier of its own and the parent's.\<close>

type_synonym go_context = "nat option"

definition WithTimeout :: "'w clock \<Rightarrow> go_context \<Rightarrow> nat \<Rightarrow> 'w \<Rightarrow> go_context" where
  "WithTimeout clk ctx budget w =
     (let d = ck_Now clk w + budget in Some (case ctx of None \<Rightarrow> d | Some p \<Rightarrow> min p d))"

definition deadlineExceeded :: go_error where
  "deadlineExceeded = Dep Untyped ''context deadline exceeded''"

text \<open>
  \<open>select { case <-ctx.Done(): ...; case <-time.After(interval): ... }\<close>: true when the interval passed
  first. When both are due at the same time, the context wins.
\<close>

definition select_after :: "'w clock \<Rightarrow> go_context \<Rightarrow> nat \<Rightarrow> ('w, bool) act" where
  "select_after clk ctx interval w =
     (case ctx of
        Some d \<Rightarrow>
          if d \<le> ck_Now clk w + interval then (Ok False, ck_Sleep clk (d - ck_Now clk w) w)
          else (Ok True, ck_Sleep clk interval w)
      | None \<Rightarrow> (Ok True, ck_Sleep clk interval w))"

section \<open>Names\<close>

definition HiltMount :: string where "HiltMount = ''forge-central/hilt''"
definition TransitMount :: string where "TransitMount = ''transit''"
definition AppliancePrefix :: string where "AppliancePrefix = ''appliance-unseal-''"
definition hiltPolicyName :: string where "hiltPolicyName = ''hilt''"
definition hiltAppRoleName :: string where "hiltAppRoleName = ''hilt''"
definition appRoleAuthMount :: string where "appRoleAuthMount = ''approle''"

definition ApplianceKeyName :: "string \<Rightarrow> string" where
  "ApplianceKeyName region = AppliancePrefix @ region"

definition transitKeyPath :: "string \<Rightarrow> string" where
  "transitKeyPath name = TransitMount @ ''/keys/'' @ name"

definition applianceRolePath :: "string \<Rightarrow> string" where
  "applianceRolePath name = ''auth/token/roles/'' @ name"

section \<open>Waiting and initialising\<close>

record bao_init_result =
  ir_RootToken :: string
  ir_RecoveryKeys :: "string list"
  ir_Initialised :: bool

definition openbao_sealed :: go_error where
  "openbao_sealed = Errorf ''openbao is sealed; check that the KMS seal key is reachable from the task role''"

definition wait_interval :: nat where "wait_interval = 3"

text \<open>The polling loop; the fuel is the number of polls it may make.\<close>

fun WaitForUnsealed :: "nat \<Rightarrow> 'w clock \<Rightarrow> 'w bao_api \<Rightarrow> go_context \<Rightarrow> bao_client \<Rightarrow> ('w, unit) act" where
  "WaitForUnsealed 0 clk api ctx client = hangE"
| "WaitForUnsealed (Suc fuel) clk api ctx client =
     bindE (tryE (bao_SealStatus api client)) (\<lambda>res.
     let again = (\<lambda>lastErr.
       bindE (select_after clk ctx wait_interval) (\<lambda>elapsed.
       if elapsed then WaitForUnsealed fuel clk api ctx client
       else failE (Wrapf ''waiting for openbao: '' deadlineExceeded ('' (last status: '' @ err_text lastErr @ '')'')))) in
     case res of
       Inl err \<Rightarrow> again err
     | Inr health \<Rightarrow>
         if \<not> bh_Initialized health then returnE ()
         else if bh_Sealed health then again openbao_sealed
         else returnE ())"

definition EnsureInitialised :: "'w bao_api \<Rightarrow> bao_client \<Rightarrow> ('w, bao_init_result) act" where
  "EnsureInitialised api client =
     bindE (mapErr (wrap ''read init status: '') (bao_InitStatus api client)) (\<lambda>initialised.
     if initialised then returnE \<lparr>ir_RootToken = [], ir_RecoveryKeys = [], ir_Initialised = False\<rparr>
     else
       bindE (mapErr (wrap ''initialise openbao: '') (bao_Init api client 1 1)) (\<lambda>resp.
       returnE \<lparr>ir_RootToken = fst resp, ir_RecoveryKeys = snd resp, ir_Initialised = True\<rparr>))"

definition EnsureMounts :: "'w bao_api \<Rightarrow> bao_client \<Rightarrow> ('w, unit) act" where
  "EnsureMounts api client =
     bindE (mapErr (wrap ''list mounts: '') (bao_ListMounts api client)) (\<lambda>mounts.
     thenE (if HiltMount @ ''/'' \<notin> set mounts then
              mapErr (wrap (''mount kv v2 at '' @ HiltMount @ '': ''))
                (bao_Mount api client HiltMount ''kv'' [(''version'', ''2'')])
            else returnE ())
       (if TransitMount @ ''/'' \<notin> set mounts then
          mapErr (wrap ''mount transit: '') (bao_Mount api client TransitMount ''transit'' [])
        else returnE ()))"

section \<open>hilt's AppRole\<close>

text \<open>A policy document: one path and its capabilities at a time.\<close>

definition policy_lines :: "string list \<Rightarrow> string" where
  "policy_lines ls = concat (map (\<lambda>l. l @ [CHR 0x0A]) ls)"

definition policy_path :: "string \<Rightarrow> string \<Rightarrow> string list" where
  \<open>policy_path path capabilities =
     [''path "'' @ path @ ''" {'', ''  capabilities = ['' @ capabilities @ '']'', ''}'']\<close>

definition hiltPolicy :: string where
  \<open>hiltPolicy = policy_lines (
     [[]] @ policy_path (HiltMount @ ''/data/tenant/*'') ''"create", "read", "update", "patch", "delete", "list"''
     @ [[]] @ policy_path (HiltMount @ ''/metadata/tenant/*'') ''"create", "read", "update", "delete", "list"''
     @ [[]] @ policy_path (HiltMount @ ''/delete/tenant/*'') ''"update"''
     @ [[]] @ policy_path (HiltMount @ ''/undelete/tenant/*'') ''"update"''
     @ [[]] @ policy_path (HiltMount @ ''/destroy/tenant/*'') ''"update"'')\<close>

definition hiltRolePath :: string where
  "hiltRolePath = ''auth/'' @ appRoleAuthMount @ ''/role/'' @ hiltAppRoleName"

definition hilt_role :: "string list \<Rightarrow> (string \<times> json) list" where
  "hilt_role cidrs =
     [(''token_policies'', JStrs [hiltPolicyName]), (''token_ttl'', JStr ''1h''), (''token_max_ttl'', JStr ''24h''),
      (''secret_id_ttl'', JStr ''0''), (''secret_id_num_uses'', JNum ''0''),
      (''token_bound_cidrs'', JStrs cidrs), (''secret_id_bound_cidrs'', JStrs cidrs)]"

definition EnsureHiltAppRole :: "'w bao_api \<Rightarrow> bao_client \<Rightarrow> string list \<Rightarrow> ('w, string) act" where
  "EnsureHiltAppRole api client cidrs =
     thenE (mapErr (wrap ''write hilt policy: '') (bao_PutPolicy api client hiltPolicyName hiltPolicy))
     (bindE (mapErr (wrap ''list auth methods: '') (bao_ListAuth api client)) (\<lambda>auths.
      thenE (if appRoleAuthMount @ ''/'' \<notin> set auths then
               mapErr (wrap ''enable approle auth: '') (bao_EnableAuth api client appRoleAuthMount ''approle'')
             else returnE ())
      (thenE (mapErr (wrap ''write approle role: '') (bao_Write api client hiltRolePath (hilt_role cidrs)))
      (bindE (mapErr (wrap ''read role-id: '') (bao_Read api client (hiltRolePath @ ''/role-id''))) (\<lambda>resp.
      case resp of
        None \<Rightarrow> failE (Errorf (''role-id not found at '' @ hiltRolePath))
      | Some r \<Rightarrow>
          (case data_string r ''role_id'' of
             None \<Rightarrow> failE (Errorf ''role-id response has no role_id field'')
           | Some roleID \<Rightarrow> returnE roleID))))))"

definition SecretIDValid :: "'w bao_api \<Rightarrow> bao_client \<Rightarrow> string \<Rightarrow> ('w, bool) act" where
  "SecretIDValid api client secretID =
     bindE (tryE (bao_Write api client (hiltRolePath @ ''/secret-id/lookup'') [(''secret_id'', JStr secretID)])) (\<lambda>res.
     returnE (case res of Inr (Some _) \<Rightarrow> True | _ \<Rightarrow> False))"

definition IssueSecretID :: "'w bao_api \<Rightarrow> bao_client \<Rightarrow> ('w, string) act" where
  "IssueSecretID api client =
     bindE (mapErr (wrap ''issue secret-id: '') (bao_Write api client (hiltRolePath @ ''/secret-id'') [])) (\<lambda>resp.
     case resp of
       None \<Rightarrow> failE (Errorf ''secret-id response was empty'')
     | Some r \<Rightarrow>
         (case data_string r ''secret_id'' of
            None \<Rightarrow> failE (Errorf ''secret-id response has no secret_id field'')
          | Some secretID \<Rightarrow> returnE secretID))"

section \<open>The appliances' transit keys\<close>

record appliance_plan =
  ap_Active :: "string list"
  ap_Remove :: "string list"

definition PlanApplianceKeys :: "string list \<Rightarrow> string list \<Rightarrow> string list \<Rightarrow> go_error + appliance_plan" where
  "PlanApplianceKeys existing active retired =
     (let both = filter (\<lambda>region. region \<in> set retired) active;
          remove = filter (\<lambda>region. region \<notin> set active \<and> region \<in> set retired) existing;
          unaccounted = filter (\<lambda>region. region \<notin> set active \<and> region \<notin> set retired) existing in
      if both \<noteq> [] then
        Inl (Errorf (''region '' @ join '', '' (sort both)
          @ '' appears in both appliance_regions and retired_appliance_regions; a region is either live or retired''))
      else if unaccounted \<noteq> [] then
        Inl (Errorf (''no list names the appliance region '' @ join '', '' (sort unaccounted)
          @ '', which has a transit key: add it to appliance_regions to keep that key, or to retired_appliance_regions to destroy it and permanently end that node''
          @ possessive @ '' ability to unseal''))
      else Inr \<lparr>ap_Active = active, ap_Remove = remove\<rparr>)"

definition appliancePolicy :: "string \<Rightarrow> string" where
  \<open>appliancePolicy name = policy_lines (
     [[]] @ policy_path (TransitMount @ ''/encrypt/'' @ name) ''"update"''
     @ [[]] @ policy_path (TransitMount @ ''/decrypt/'' @ name) ''"update"''
     @ [[]] @ policy_path ''auth/token/renew-self'' ''"update"''
     @ [[]] @ policy_path ''auth/token/lookup-self'' ''"read"'')\<close>

definition ensure_transit_key :: "'w bao_api \<Rightarrow> bao_client \<Rightarrow> string \<Rightarrow> string list \<Rightarrow> ('w, string list) act" where
  "ensure_transit_key api client region created =
     (let name = ApplianceKeyName region in
      bindE (mapErr (wrap (''read transit key '' @ name @ '': '')) (bao_Read api client (transitKeyPath name))) (\<lambda>existing.
      bindE (case existing of
          None \<Rightarrow>
            thenE (mapErr (wrap (''create transit key '' @ name @ '': ''))
                     (bao_Write api client (transitKeyPath name) [(''type'', JStr ''aes256-gcm96'')]))
              (returnE (created @ [name]))
        | Some _ \<Rightarrow> returnE created) (\<lambda>created.
      thenE (mapErr (wrap (''write policy '' @ name @ '': '')) (bao_PutPolicy api client name (appliancePolicy name)))
        (returnE created))))"

text \<open>The names created before a failure are returned beside the error, and its caller drops them.\<close>

definition EnsureApplianceTransitKeys :: "'w bao_api \<Rightarrow> bao_client \<Rightarrow> string list \<Rightarrow> ('w, string list) act" where
  "EnsureApplianceTransitKeys api client regions = foldE (ensure_transit_key api client) regions []"

definition RemoveApplianceTransitKey :: "'w bao_api \<Rightarrow> bao_client \<Rightarrow> string \<Rightarrow> ('w, unit) act" where
  "RemoveApplianceTransitKey api client region =
     (let name = ApplianceKeyName region in
      thenE (mapErr (wrap (''delete policy '' @ name @ '': '')) (bao_DeletePolicy api client name))
      (thenE (mapErr (wrap (''allow deletion of transit key '' @ name @ '': ''))
         (bao_Write api client (transitKeyPath name @ ''/config'') [(''deletion_allowed'', JBool True)]))
      (mapErr (wrap (''delete transit key '' @ name @ '': '')) (bao_Delete api client (transitKeyPath name)))))"

text \<open>The entries of a list response that are names with the appliance prefix, without it.\<close>

fun appliance_labels :: "json list \<Rightarrow> string list" where
  "appliance_labels [] = []"
| "appliance_labels (JStr name # entries) =
     (case cut_prefix name AppliancePrefix of
        Some region \<Rightarrow> region # appliance_labels entries
      | None \<Rightarrow> appliance_labels entries)"
| "appliance_labels (_ # entries) = appliance_labels entries"

definition ApplianceRegions :: "'w bao_api \<Rightarrow> bao_client \<Rightarrow> ('w, string list) act" where
  "ApplianceRegions api client =
     bindE (mapErr (wrap ''list transit keys: '') (bao_List api client ''transit/keys'')) (\<lambda>resp.
     returnE (case resp of
         None \<Rightarrow> []
       | Some r \<Rightarrow> (case data_list r ''keys'' of None \<Rightarrow> [] | Some raw \<Rightarrow> sort (appliance_labels raw))))"

section \<open>The appliances' tokens\<close>

record appliance_token_config =
  at_Region :: string
  at_NodeCIDR :: string
  at_Period :: string

definition token_role :: "appliance_token_config \<Rightarrow> (string \<times> json) list" where
  "token_role cfg =
     [(''orphan'', JBool True), (''allowed_policies'', JStrs [ApplianceKeyName (at_Region cfg)]),
      (''token_period'', JStr (at_Period cfg)), (''token_bound_cidrs'', JStrs [at_NodeCIDR cfg]),
      (''token_no_default_policy'', JBool True), (''renewable'', JBool True)]"

definition EnsureApplianceTokenRole :: "'w bao_api \<Rightarrow> bao_client \<Rightarrow> appliance_token_config \<Rightarrow> ('w, unit) act" where
  "EnsureApplianceTokenRole api client cfg =
     (if at_NodeCIDR cfg = [] then
        failE (Errorf ''a node CIDR is required; a role without one mints tokens usable from anywhere'')
      else
        (let name = ApplianceKeyName (at_Region cfg) in
         thenE (mapErr (wrap (''write token role '' @ name @ '': '')) (bao_Write api client (applianceRolePath name) (token_role cfg)))
           (returnE ())))"

text \<open>\<open>errors.As\<close> finds the first response error of the tree.\<close>

primrec first_response_error :: "dep_error list \<Rightarrow> (nat \<times> string list) option" where
  "first_response_error [] = None"
| "first_response_error (d # ds) =
     (case d of ResponseError code messages \<Rightarrow> Some (code, messages) | _ \<Rightarrow> first_response_error ds)"

definition isUnknownAccessor :: "go_error \<Rightarrow> bool" where
  "isUnknownAccessor err =
     (case first_response_error (err_deps err) of
        None \<Rightarrow> False
      | Some (code, messages) \<Rightarrow> code = 404 \<or> list_ex (\<lambda>m. contains m ''invalid accessor'') messages)"

definition RevokeTokenByAccessor :: "'w bao_api \<Rightarrow> bao_client \<Rightarrow> string \<Rightarrow> ('w, unit) act" where
  "RevokeTokenByAccessor api client accessor =
     catchE (bao_RevokeAccessor api client accessor) (\<lambda>err.
     if isUnknownAccessor err then returnE ()
     else failE (wrap (''revoke token '' @ accessor @ '': '') err))"

definition TokenLive :: "'w bao_api \<Rightarrow> bao_client \<Rightarrow> string \<Rightarrow> ('w, bool) act" where
  "TokenLive api client accessor =
     bindE (tryE (bao_LookupAccessor api client accessor)) (\<lambda>res.
     case res of
       Inr secret \<Rightarrow> returnE (secret \<noteq> None)
     | Inl err \<Rightarrow>
         if isUnknownAccessor err then returnE False
         else failE (wrap (''look up token '' @ accessor @ '': '') err))"

text \<open>The accessor of a token that came back in the clear.\<close>

definition clear_accessor :: "bao_secret option \<Rightarrow> string" where
  "clear_accessor resp =
     (case resp of
        Some r \<Rightarrow> (case sc_Auth r of Some a \<Rightarrow> au_Accessor a | None \<Rightarrow> [])
      | None \<Rightarrow> [])"

definition refuseUnwrappedToken ::
  "'w bao_api \<Rightarrow> bao_client \<Rightarrow> string \<Rightarrow> bao_secret option \<Rightarrow> ('w, 'a) act" where
  "refuseUnwrappedToken api client region resp =
     (let refusal = Errorf (''the '' @ region @ '' unseal token came back unwrapped; refusing to return it'');
          accessor = clear_accessor resp in
      if accessor = [] then failE refusal
      else
        bindE (tryE (RevokeTokenByAccessor api client accessor)) (\<lambda>res.
        case res of
          Inl err \<Rightarrow> failE (Wrapf2 [] refusal ('', and revoking it failed; revoke accessor '' @ accessor @ '': '') err [])
        | Inr _ \<Rightarrow> failE refusal))"

definition mint_request :: "appliance_token_config \<Rightarrow> (string \<times> json) list" where
  "mint_request cfg =
     (let name = ApplianceKeyName (at_Region cfg) in
      [(''display_name'', JStr name), (''policies'', JStrs [name]), (''meta'', JObj [(''region'', JStr (at_Region cfg))])])"

text \<open>The wrapping token and the accessor of the token it wraps.\<close>

definition MintApplianceToken ::
  "'w bao_api \<Rightarrow> bao_client \<Rightarrow> appliance_token_config \<Rightarrow> string \<Rightarrow> ('w, string \<times> string) act" where
  "MintApplianceToken api client cfg wrapTTL =
     (if wrapTTL = [] then
        failE (Errorf ''a wrapping TTL is required; without one the token comes back in the clear'')
      else
        (let name = ApplianceKeyName (at_Region cfg) in
         bindE (mapErr (wrap ''clone the openbao client: '') (bao_Clone api client)) (\<lambda>clone.
         (let wrapped = clone\<lparr>bc_Token := bc_Token client, bc_WrapTTL := wrapTTL\<rparr> in
          bindE (mapErr (wrap (''mint the '' @ at_Region cfg @ '' unseal token: ''))
             (bao_Write api wrapped (''auth/token/create/'' @ name) (mint_request cfg))) (\<lambda>resp.
          case (case resp of None \<Rightarrow> None | Some r \<Rightarrow> sc_WrapInfo r) of
            None \<Rightarrow> refuseUnwrappedToken api client (at_Region cfg) resp
          | Some info \<Rightarrow> returnE (wr_Token info, wr_WrappedAccessor info))))))"

definition RemoveApplianceTokenRole :: "'w bao_api \<Rightarrow> bao_client \<Rightarrow> string \<Rightarrow> ('w, unit) act" where
  "RemoveApplianceTokenRole api client region =
     (let path = applianceRolePath (ApplianceKeyName region) in
      mapErr (wrap (''delete token role '' @ path @ '': '')) (bao_Delete api client path))"

section \<open>hilt's tenant secrets\<close>

definition hiltSecretsRoot :: string where "hiltSecretsRoot = ''tenant/''"

text \<open>\<open>%v\<close> of a decoded value; the entries of a map are printed with their keys sorted.\<close>

fun json_show :: "json \<Rightarrow> string" where
  "json_show JNull = ''<nil>''"
| "json_show (JBool b) = (if b then ''true'' else ''false'')"
| "json_show (JNum n) = n"
| "json_show (JStr s) = s"
| "json_show (JArr vs) = ''['' @ join '' '' (map json_show vs) @ '']''"
| "json_show (JObj ms) =
     ''map['' @ join '' '' (map (\<lambda>(k, t). k @ '':'' @ t) (sort_key fst (map (\<lambda>(k, v). (k, json_show v)) ms))) @ '']''"

text \<open>The walk; the fuel is how deep folders may nest.\<close>

fun listHiltSecrets :: "nat \<Rightarrow> 'w bao_api \<Rightarrow> bao_client \<Rightarrow> string \<Rightarrow> ('w, string list) act" where
  "listHiltSecrets 0 api client folder = hangE"
| "listHiltSecrets (Suc fuel) api client folder =
     bindE (mapErr (wrap (''list hilt'' @ possessive @ '' secrets under '' @ folder @ '': ''))
       (bao_List api client (HiltMount @ ''/metadata/'' @ folder))) (\<lambda>resp.
     case (case resp of None \<Rightarrow> None | Some r \<Rightarrow> (case sc_Data r of None \<Rightarrow> None | Some _ \<Rightarrow> Some r)) of
       None \<Rightarrow> returnE []
     | Some r \<Rightarrow>
        (case data_list r ''keys'' of
           None \<Rightarrow> failE (Errorf (''list hilt'' @ possessive @ '' secrets under '' @ folder @ '': response has no keys''))
         | Some keys \<Rightarrow>
             foldE (\<lambda>raw paths.
               case raw of
                 JStr key \<Rightarrow>
                   if key = [] then
                     failE (Errorf (''list hilt'' @ possessive @ '' secrets under '' @ folder @ '': unexpected key '' @ json_show raw))
                   else if has_suffix key ''/'' then
                     bindE (listHiltSecrets fuel api client (folder @ key)) (\<lambda>nested. returnE (paths @ nested))
                   else returnE (paths @ [folder @ key])
               | _ \<Rightarrow> failE (Errorf (''list hilt'' @ possessive @ '' secrets under '' @ folder @ '': unexpected key '' @ json_show raw)))
             keys []))"

definition ListHiltSecrets :: "nat \<Rightarrow> 'w bao_api \<Rightarrow> bao_client \<Rightarrow> ('w, string list) act" where
  "ListHiltSecrets fuel api client = listHiltSecrets fuel api client hiltSecretsRoot"

definition DestroyHiltSecret :: "'w bao_api \<Rightarrow> bao_client \<Rightarrow> string \<Rightarrow> ('w, unit) act" where
  "DestroyHiltSecret api client path =
     (if \<not> has_prefix path hiltSecretsRoot then
        failE (Errorf (''refusing to destroy '' @ path @ '': hilt'' @ possessive @ '' secrets all live under '' @ hiltSecretsRoot))
      else mapErr (wrap (''destroy hilt'' @ possessive @ '' secret '' @ path @ '': '')) (bao_DeleteMetadata api client HiltMount path))"

end
