(* ===== verification/Seed.thy ===== *)
theory Seed
imports Retire Json Vault
begin

text \<open>
  \<open>cmd/provision/seed.go\<close>: identities, delegations, wallets, shared secrets, database passwords and
  databases.

  The libraries are the parameter \<open>seed_env\<close>. Services are enumerated in the order of the source's
  slices; \<open>order\<close> is the order in which Go walks the map of pandora's connection strings.
\<close>

record ('w, 's, 'k) seed_env =
  se_signers :: "('w, 's) signer_lib"
  se_wallets :: "('w, 'k) secec_lib"
  se_rand :: "nat \<Rightarrow> ('w, string) act"
  se_delegate :: "'w delegate_lib"
  se_connect :: "'w pgx_Connect"

section \<open>What is seeded\<close>

definition identityServices :: "string list" where
  "identityServices =
     [''sprue'', ''hilt'', ''swarf'', ''delegator'', ''signing-service'', ''indexer'', ''etracker'']"

definition multibaseServices :: "(string \<times> bool) list" where
  "multibaseServices = [(''delegator'', True), (''signing-service'', True)]"

definition isMultibase :: "string \<Rightarrow> bool" where
  "isMultibase service \<longleftrightarrow> map_of multibaseServices service = Some True"

definition databaseConsumers :: "string list" where
  "databaseConsumers = [''sprue'', ''hilt'', ''swarf'', ''plc'', ''openbao'']"

definition pandoraDatabase :: string where "pandoraDatabase = ''pandora''"
definition pandoraOwner :: string where "pandoraOwner = ''pandora_admin''"

definition pandoraTimeout :: "setting list" where
  "pandoraTimeout =
     [\<lparr>set_Name = ''statement_timeout'', set_Value = ''15s''\<rparr>,
      \<lparr>set_Name = ''idle_in_transaction_session_timeout'', set_Value = ''30s''\<rparr>]"

definition pandoraMigrationIdle :: "setting list" where
  "pandoraMigrationIdle = [\<lparr>set_Name = ''idle_in_transaction_session_timeout'', set_Value = ''30s''\<rparr>]"

definition pandoraLoginRoles :: "(string \<times> setting list) list" where
  "pandoraLoginRoles =
     [(''pandora_storage_server'', pandoraTimeout), (''locker'', []), (''pandora_migration'', pandoraMigrationIdle)]"

text \<open>The serialization a wallet's consumer reads.\<close>

datatype wallet_encoding = EncodeRawHex | EncodeHex0x

record walletSpec =
  ws_service :: string
  ws_name :: string
  ws_encode :: wallet_encoding

definition wallets :: "walletSpec list" where
  "wallets =
     [\<lparr>ws_service = ''signing-service'', ws_name = ''payer-key'', ws_encode = EncodeRawHex\<rparr>,
      \<lparr>ws_service = ''delegator'', ws_name = ''transactor-key'', ws_encode = EncodeHex0x\<rparr>]"

definition randomSecrets :: "(string \<times> string) list" where
  "randomSecrets = [(''hilt'', ''partner-key'')]"

section \<open>Keys\<close>

definition identitySpec :: "('w, 's) signer_lib \<Rightarrow> string \<Rightarrow> keySpec" where
  "identitySpec lib service =
     \<lparr>key_service = service, key_name = ''identity'', publicName = ''identity.did'',
      derive = (\<lambda>v. case ParseIdentity lib v of Inl err \<Rightarrow> Inl err | Inr i \<Rightarrow> Inr (id_DID i)),
      legacyNames = [''identity''] @ (if isMultibase service then [''identity-multibase''] else [])\<rparr>"

definition parseWallet :: "('w, 'k) secec_lib \<Rightarrow> walletSpec \<Rightarrow> string \<Rightarrow> evm_wallet result" where
  "parseWallet lib spec stored =
     (if ws_name spec = ''transactor-key'' then ParseEVMWalletHex0x lib stored else ParseEVMWalletRawHex lib stored)"

definition encode_wallet :: "walletSpec \<Rightarrow> evm_wallet \<Rightarrow> string" where
  "encode_wallet spec w = (case ws_encode spec of EncodeRawHex \<Rightarrow> RawHex w | EncodeHex0x \<Rightarrow> Hex0x w)"

text \<open>Parsing panics only when the hash is shorter than the address it checks, which Keccak-256 never is.\<close>

definition wallet_keySpec :: "('w, 'k) secec_lib \<Rightarrow> walletSpec \<Rightarrow> keySpec" where
  "wallet_keySpec lib spec =
     \<lparr>key_service = ws_service spec, key_name = ws_name spec, publicName = ws_name spec @ ''.address'',
      derive = (\<lambda>v. case parseWallet lib spec v of
         Ok w \<Rightarrow> Inr (ew_Address w) | Fail err \<Rightarrow> Inl err | Hang \<Rightarrow> Inl (Errorf ''panic'')),
      legacyNames = [ws_name spec]\<rparr>"

text \<open>The published record: written when the key is new, kept when it was there.\<close>

definition publish :: "'w deps \<Rightarrow> bool \<Rightarrow> string \<Rightarrow> string \<Rightarrow> string \<Rightarrow> ('w, unit) act" where
  "publish d created service name v =
     (if created then PutPublic (dp_store d) service name v
      else bindE (EnsurePublic (dp_store d) service name (returnE v)) (\<lambda>_. returnE ()))"

text \<open>The state of the seeding loops: the response, the keys moved out of SSM, the services with a fresh key.\<close>

record seed_state =
  ss_resp :: response
  ss_moved :: "keySpec list"
  ss_fresh :: "string list"

definition seed_key ::
  "'w deps \<Rightarrow> keySpec \<Rightarrow> ('w, string) act \<Rightarrow> ('w, secret \<times> bool \<times> bool) act" where
  "seed_key d spec generate = ensureKey (secrets_keyStore (dp_keys d)) (ssm_legacyStore (dp_store d)) spec generate"

definition seed_identity ::
  "('w, 's, 'k) seed_env \<Rightarrow> 'w deps \<Rightarrow> string \<Rightarrow> seed_state \<Rightarrow> ('w, seed_state) act" where
  "seed_identity env d service s =
     (let spec = identitySpec (se_signers env) service in
      bindE (mapErr (wrap (''ensure identity for '' @ service @ '': ''))
        (seed_key d spec (bindE (GenerateIdentity (se_signers env)) (\<lambda>i. returnE (id_PrivatePEM i))))) (\<lambda>(stored, created, moved).
      let s = s\<lparr>ss_moved := ss_moved s @ (if moved then [spec] else []),
                ss_resp := addSecret (ss_resp s) service ''identity'' (sec_ARN stored)\<rparr> in
      bindE (parseE (''parse stored identity for '' @ service @ '': '') (ParseIdentity (se_signers env) (sec_Value stored))) (\<lambda>i.
      bindE (if isMultibase service then
               bindE (PutIfChanged (dp_keys d) service ''identity-multibase'' (id_Multibase i)) (\<lambda>multibase.
               returnE (s\<lparr>ss_resp := addSecret (ss_resp s) service ''identity-multibase'' (sec_ARN multibase)\<rparr>))
             else returnE s) (\<lambda>s.
      thenE (publish d created service ''identity.did'' (id_DID i))
      (let resp = (ss_resp s)\<lparr>rs_DIDs := AList.update service (id_DID i) (rs_DIDs (ss_resp s))\<rparr> in
       returnE (if created then
           s\<lparr>ss_resp := resp\<lparr>rs_Created := rs_Created resp @ [sec_Name (dp_keys d) service ''identity'']\<rparr>,
             ss_fresh := ss_fresh s @ [service]\<rparr>
         else s\<lparr>ss_resp := resp\<rparr>))))))"

definition seedIdentities :: "('w, 's, 'k) seed_env \<Rightarrow> 'w deps \<Rightarrow> seed_state \<Rightarrow> ('w, seed_state) act" where
  "seedIdentities env d s = foldE (seed_identity env d) identityServices s"

definition seed_webDID :: "config \<Rightarrow> (string, string) go_map" where
  "seed_webDID cfg = map (\<lambda>service. (service, ''did:web:'' @ serviceHostname cfg service)) identityServices"

definition seed_proof ::
  "('w, 's, 'k) seed_env \<Rightarrow> 'w deps \<Rightarrow> string list \<Rightarrow> ucan_proof \<Rightarrow> response \<Rightarrow> ('w, response) act" where
  "seed_proof env d fresh p resp =
     (let issue =
        bindE (mapErr (wrap (''read '' @ up_Issuer p @ '' identity to sign the '' @ up_Name p @ '' proof: ''))
          (sec_Get (dp_keys d) (up_Issuer p) ''identity'')) (\<lambda>issuer.
        IssueProof (se_delegate env) (sec_Value issuer) p);
          made = resp\<lparr>rs_Created := rs_Created resp @ [Path (dp_store d) (up_Consumer p) (up_Name p)]\<rparr> in
      if up_Issuer p \<in> set fresh then
        bindE issue (\<lambda>delegation.
        thenE (PutPublic (dp_store d) (up_Consumer p) (up_Name p) delegation) (returnE made))
      else
        bindE (EnsurePublic (dp_store d) (up_Consumer p) (up_Name p) issue) (\<lambda>(_, created).
        returnE (if created then made else resp)))"

definition seedProofs ::
  "('w, 's, 'k) seed_env \<Rightarrow> 'w deps \<Rightarrow> string list \<Rightarrow> response \<Rightarrow> ('w, response) act" where
  "seedProofs env d fresh resp =
     (if cfg_HostnameSuffix (dp_cfg d) = [] then
        failE (Errorf ''FORGE_HOSTNAME_SUFFIX is required: proofs are addressed to did:web identities'')
      else foldE (seed_proof env d fresh) (Proofs (seed_webDID (dp_cfg d))) resp)"

definition seed_wallet ::
  "('w, 's, 'k) seed_env \<Rightarrow> 'w deps \<Rightarrow> walletSpec \<Rightarrow> seed_state \<Rightarrow> ('w, seed_state) act" where
  "seed_wallet env d ws s =
     (let spec = wallet_keySpec (se_wallets env) ws; label = ws_service ws @ ''/'' @ ws_name ws in
      bindE (mapErr (wrap (''ensure wallet '' @ label @ '': ''))
        (seed_key d spec (bindE (GenerateEVMWallet (se_wallets env)) (\<lambda>w. returnE (encode_wallet ws w))))) (\<lambda>(stored, created, moved).
      let s = s\<lparr>ss_moved := ss_moved s @ (if moved then [spec] else []),
                ss_resp := addSecret (ss_resp s) (ws_service ws) (ws_name ws) (sec_ARN stored)\<rparr> in
      bindE (mapErr (wrap (''parse stored wallet '' @ label @ '': '')) (liftE (parseWallet (se_wallets env) ws (sec_Value stored)))) (\<lambda>w.
      thenE (publish d created (ws_service ws) (ws_name ws @ ''.address'') (ew_Address w))
      (let resp = (ss_resp s)\<lparr>rs_Addresses := AList.update label (ew_Address w) (rs_Addresses (ss_resp s))\<rparr> in
       returnE (s\<lparr>ss_resp := (if created then
         resp\<lparr>rs_Created := rs_Created resp @ [sec_Name (dp_keys d) (ws_service ws) (ws_name ws)]\<rparr> else resp)\<rparr>)))))"

definition seedWallets :: "('w, 's, 'k) seed_env \<Rightarrow> 'w deps \<Rightarrow> seed_state \<Rightarrow> ('w, seed_state) act" where
  "seedWallets env d s = foldE (seed_wallet env d) wallets s"

section \<open>Secrets and passwords\<close>

definition seed_random_secret ::
  "('w, 's, 'k) seed_env \<Rightarrow> 'w deps \<Rightarrow> string \<times> string \<Rightarrow> response \<Rightarrow> ('w, response) act" where
  "seed_random_secret env d sn resp =
     (let (service, name) = sn in
      bindE (mapErr (wrap (''ensure secret '' @ service @ ''/'' @ name @ '': ''))
        (EnsureSecret (dp_store d) service name (RandomHex (se_rand env)))) (\<lambda>(_, created).
      returnE (if created then resp\<lparr>rs_Created := rs_Created resp @ [Path (dp_store d) service name]\<rparr> else resp)))"

definition seedRandomSecrets :: "('w, 's, 'k) seed_env \<Rightarrow> 'w deps \<Rightarrow> response \<Rightarrow> ('w, response) act" where
  "seedRandomSecrets env d resp = foldE (seed_random_secret env d) randomSecrets resp"

text \<open>A role's stored password, minted if there is none; \<open>label\<close> is what the error names it by.\<close>

definition ensure_password ::
  "('w, 's, 'k) seed_env \<Rightarrow> 'w deps \<Rightarrow> string \<Rightarrow> string \<Rightarrow> response \<Rightarrow> ('w, string \<times> response) act" where
  "ensure_password env d label service resp =
     bindE (mapErr (wrap (''ensure postgres password for '' @ label @ '': ''))
       (EnsureSecret (dp_store d) service ''postgres-password'' (RandomHex (se_rand env)))) (\<lambda>(password, created).
     returnE (password,
       if created then resp\<lparr>rs_Created := rs_Created resp @ [Path (dp_store d) service ''postgres-password'']\<rparr> else resp))"

definition seedDatabasePasswords ::
  "('w, 's, 'k) seed_env \<Rightarrow> 'w deps \<Rightarrow> response \<Rightarrow> ('w, database list \<times> response) act" where
  "seedDatabasePasswords env d resp =
     foldE (\<lambda>service (databases, resp).
       bindE (ensure_password env d service service resp) (\<lambda>(password, resp).
       returnE (databases @ [\<lparr>db_Name = service, db_Owner = [], db_Password = password, db_LoginRoles = []\<rparr>], resp)))
       databaseConsumers ([], resp)"

section \<open>Databases\<close>

definition masterCredentials :: "'w deps \<Rightarrow> string \<Rightarrow> ('w, string \<times> string) act" where
  "masterCredentials d secretARN =
     bindE (mapErr (wrap ''read RDS master secret: '') (GetSecretValue (dp_secrets d) secretARN)) (\<lambda>(secretString, _).
     bindE (parseE ''decode RDS master secret: '' (Unmarshal_strings [''username'', ''password''] secretString)) (\<lambda>fields.
     let username = fields ! 0; password = fields ! 1 in
     if username = [] \<or> password = [] then failE (Errorf ''RDS master secret is missing username or password'')
     else returnE (username, password)))"

definition connectAsMaster :: "'w pgx_Connect \<Rightarrow> 'w deps \<Rightarrow> dbTarget \<Rightarrow> ('w, 'w pgx_conn) act" where
  "connectAsMaster connect d target =
     bindE (masterCredentials d (db_MasterSecret target)) (\<lambda>(username, password).
     let adminDSN = AdminDSN (db_Host target) (db_Port target) (cfg_DBAdminDatabase (dp_cfg d)) username password in
     mapErr (wrap (''connect to '' @ db_Host target @ '' as master: '')) (connect adminDSN))"

definition ensureDatabases :: "'w pgx_Connect \<Rightarrow> 'w deps \<Rightarrow> dbTarget \<Rightarrow> database list \<Rightarrow> ('w, unit) act" where
  "ensureDatabases connect d target databases =
     bindE (connectAsMaster connect d target) (\<lambda>conn.
     deferE (px_Close conn) (dbinit_Ensure (px_db conn) databases))"

definition createDatabases :: "'w pgx_Connect \<Rightarrow> 'w deps \<Rightarrow> database list \<Rightarrow> ('w, unit) act" where
  "createDatabases connect d databases = ensureDatabases connect d (centralDB (dp_cfg d)) databases"

definition plc_credentials :: "config \<Rightarrow> database \<Rightarrow> string" where
  "plc_credentials cfg db =
     Marshal_map [(''username'', db_Name db), (''password'', db_Password db), (''host'', cfg_DBHost cfg),
       (''port'', itoa (cfg_DBPort cfg)), (''database'', db_Name db), (''sslmode'', ''no-verify'')]"

definition store_connection :: "'w deps \<Rightarrow> database \<Rightarrow> ('w, unit) act" where
  "store_connection d db =
     (let dsn = DSN (cfg_DBHost (dp_cfg d)) (cfg_DBPort (dp_cfg d)) (db_Name db) (db_Name db) (db_Password db) SSLRequire in
      thenE (PutSecret (dp_store d) (db_Name db) ''postgres-dsn'' dsn)
        (if db_Name db = ''plc'' then
           PutSecret (dp_store d) (db_Name db) ''db-creds-json'' (plc_credentials (dp_cfg d) db)
         else returnE ()))"

definition storeConnectionStrings :: "'w deps \<Rightarrow> database list \<Rightarrow> ('w, unit) act" where
  "storeConnectionStrings d databases = forE (store_connection d) databases"

section \<open>The pandora database\<close>

definition ssmService :: "string \<Rightarrow> string" where
  "ssmService r = map (\<lambda>c. if c = CHR ''_'' then CHR ''-'' else c) r"

definition pandoraDSNs :: "dbTarget \<Rightarrow> database \<Rightarrow> (string, string) go_map" where
  "pandoraDSNs target db =
     fold (\<lambda>r dsns. AList.update (ssmService (role_Name r))
         (DSN (db_Host target) (db_Port target) (db_Name db) (role_Name r) (role_Password r) SSLVerifyFull) dsns)
       (db_LoginRoles db)
       [(ssmService (OwnerRole db),
         DSN (db_Host target) (db_Port target) (db_Name db) (OwnerRole db) (db_Password db) SSLVerifyFull)]"

definition seedPandora ::
  "((string \<times> string) list \<Rightarrow> (string \<times> string) list) \<Rightarrow> ('w, 's, 'k) seed_env \<Rightarrow> 'w deps \<Rightarrow> dbTarget \<Rightarrow> response
    \<Rightarrow> ('w, response) act" where
  "seedPandora order env d target resp =
     bindE (ensure_password env d pandoraOwner (ssmService pandoraOwner) resp) (\<lambda>(ownerPassword, resp).
     bindE (foldE (\<lambda>(name, settings) (roles, resp).
         bindE (ensure_password env d name (ssmService name) resp) (\<lambda>(rolePassword, resp).
         returnE (roles @ [\<lparr>role_Name = name, role_Password = rolePassword, role_Settings = settings\<rparr>], resp)))
       pandoraLoginRoles ([], resp)) (\<lambda>(roles, resp).
     let db = \<lparr>db_Name = pandoraDatabase, db_Owner = pandoraOwner, db_Password = ownerPassword, db_LoginRoles = roles\<rparr> in
     thenE (ensureDatabases (se_connect env) d target [db])
     (thenE (forE (\<lambda>(service, dsn). PutSecret (dp_store d) service ''postgres-dsn'' dsn) (order (map_entries (pandoraDSNs target db))))
     (returnE resp))))"

section \<open>The seed phase\<close>

definition seedPhase ::
  "((string \<times> string) list \<Rightarrow> (string \<times> string) list) \<Rightarrow> ('w, 's, 'k) seed_env \<Rightarrow> 'w deps \<Rightarrow> ('w, response) act" where
  "seedPhase order env d =
     bindE (seedIdentities env d \<lparr>ss_resp = response_of ''seed'', ss_moved = [], ss_fresh = []\<rparr>) (\<lambda>s.
     bindE (seedProofs env d (ss_fresh s) (ss_resp s)) (\<lambda>resp.
     bindE (seedWallets env d (s\<lparr>ss_resp := resp\<rparr>)) (\<lambda>s.
     bindE (seedRandomSecrets env d (ss_resp s)) (\<lambda>resp.
     bindE (seedDatabasePasswords env d resp) (\<lambda>(databases, resp).
     thenE (createDatabases (se_connect env) d databases)
     (thenE (storeConnectionStrings d databases)
     (let resp = resp\<lparr>rs_Databases := rs_Databases resp @ map db_Name databases\<rparr> in
      bindE (case cfg_Pandora (dp_cfg d) of
          None \<Rightarrow> returnE resp
        | Some target \<Rightarrow>
            bindE (seedPandora order env d target resp) (\<lambda>resp.
            returnE (resp\<lparr>rs_Databases := rs_Databases resp @ [pandoraDatabase]\<rparr>))) (\<lambda>resp.
      thenE (deleteMovedKeys (ssm_legacyStore (dp_store d)) (ss_moved s)) (returnE resp)))))))))"

section \<open>Wallets do not panic\<close>

text \<open>Neither making nor parsing a wallet panics, as the hash has its 32 bytes.\<close>

lemma wallet_returns:
  assumes hash: "\<And>s. length (keccak256 lib s) = 32"
  shows "parseWallet lib ws v \<noteq> Hang" "newEVMWallet lib k \<noteq> Hang"
proof -
  have new: "newEVMWallet lib k \<noteq> Hang" for k
  proof -
    let ?lower = "hex_EncodeToString (drop 12 (keccak256 lib (drop 1 (secec_PublicKey lib k))))"
    have "\<exists>out. checksum_chars ?lower (hex_EncodeToString (keccak256 lib ?lower)) = Some out \<and> map lower_hex out = ?lower"
      by (rule checksum_chars_lower [OF hex_chars]) (simp add: hash)
    then show ?thesis by (auto simp: newEVMWallet_def toChecksumAddress_def Let_def)
  qed
  then show "newEVMWallet lib k \<noteq> Hang" .
  show "parseWallet lib ws v \<noteq> Hang"
    using new by (auto simp: parseWallet_def ParseEVMWalletHex0x_def ParseEVMWalletRawHex_def newEVMWalletFromKeyHex_def
        newEVMWalletFromKeyBytes_def split: sum.split)
qed

end
