(* ===== verification/VaultPhase.thy ===== *)
theory VaultPhase
imports Provision Vault
begin

text \<open>
  \<open>cmd/provision/vault.go\<close>: the vault phase, which brings OpenBao up, gives hilt its AppRole and
  reconciles the appliances' transit keys, and \<open>cmd/provision/appliancetoken.go\<close>: the phase that mints
  a region's unseal token.

  The OpenBao client, the clock and the context of the invocation are arguments, and so is the
  library's parser of durations. \<open>fuel\<close> bounds how many pages SSM lists, as in \<open>SsmStore\<close>; the polls
  of a wait are bounded by its own budget. Strings that a nil list would change (\<open>null\<close> for \<open>[]\<close> in
  the JSON of the recovery keys) are those of a list that is not nil.
\<close>

section \<open>Waiting for OpenBao\<close>

text \<open>Budgets, in seconds.\<close>

definition openBaoStartupBudget :: nat where "openBaoStartupBudget = 240"
definition openBaoUnsealBudget :: nat where "openBaoUnsealBudget = 60"

text \<open>\<open>waitCtx, cancel := context.WithTimeout(ctx, budget)\<close> and the wait under it; a poll takes at least an interval.\<close>

definition wait_fuel :: "nat \<Rightarrow> nat" where
  "wait_fuel budget = budget div wait_interval + 2"

definition wait_unsealed :: "'w clock \<Rightarrow> 'w bao_api \<Rightarrow> go_context \<Rightarrow> nat \<Rightarrow> bao_client \<Rightarrow> ('w, unit) act" where
  "wait_unsealed clk api ctx budget client w =
     WaitForUnsealed (wait_fuel budget) clk api (WithTimeout clk ctx budget w) client w"

section \<open>The vault phase\<close>

definition ensureRootToken ::
  "'w bao_api \<Rightarrow> 'w deps \<Rightarrow> bao_client \<Rightarrow> response \<Rightarrow> ('w, string \<times> response) act" where
  "ensureRootToken api d client resp =
     bindE (EnsureInitialised api client) (\<lambda>result.
     if \<not> ir_Initialised result then
       bindE (mapErr (wrap ''openbao is initialised but its root token is not in SSM: '')
         (GetSecret (dp_store d) ''openbao'' ''root-token'')) (\<lambda>token.
       returnE (token, resp))
     else
       thenE (PutSecret (dp_store d) ''openbao'' ''root-token'' (ir_RootToken result))
       (thenE (PutSecret (dp_store d) ''openbao'' ''recovery-keys'' (Marshal_strings (ir_RecoveryKeys result)))
       (returnE (ir_RootToken result,
          resp\<lparr>rs_Initialised := True,
               rs_Created := rs_Created resp @ [Path (dp_store d) ''openbao'' ''root-token'', Path (dp_store d) ''openbao'' ''recovery-keys'']\<rparr>))))"

definition ensureHiltSecretID ::
  "'w bao_api \<Rightarrow> 'w deps \<Rightarrow> bao_client \<Rightarrow> response \<Rightarrow> ('w, response) act" where
  "ensureHiltSecretID api d client resp =
     bindE (LookupSecret (dp_store d) ''hilt'' ''vault-secret-id'') (\<lambda>stored.
     bindE (case stored of None \<Rightarrow> returnE False | Some s \<Rightarrow> SecretIDValid api client s) (\<lambda>valid.
     if valid then returnE resp
     else
       bindE (IssueSecretID api client) (\<lambda>secretID.
       thenE (PutSecret (dp_store d) ''hilt'' ''vault-secret-id'' secretID)
       (returnE (resp\<lparr>rs_Created := rs_Created resp @ [Path (dp_store d) ''hilt'' ''vault-secret-id'']\<rparr>)))))"

definition retireAppliance :: "nat \<Rightarrow> 'w bao_api \<Rightarrow> 'w deps \<Rightarrow> bao_client \<Rightarrow> string \<Rightarrow> ('w, unit) act" where
  "retireAppliance fuel api d client region =
     (let service = applianceService region in
      bindE (LookupPublic (dp_store d) service unsealTokenAccessorKey) (\<lambda>found.
      thenE (case found of None \<Rightarrow> returnE () | Some accessor \<Rightarrow> RevokeTokenByAccessor api client accessor)
      (thenE (RemoveApplianceTokenRole api client region)
      (thenE (DeletePrefix fuel (dp_store d) service)
      (RemoveApplianceTransitKey api client region)))))"

definition retire_each ::
  "nat \<Rightarrow> 'w bao_api \<Rightarrow> 'w deps \<Rightarrow> bao_client \<Rightarrow> string list \<Rightarrow> response \<Rightarrow> ('w, response) act" where
  "retire_each fuel api d client =
     foldE (\<lambda>region resp.
       thenE (retireAppliance fuel api d client region)
         (returnE (resp\<lparr>rs_RetiredAppliances := rs_RetiredAppliances resp @ [region]\<rparr>)))"

definition reconcileApplianceKeys ::
  "nat \<Rightarrow> 'w bao_api \<Rightarrow> 'w deps \<Rightarrow> bao_client \<Rightarrow> provision_request \<Rightarrow> response \<Rightarrow> ('w, response) act" where
  "reconcileApplianceKeys fuel api d client req resp =
     bindE (ApplianceRegions api client) (\<lambda>existing.
     bindE (sumE (PlanApplianceKeys existing (rq_ApplianceRegions req) (rq_RetiredApplianceRegions req))) (\<lambda>plan.
     bindE (EnsureApplianceTransitKeys api client (ap_Active plan)) (\<lambda>created.
     let resp = resp\<lparr>rs_Created := rs_Created resp @ map (\<lambda>name. ''openbao:transit/keys/'' @ name) created\<rparr> in
     bindE (retire_each fuel api d client (ap_Remove plan) resp) (\<lambda>resp.
     returnE (resp\<lparr>rs_ApplianceKeys := rs_ApplianceKeys resp @ map ApplianceKeyName (ap_Active plan)\<rparr>)))))"

definition vaultPhase ::
  "nat \<Rightarrow> 'w clock \<Rightarrow> 'w bao_api \<Rightarrow> go_context \<Rightarrow> 'w deps \<Rightarrow> provision_request \<Rightarrow> ('w, response) act" where
  "vaultPhase fuel clk api ctx d req =
     (if cfg_OpenBaoAddr (dp_cfg d) = [] then
        failE (Errorf ''FORGE_OPENBAO_ADDR is required for the vault phase'')
      else if cfg_PrivateCIDRs (dp_cfg d) = [] then
        failE (Errorf ''FORGE_PRIVATE_CIDRS is required for the vault phase'')
      else
        bindE (mapErr (wrap ''build openbao client: '') (bao_NewClient api (cfg_OpenBaoAddr (dp_cfg d)))) (\<lambda>client.
        thenE (wait_unsealed clk api ctx openBaoStartupBudget client)
        (bindE (ensureRootToken api d client (response_of ''vault'')) (\<lambda>(rootToken, resp).
         let client = client\<lparr>bc_Token := rootToken\<rparr> in
         thenE (if rs_Initialised resp then wait_unsealed clk api ctx openBaoUnsealBudget client else returnE ())
         (thenE (EnsureMounts api client)
         (bindE (EnsureHiltAppRole api client (cfg_PrivateCIDRs (dp_cfg d))) (\<lambda>roleID.
          thenE (PutSecret (dp_store d) ''hilt'' ''vault-role-id'' roleID)
          (bindE (ensureHiltSecretID api d client resp) (\<lambda>resp.
           reconcileApplianceKeys fuel api d client req resp))))))))) "

section \<open>The appliance-token phase\<close>

definition defaultTokenPeriod :: string where "defaultTokenPeriod = ''72h''"
definition defaultWrapTTL :: string where "defaultWrapTTL = ''24h''"

definition tokenActionMint :: string where "tokenActionMint = ''mint''"
definition tokenActionReissue :: string where "tokenActionReissue = ''reissue''"
definition tokenActionRefuse :: string where "tokenActionRefuse = ''refuse''"

definition validateTokenDurations :: "(string \<Rightarrow> go_error + unit) \<Rightarrow> token_plan \<Rightarrow> go_error option" where
  "validateTokenDurations parseDuration plan =
     (case parseDuration (tp_Period plan) of
        Inl err \<Rightarrow> Some (wrap (''--period '' @ go_quote (tp_Period plan) @ '' is not a duration openbao accepts: '') err)
      | Inr _ \<Rightarrow>
     (case parseDuration (tp_WrapTTL plan) of
        Inl err \<Rightarrow> Some (wrap (''--wrap-ttl '' @ go_quote (tp_WrapTTL plan) @ '' is not a duration openbao accepts: '') err)
      | Inr _ \<Rightarrow> None))"

definition decideTokenAction :: "bool \<Rightarrow> bool \<Rightarrow> string" where
  "decideTokenAction tokenLive reissue =
     (if \<not> tokenLive then tokenActionMint else if reissue then tokenActionReissue else tokenActionRefuse)"

definition planApplianceToken ::
  "'w bao_api \<Rightarrow> (string \<Rightarrow> go_error + unit) \<Rightarrow> 'w deps \<Rightarrow> bao_client \<Rightarrow> provision_request \<Rightarrow> ('w, token_plan) act" where
  "planApplianceToken api parseDuration d client req =
     (let name = ApplianceKeyName (rq_Region req) in
      bindE (mapErr (wrap (''read transit key '' @ name @ '': '')) (bao_Read api client (''transit/keys/'' @ name))) (\<lambda>key.
      if key = None then
        failE (Errorf (''no transit key '' @ name @ '': add '' @ go_quote (rq_Region req)
          @ '' to appliance_regions in the stage'' @ possessive @ '' terraform.tfvars and merge, which creates the key and its policy''))
      else
        (let plan = \<lparr>tp_Region = rq_Region req, tp_Action = tokenActionMint, tp_Accessor = [], tp_TokenLive = False,
               tp_NodeCIDR = rq_NodeCIDR req, tp_Period = valueOr (rq_Period req) defaultTokenPeriod,
               tp_WrapTTL = valueOr (rq_WrapTTL req) defaultWrapTTL\<rparr> in
         case validateTokenDurations parseDuration plan of
           Some err \<Rightarrow> failE err
         | None \<Rightarrow>
             bindE (LookupPublic (dp_store d) (applianceService (rq_Region req)) unsealTokenAccessorKey) (\<lambda>found.
             case found of
               None \<Rightarrow> returnE plan
             | Some accessor \<Rightarrow>
                 bindE (TokenLive api client accessor) (\<lambda>live.
                 returnE (plan\<lparr>tp_Accessor := accessor, tp_TokenLive := live,
                   tp_Action := decideTokenAction live (rq_Reissue req)\<rparr>))))))"

definition recordMintedAccessor ::
  "'w bao_api \<Rightarrow> bao_client \<Rightarrow> (string \<Rightarrow> string \<Rightarrow> string \<Rightarrow> ('w, unit) act) \<Rightarrow> string \<Rightarrow> string \<Rightarrow> ('w, unit) act" where
  "recordMintedAccessor api client putPublic service accessor =
     catchE (putPublic service unsealTokenAccessorKey accessor) (\<lambda>err.
     bindE (tryE (RevokeTokenByAccessor api client accessor)) (\<lambda>res.
     case res of
       Inl revokeErr \<Rightarrow>
         failE (Wrapf2 ''record the minted accessor: '' err ('', and revoking accessor '' @ accessor @ '' failed: '') revokeErr [])
     | Inr _ \<Rightarrow> failE (wrap ''record the minted accessor, so the token was revoked: '' err)))"

definition token_result_of :: "config \<Rightarrow> provision_request \<Rightarrow> token_plan \<Rightarrow> string \<Rightarrow> string \<Rightarrow> token_result" where
  "token_result_of cfg req plan wrappingToken accessor =
     \<lparr>tr_Region = rq_Region req, tr_WrappingToken = wrappingToken, tr_Accessor = accessor,
      tr_WrapTTL = tp_WrapTTL plan, tr_Period = tp_Period plan, tr_NodeCIDR = tp_NodeCIDR plan,
      tr_UnsealAddress = ''https://ssm.'' @ cfg_HostnameSuffix cfg\<rparr>"

definition mintApplianceToken ::
  "'w bao_api \<Rightarrow> 'w deps \<Rightarrow> bao_client \<Rightarrow> provision_request \<Rightarrow> token_plan \<Rightarrow> ('w, response) act" where
  "mintApplianceToken api d client req plan =
     (let cfg = \<lparr>at_Region = rq_Region req, at_NodeCIDR = tp_NodeCIDR plan, at_Period = tp_Period plan\<rparr> in
      thenE (EnsureApplianceTokenRole api client cfg)
      (bindE (MintApplianceToken api client cfg (tp_WrapTTL plan)) (\<lambda>(wrappingToken, accessor).
       thenE (recordMintedAccessor api client (PutPublic (dp_store d)) (applianceService (rq_Region req)) accessor)
       (thenE (if tp_Action plan = tokenActionReissue then
                 mapErr (wrap (''the '' @ rq_Region req
                   @ '' replacement token was minted and recorded, but the previous one is still live and is no longer on record; revoke accessor ''
                   @ tp_Accessor plan @ '' by hand: ''))
                   (RevokeTokenByAccessor api client (tp_Accessor plan))
               else returnE ())
       (returnE ((response_of ''appliance-token'')
          \<lparr>rs_TokenResult := Some (token_result_of (dp_cfg d) req plan wrappingToken accessor)\<rparr>))))))"

definition token_refused :: "provision_request \<Rightarrow> token_plan \<Rightarrow> go_error" where
  "token_refused req plan =
     Errorf (''region '' @ rq_Region req @ '' already has a live unseal token (accessor '' @ tp_Accessor plan
       @ ''); pass --reissue to revoke it and mint another'')"

definition applianceToken ::
  "'w bao_api \<Rightarrow> (string \<Rightarrow> go_error + unit) \<Rightarrow> 'w deps \<Rightarrow> provision_request \<Rightarrow> ('w, response) act" where
  "applianceToken api parseDuration d req =
     (if rq_Region req = [] then failE (Errorf ''a region is required'')
      else if cfg_OpenBaoAddr (dp_cfg d) = [] then
        failE (Errorf ''FORGE_OPENBAO_ADDR is required for the appliance-token phase'')
      else
        bindE (mapErr (wrap ''build openbao client: '') (bao_NewClient api (cfg_OpenBaoAddr (dp_cfg d)))) (\<lambda>client.
        bindE (mapErr (wrap ''read the openbao root token: '') (GetSecret (dp_store d) ''openbao'' ''root-token'')) (\<lambda>rootToken.
        let client = client\<lparr>bc_Token := rootToken\<rparr> in
        bindE (planApplianceToken api parseDuration d client req) (\<lambda>plan.
        if \<not> rq_Confirm req then
          returnE ((response_of ''appliance-token'')\<lparr>rs_DryRun := True, rs_TokenPlan := Some plan\<rparr>)
        else if tp_Action plan = tokenActionRefuse then failE (token_refused req plan)
        else mintApplianceToken api d client req plan))))"

end
