(* ===== verification/ResetApps.thy ===== *)
theory ResetApps
imports Seed VaultPhase
begin

text \<open>
  \<open>cmd/provision/resetapps.go\<close>: the phase that drops and recreates the apps' databases and destroys
  hilt's tenant secrets, on dev and staging only. \<open>depth\<close> bounds how deep hilt's secrets nest.
\<close>

record 'w reset_env =
  re_connect :: "'w pgx_Connect"
  re_bao :: "'w bao_api"
  re_clock :: "'w clock"
  re_ctx :: go_context

definition appDatabases :: "string list" where
  "appDatabases = [''sprue'', ''hilt'', ''swarf'', ''plc'']"

definition resettableStages :: "string list" where
  "resettableStages = [''dev'', ''staging'']"

definition checkResettableStage :: "string \<Rightarrow> go_error option" where
  "checkResettableStage stage =
     (if stage \<notin> set resettableStages then
        Some (Errorf (''refusing to reset the apps of stage '' @ go_quote stage @ ''; only ['' @ join '' '' resettableStages
          @ ''] can be reset''))
      else None)"

definition planResetApps ::
  "nat \<Rightarrow> 'w bao_api \<Rightarrow> 'w pg_conn \<Rightarrow> bao_client \<Rightarrow> string \<Rightarrow> ('w, reset_apps_plan) act" where
  "planResetApps depth api conn bao stage =
     bindE (Existing conn appDatabases) (\<lambda>existing.
     bindE (ListHiltSecrets depth api bao) (\<lambda>secrets.
     returnE \<lparr>rap_Stage = stage, rap_Databases = existing, rap_HiltSecrets = int (length secrets)\<rparr>))"

definition reset_database ::
  "'w deps \<Rightarrow> 'w pg_conn \<Rightarrow> string \<Rightarrow> reset_apps_result \<Rightarrow> ('w, reset_apps_result) act" where
  "reset_database d conn name result =
     bindE (mapErr (wrap (''read the postgres password for '' @ name @ '': '')) (GetSecret (dp_store d) name ''postgres-password'')) (\<lambda>password.
     bindE (dbinit_Drop conn name) (\<lambda>dropped.
     let result = (if dropped then result\<lparr>rar_Dropped := rar_Dropped result @ [name]\<rparr> else result) in
     thenE (dbinit_Ensure conn [\<lparr>db_Name = name, db_Owner = [], db_Password = password, db_LoginRoles = []\<rparr>])
       (returnE (result\<lparr>rar_Recreated := rar_Recreated result @ [name]\<rparr>))))"

definition applyResetApps ::
  "nat \<Rightarrow> 'w bao_api \<Rightarrow> 'w deps \<Rightarrow> 'w pg_conn \<Rightarrow> bao_client \<Rightarrow> ('w, reset_apps_result) act" where
  "applyResetApps depth api d conn bao =
     bindE (foldE (reset_database d conn) appDatabases
       \<lparr>rar_Stage = cfg_Stage (dp_cfg d), rar_Dropped = [], rar_Recreated = [], rar_HiltSecretsDestroyed = 0\<rparr>) (\<lambda>result.
     bindE (ListHiltSecrets depth api bao) (\<lambda>secrets.
     foldE (\<lambda>path result.
       thenE (DestroyHiltSecret api bao path)
         (returnE (result\<lparr>rar_HiltSecretsDestroyed := rar_HiltSecretsDestroyed result + 1\<rparr>))) secrets result))"

definition openBaoAsRoot :: "'w reset_env \<Rightarrow> 'w deps \<Rightarrow> ('w, bao_client) act" where
  "openBaoAsRoot env d =
     bindE (mapErr (wrap ''build openbao client: '') (bao_NewClient (re_bao env) (cfg_OpenBaoAddr (dp_cfg d)))) (\<lambda>client.
     thenE (wait_unsealed (re_clock env) (re_bao env) (re_ctx env) openBaoUnsealBudget client)
     (bindE (mapErr (wrap (''read openbao'' @ possessive @ '' root token: '')) (GetSecret (dp_store d) ''openbao'' ''root-token'')) (\<lambda>token.
      returnE (client\<lparr>bc_Token := token\<rparr>))))"

definition resetAppsPhase ::
  "nat \<Rightarrow> 'w reset_env \<Rightarrow> 'w deps \<Rightarrow> provision_request \<Rightarrow> ('w, response) act" where
  "resetAppsPhase depth env d req =
     (case checkResettableStage (cfg_Stage (dp_cfg d)) of
        Some err \<Rightarrow> failE err
      | None \<Rightarrow>
      if cfg_OpenBaoAddr (dp_cfg d) = [] then failE (Errorf ''FORGE_OPENBAO_ADDR is required for the reset-apps phase'')
      else
        bindE (connectAsMaster (re_connect env) d (centralDB (dp_cfg d))) (\<lambda>conn.
        deferE (px_Close conn)
          (bindE (openBaoAsRoot env d) (\<lambda>bao.
           bindE (planResetApps depth (re_bao env) (px_db conn) bao (cfg_Stage (dp_cfg d))) (\<lambda>plan.
           if \<not> rq_Confirm req then
             returnE ((response_of ''reset-apps'')\<lparr>rs_DryRun := True, rs_ResetAppsPlan := Some plan\<rparr>)
           else
             bindE (applyResetApps depth (re_bao env) d (px_db conn) bao) (\<lambda>result.
             returnE ((response_of ''reset-apps'')\<lparr>rs_ResetAppsResult := Some result\<rparr>))))))) "

end
