(* ===== verification/Main_Handle.thy ===== *)
theory Main_Handle
imports ResetApps Amount
begin

text \<open>
  \<open>handle\<close> of \<open>cmd/provision/main.go\<close>: the configuration, the clients, and the phase the event names.
  Everything a phase takes from a library is in the record \<open>provision_env\<close>. \<open>order\<close> is how Go walks a
  map, \<open>pages\<close> bounds the pages of an SSM listing, \<open>depth\<close> how deep hilt's secrets nest.
\<close>

record ('w, 'aws, 's, 'k, 'd, 'c, 'i, 'u, 'ec, 'ek, 'ea, 'eb) provision_env =
  pe_LoadDefaultConfig :: "('w, 'aws) act"
  pe_ssm :: "'aws \<Rightarrow> 'w ssm_api"
  pe_secrets :: "'aws \<Rightarrow> 'w secrets_api"
  pe_seed :: "('w, 's, 'k) seed_env"
  pe_bao :: "'w bao_api"
  pe_clock :: "'w clock"
  pe_ctx :: go_context
  pe_eth :: "('w, 'ec, 'ek, 'ea, 'eb) eth_api"
  pe_eth_lib :: "('ek, 'ea, 'eb) eth_lib"
  pe_parseDuration :: "string \<Rightarrow> go_error + unit"
  pe_onboard :: "('w, 'd, 'c, 's, 'i, 'u) onboard_env"

definition newDeps ::
  "('w, 'aws, 's, 'k, 'd, 'c, 'i, 'u, 'ec, 'ek, 'ea, 'eb) provision_env \<Rightarrow> config \<Rightarrow> 'aws \<Rightarrow> 'w deps" where
  "newDeps env cfg awsCfg =
     \<lparr>dp_cfg = cfg, dp_store = \<lparr>ssm_client = pe_ssm env awsCfg, ssm_stage = cfg_Stage cfg\<rparr>,
      dp_keys = \<lparr>sec_client = pe_secrets env awsCfg, sec_stage = cfg_Stage cfg\<rparr>,
      dp_secrets = pe_secrets env awsCfg\<rparr>"

definition unknown_phase :: "string \<Rightarrow> go_error" where
  \<open>unknown_phase phase =
     Errorf (''unknown phase '' @ go_quote phase
       @ ''; want "seed", "vault", "fund", "appliance-token", "onboard", "retire" or "reset-apps"'')\<close>

definition run_phase ::
  "((string \<times> string) list \<Rightarrow> (string \<times> string) list) \<Rightarrow> nat \<Rightarrow> nat
    \<Rightarrow> ('w, 'aws, 's, 'k, 'd, 'c, 'i, 'u, 'ec, 'ek, 'ea, 'eb) provision_env \<Rightarrow> 'w deps \<Rightarrow> provision_request
    \<Rightarrow> ('w, response) act" where
  "run_phase order pages depth env d req =
     (if rq_Phase req = ''seed'' then seedPhase order (pe_seed env) d
      else if rq_Phase req = ''vault'' then vaultPhase pages (pe_clock env) (pe_bao env) (pe_ctx env) d req
      else if rq_Phase req = ''fund'' then fundPhase order (pe_eth env) (pe_eth_lib env) d req
      else if rq_Phase req = ''appliance-token'' then applianceToken (pe_bao env) (pe_parseDuration env) d req
      else if rq_Phase req = ''onboard'' then onboardPhase order pages (pe_onboard env) d req
      else if rq_Phase req = ''retire'' then retirePhase (se_connect (pe_seed env)) d req
      else if rq_Phase req = ''reset-apps'' then
        resetAppsPhase depth
          \<lparr>re_connect = se_connect (pe_seed env), re_bao = pe_bao env, re_clock = pe_clock env, re_ctx = pe_ctx env\<rparr> d req
      else failE (unknown_phase (rq_Phase req)))"

definition handle ::
  "((string \<times> string) list \<Rightarrow> (string \<times> string) list) \<Rightarrow> nat \<Rightarrow> nat \<Rightarrow> (string \<Rightarrow> string)
    \<Rightarrow> ('w, 'aws, 's, 'k, 'd, 'c, 'i, 'u, 'ec, 'ek, 'ea, 'eb) provision_env \<Rightarrow> provision_request
    \<Rightarrow> ('w, response) act" where
  "handle order pages depth getenv env req =
     bindE (sumE (loadConfig order getenv)) (\<lambda>cfg.
     bindE (mapErr (wrap ''load AWS config: '') (pe_LoadDefaultConfig env)) (\<lambda>awsCfg.
     run_phase order pages depth env (newDeps env cfg awsCfg) req))"

end
