(* ===== verification/BaoServer.thy ===== *)
theory BaoServer
imports VaultPhase
begin

text \<open>
  What the vault and appliance-token phases rely on of OpenBao, and an in-memory OpenBao that keeps it.

  \<open>bao_waits\<close> is about time: the clock does not run backwards. \<open>bao_server\<close> is about the transit keys,
  the policies, the token roles and the live tokens, each call changing what its documentation says
  and nothing else; a call that fails may still have been carried out.
\<close>

section \<open>Waiting\<close>

text \<open>
  The clock moves forward: a call takes time, and a sleep at least as long as was asked for. An answer
  to a poll is the state of the server, which is ready when it is not initialised or not sealed.
\<close>

definition bao_ready :: "bao_health \<Rightarrow> bool" where
  "bao_ready h \<longleftrightarrow> \<not> bh_Initialized h \<or> \<not> bh_Sealed h"

lemma bao_readyI [simp]: "\<not> bh_Initialized h \<Longrightarrow> bao_ready h" "\<not> bh_Sealed h \<Longrightarrow> bao_ready h"
  by (simp_all add: bao_ready_def)

lemma not_ready: "bao_ready h \<Longrightarrow> bh_Initialized h \<Longrightarrow> \<not> bh_Sealed h"
  by (simp add: bao_ready_def)

locale bao_waits =
  fixes clk :: "'w clock" and api :: "'w bao_api" and health :: "'w \<Rightarrow> bao_health"
  assumes sleep: "ck_Now clk w + n \<le> ck_Now clk (ck_Sleep clk n w)"
    and polls: "wp (bao_SealStatus api client) (\<lambda>h w'. h = health w' \<and> ck_Now clk w \<le> ck_Now clk w')
      (\<lambda>_ w'. ck_Now clk w \<le> ck_Now clk w') w"
begin

lemma wp_select_done:
  "d \<le> ck_Now clk w + n \<Longrightarrow> wp (select_after clk (Some d) n) (\<lambda>b w'. \<not> b \<and> d \<le> ck_Now clk w') (\<lambda>_ _. False) w"
  using sleep [of w "d - ck_Now clk w"] by (auto simp: wp_def select_after_def)

lemma wp_select_later:
  "\<not> d \<le> ck_Now clk w + n \<Longrightarrow> wp (select_after clk (Some d) n) (\<lambda>b w'. b \<and> w' = ck_Sleep clk n w) (\<lambda>_ _. False) w"
  by (simp add: wp_def select_after_def)

lemma wp_wait:
  assumes "d - ck_Now clk w < fuel * wait_interval"
  shows "wp (WaitForUnsealed fuel clk api (Some d) client) (\<lambda>_ w'. bao_ready (health w')) (\<lambda>_ w'. d \<le> ck_Now clk w') w"
  using assms
proof (induction fuel arbitrary: w)
  case (Suc fuel)
  have again: "wp (bindE (select_after clk (Some d) wait_interval) (\<lambda>elapsed.
      if elapsed then WaitForUnsealed fuel clk api (Some d) client else failE e))
      (\<lambda>_ w'. bao_ready (health w')) (\<lambda>_ w'. d \<le> ck_Now clk w') w1"
    if "ck_Now clk w \<le> ck_Now clk w1" for e w1
  proof (cases "d \<le> ck_Now clk w1 + wait_interval")
    case True
    show ?thesis by (rule wp_bindI [OF wp_select_done [OF True]]) (auto simp: wp_simps)
  next
    case False
    have "d - ck_Now clk (ck_Sleep clk wait_interval w1) < fuel * wait_interval"
      using sleep [of w1 wait_interval] that False Suc.prems by (auto simp: wait_interval_def)
    then show ?thesis
      by (intro wp_bindI [OF wp_select_later [OF False]]) (auto intro: Suc.IH)
  qed
  show ?case
    unfolding WaitForUnsealed.simps wp_bindE wp_tryE Let_def
    by (rule wp_weaken [OF polls]) (auto simp: wp_returnE intro!: again)
qed simp

text \<open>Under a server that answers within \<open>p\<close> and is ready from time \<open>t\<close> on, the wait succeeds.\<close>

lemma wp_wait_ready:
  assumes ready: "\<And>w. t \<le> ck_Now clk w \<Longrightarrow> wp (bao_SealStatus api client) (\<lambda>h _. bao_ready h) (\<lambda>_ _. False) w"
    and quick: "\<And>w. wp (bao_SealStatus api client) (\<lambda>_ w'. ck_Now clk w' \<le> ck_Now clk w + p) (\<lambda>_ w'. ck_Now clk w' \<le> ck_Now clk w + p) w"
    and enough: "t + p + wait_interval < d" and fuel: "d - ck_Now clk w < fuel * wait_interval"
  shows "wp (WaitForUnsealed fuel clk api (Some d) client) (\<lambda>_ w'. bao_ready (health w')) (\<lambda>_ _. False) w"
  using fuel
proof (induction fuel arbitrary: w)
  case (Suc fuel)
  show ?case
  proof (cases "t \<le> ck_Now clk w")
    case True
    show ?thesis
      unfolding WaitForUnsealed.simps wp_bindE wp_tryE Let_def
      by (rule wp_weaken [OF wp_conj [OF ready [OF True] polls]]) (auto simp: wp_returnE dest: not_ready)
  next
    case False
    have again: "wp (bindE (select_after clk (Some d) wait_interval) (\<lambda>elapsed.
        if elapsed then WaitForUnsealed fuel clk api (Some d) client else failE e))
        (\<lambda>_ w'. bao_ready (health w')) (\<lambda>_ _. False) w1"
      if "ck_Now clk w \<le> ck_Now clk w1" "ck_Now clk w1 \<le> ck_Now clk w + p" for e w1
    proof (rule wp_bindI [OF wp_select_later])
      show "\<not> d \<le> ck_Now clk w1 + wait_interval" using that False enough by simp
      then have "d - ck_Now clk (ck_Sleep clk wait_interval w1) < fuel * wait_interval"
        using sleep [of w1 wait_interval] that Suc.prems by (auto simp: wait_interval_def)
      then show "wp (if b then WaitForUnsealed fuel clk api (Some d) client else failE e)
          (\<lambda>_ w'. bao_ready (health w')) (\<lambda>_ _. False) w'"
        if "b \<and> w' = ck_Sleep clk wait_interval w1" for b w'
        using that Suc.IH by simp
    qed simp
    show ?thesis
      unfolding WaitForUnsealed.simps wp_bindE wp_tryE Let_def
      by (rule wp_weaken [OF wp_conj [OF quick polls]]) (auto simp: wp_returnE intro!: again)
  qed
qed simp

lemma wait_unsealed_fuel: "the (WithTimeout clk ctx budget w) - ck_Now clk w < wait_fuel budget * wait_interval"
  by (auto simp: WithTimeout_def Let_def wait_fuel_def wait_interval_def split: option.split)

end

lemma WithTimeout_Some: "WithTimeout clk ctx budget w = Some (the (WithTimeout clk ctx budget w))"
  by (simp add: WithTimeout_def Let_def)

lemma wp_wait_unsealed:
  "wp (WaitForUnsealed (wait_fuel budget) clk api (Some (the (WithTimeout clk ctx budget w))) client) Q E w
     \<Longrightarrow> wp (wait_unsealed clk api ctx budget client) Q E w"
  unfolding wait_unsealed_def wp_def WithTimeout_Some [symmetric] .

section \<open>An in-memory OpenBao\<close>

record fake_bao =
  fb_now :: nat
  fb_keys :: "string list"
  fb_deletable :: "string list"
  fb_policies :: "(string, string) go_map"
  fb_roles :: "string list"
  fb_tokens :: "string list"
  fb_wraps :: bool
  fb_secrets :: "string list"

text \<open>The server is unsealed from time \<open>ready\<close> on. A poll takes a second.\<close>

definition fake_clock :: "fake_bao clock" where
  "fake_clock = \<lparr>ck_Now = fb_now, ck_Sleep = (\<lambda>n w. w\<lparr>fb_now := fb_now w + n\<rparr>)\<rparr>"

definition fake_health :: "nat \<Rightarrow> fake_bao \<Rightarrow> bao_health" where
  "fake_health ready w = \<lparr>bh_Initialized = True, bh_Sealed = (fb_now w < ready)\<rparr>"

definition fake_SealStatus :: "nat \<Rightarrow> (fake_bao, bao_health) act" where
  "fake_SealStatus ready w = (let w' = w\<lparr>fb_now := fb_now w + 1\<rparr> in (Ok (fake_health ready w'), w'))"

definition bao_entry :: bao_secret where
  "bao_entry = \<lparr>sc_Data = Some [], sc_Auth = None, sc_WrapInfo = None\<rparr>"

definition bao_keys_entry :: "string list \<Rightarrow> bao_secret" where
  "bao_keys_entry names = \<lparr>sc_Data = Some [(''keys'', JStrs names)], sc_Auth = None, sc_WrapInfo = None\<rparr>"

text \<open>An accessor no token has: it is longer than all of them.\<close>

definition fake_accessor :: "string list \<Rightarrow> string" where
  "fake_accessor tokens = ''a'' @ concat tokens"

lemma fake_accessor_nonempty: "fake_accessor tokens \<noteq> []"
  by (simp add: fake_accessor_def)

lemma fake_accessor_new: "fake_accessor tokens \<notin> set tokens"
proof
  assume "fake_accessor tokens \<in> set tokens"
  then have "length (fake_accessor tokens) \<le> length (concat tokens)"
    unfolding length_concat by (intro member_le_sum_list) auto
  then show False by (simp add: fake_accessor_def)
qed

definition fake_Read :: "string \<Rightarrow> (fake_bao, bao_secret option) act" where
  "fake_Read path w =
     (case cut_prefix path ''transit/keys/'' of
        Some name \<Rightarrow> (Ok (if name \<in> set (fb_keys w) then Some bao_entry else None), w)
      | None \<Rightarrow> (Ok None, w))"

definition fake_create :: "bao_client \<Rightarrow> (fake_bao, bao_secret option) act" where
  "fake_create client w =
     (let a = fake_accessor (fb_tokens w); w' = w\<lparr>fb_tokens := a # fb_tokens w\<rparr> in
      (Ok (Some (if fb_wraps w \<and> bc_WrapTTL client \<noteq> []
         then \<lparr>sc_Data = None, sc_Auth = None, sc_WrapInfo = Some \<lparr>wr_Token = ''s.'' @ a, wr_WrappedAccessor = a\<rparr>\<rparr>
         else \<lparr>sc_Data = None, sc_Auth = Some \<lparr>au_ClientToken = ''s.'' @ a, au_Accessor = a\<rparr>, sc_WrapInfo = None\<rparr>)), w'))"

definition fake_Write :: "bao_client \<Rightarrow> string \<Rightarrow> (fake_bao, bao_secret option) act" where
  "fake_Write client path w =
     (case cut_prefix path ''transit/keys/'' of
        Some name \<Rightarrow>
          if has_suffix name ''/config'' then (Ok None, w\<lparr>fb_deletable := trim_suffix name ''/config'' # fb_deletable w\<rparr>)
          else (Ok None, w\<lparr>fb_keys := List.insert name (fb_keys w)\<rparr>)
      | None \<Rightarrow>
     (case cut_prefix path ''auth/token/roles/'' of
        Some name \<Rightarrow> (Ok None, w\<lparr>fb_roles := List.insert name (fb_roles w)\<rparr>)
      | None \<Rightarrow>
     (case cut_prefix path ''auth/token/create/'' of
        Some name \<Rightarrow> fake_create client w
      | None \<Rightarrow> (Ok None, w))))"

definition fake_Delete :: "string \<Rightarrow> (fake_bao, unit) act" where
  "fake_Delete path w =
     (case cut_prefix path ''transit/keys/'' of
        Some name \<Rightarrow>
          if name \<in> set (fb_deletable w) then (Ok (), w\<lparr>fb_keys := filter (\<lambda>k. k \<noteq> name) (fb_keys w)\<rparr>)
          else (Fail (Dep (ResponseError 400 [''deletion is not allowed for this key'']) ''400''), w)
      | None \<Rightarrow>
     (case cut_prefix path ''auth/token/roles/'' of
        Some name \<Rightarrow> (Ok (), w\<lparr>fb_roles := filter (\<lambda>k. k \<noteq> name) (fb_roles w)\<rparr>)
      | None \<Rightarrow> (Ok (), w)))"

text \<open>The entries of a folder of hilt's secrets: a path under it shows its next segment.\<close>

definition next_segment :: "string \<Rightarrow> string" where
  "next_segment s = takeWhile (\<lambda>c. c \<noteq> CHR ''/'') s @ (if CHR ''/'' \<in> set s then ''/'' else [])"

text \<open>A path as OpenBao keeps them: segments that are not empty, a slash between two.\<close>

definition kv_path :: "string \<Rightarrow> bool" where
  "kv_path p \<longleftrightarrow> p \<noteq> [] \<and> hd p \<noteq> CHR ''/'' \<and> last p \<noteq> CHR ''/'' \<and> \<not> contains p ''//''"

definition folder_entries :: "string list \<Rightarrow> string \<Rightarrow> string list" where
  "folder_entries paths folder = remdups (map next_segment (List.map_filter (\<lambda>p. cut_prefix p folder) paths))"

definition fake_List :: "string \<Rightarrow> (fake_bao, bao_secret option) act" where
  "fake_List path w =
     (if path = ''transit/keys'' then
        (Ok (if fb_keys w = [] then None else Some (bao_keys_entry (remdups (fb_keys w)))), w)
      else case cut_prefix path (HiltMount @ ''/metadata/'') of
        Some folder \<Rightarrow>
          (let names = folder_entries (filter kv_path (fb_secrets w)) folder in (Ok (if names = [] then None else Some (bao_keys_entry names)), w))
      | None \<Rightarrow> (Ok None, w))"

definition unknown_accessor :: go_error where
  "unknown_accessor = Dep (ResponseError 400 [''invalid accessor'']) ''400''"

definition fake_LookupAccessor :: "string \<Rightarrow> (fake_bao, bao_secret option) act" where
  "fake_LookupAccessor a w = (if a \<in> set (fb_tokens w) then Ok (Some bao_entry) else Fail unknown_accessor, w)"

definition fake_RevokeAccessor :: "string \<Rightarrow> (fake_bao, unit) act" where
  "fake_RevokeAccessor a w =
     (if a \<in> set (fb_tokens w) then (Ok (), w\<lparr>fb_tokens := filter (\<lambda>t. t \<noteq> a) (fb_tokens w)\<rparr>)
      else (Fail unknown_accessor, w))"

definition fake_bao_api :: "nat \<Rightarrow> fake_bao bao_api" where
  "fake_bao_api ready =
     \<lparr>bao_NewClient = (\<lambda>addr. returnE \<lparr>bc_Address = addr, bc_Token = [], bc_WrapTTL = []\<rparr>),
      bao_Clone = (\<lambda>c. returnE (c\<lparr>bc_Token := []\<rparr>)),
      bao_Read = (\<lambda>_. fake_Read), bao_List = (\<lambda>_. fake_List), bao_Write = (\<lambda>c path _. fake_Write c path),
      bao_Delete = (\<lambda>_. fake_Delete), bao_SealStatus = (\<lambda>_. fake_SealStatus ready), bao_InitStatus = (\<lambda>_. returnE True),
      bao_Init = (\<lambda>_ _ _. failE (Dep Untyped ''already initialised'')), bao_ListMounts = (\<lambda>_. returnE []),
      bao_Mount = (\<lambda>_ _ _ _. returnE ()), bao_ListAuth = (\<lambda>_. returnE []), bao_EnableAuth = (\<lambda>_ _ _. returnE ()),
      bao_PutPolicy = (\<lambda>_ name rules w. (Ok (), w\<lparr>fb_policies := AList.update name rules (fb_policies w)\<rparr>)),
      bao_DeletePolicy = (\<lambda>_ name w. (Ok (), w\<lparr>fb_policies := AList.delete name (fb_policies w)\<rparr>)),
      bao_LookupAccessor = (\<lambda>_. fake_LookupAccessor), bao_RevokeAccessor = (\<lambda>_. fake_RevokeAccessor),
      bao_DeleteMetadata = (\<lambda>_ _ path w. (Ok (), w\<lparr>fb_secrets := filter (\<lambda>p. p \<noteq> path) (fb_secrets w)\<rparr>))\<rparr>"

interpretation fake_bao: bao_waits fake_clock "fake_bao_api ready" "fake_health ready"
  by unfold_locales (simp_all add: fake_clock_def fake_bao_api_def fake_SealStatus_def wp_def Let_def)


definition test_bao :: fake_bao where
  "test_bao =
     \<lparr>fb_now = 100, fb_keys = [], fb_deletable = [], fb_policies = [], fb_roles = [], fb_tokens = [],
      fb_wraps = True, fb_secrets = []\<rparr>"

definition test_client :: bao_client where
  "test_client = \<lparr>bc_Address = ''http://bao'', bc_Token = [], bc_WrapTTL = []\<rparr>"


text \<open>
  C38. A wait does not give up too early: if the server is ready from some time on, answers every poll
  within \<open>p\<close> seconds, and that leaves more than a poll and an interval before the deadline, the wait
  succeeds.
\<close>

theorem wait_unsealed_succeeds:
  assumes "bao_waits clk api health"
    and "\<And>w. t \<le> ck_Now clk w \<Longrightarrow> wp (bao_SealStatus api client) (\<lambda>h _. bao_ready h) (\<lambda>_ _. False) w"
    and "\<And>w. wp (bao_SealStatus api client) (\<lambda>_ w'. ck_Now clk w' \<le> ck_Now clk w + p) (\<lambda>_ w'. ck_Now clk w' \<le> ck_Now clk w + p) w"
    and "t + p + wait_interval < the (WithTimeout clk ctx budget w)"
  shows "wp (wait_unsealed clk api ctx budget client) (\<lambda>_ w'. bao_ready (health w')) (\<lambda>_ _. False) w"
  by (rule wp_wait_unsealed)
    (rule bao_waits.wp_wait_ready [OF assms bao_waits.wait_unsealed_fuel [OF assms(1)]])

theorem wait_unsealed_succeeds_witness:
  "wp (wait_unsealed fake_clock (fake_bao_api 120) None openBaoUnsealBudget test_client)
      (\<lambda>_ w'. bao_ready (fake_health 120 w')) (\<lambda>_ _. False) test_bao"
proof (rule wait_unsealed_succeeds [OF fake_bao.bao_waits_axioms, where t = 120 and p = 1])
  show "120 + 1 + wait_interval < the (WithTimeout fake_clock None openBaoUnsealBudget test_bao)"
    by (simp add: WithTimeout_def fake_clock_def test_bao_def openBaoUnsealBudget_def wait_interval_def)
qed (simp_all add: test_bao_def fake_bao_api_def fake_SealStatus_def fake_clock_def fake_health_def wp_def Let_def)

section \<open>Keys, policies, roles and tokens\<close>

lemma wp_bind_sumI:
  "(\<And>e. r = Inl e \<Longrightarrow> E e w) \<Longrightarrow> (\<And>a. r = Inr a \<Longrightarrow> wp (f a) Q E w) \<Longrightarrow> wp (bindE (sumE r) f) Q E w"
  by (cases r) (simp_all add: wp_simps)

record bao_state =
  bs_keys :: "string set"
  bs_deletable :: "string set"
  bs_policies :: "string \<Rightarrow> string option"
  bs_roles :: "string set"
  bs_tokens :: "string set"

definition put_key :: "string \<Rightarrow> bao_state \<Rightarrow> bao_state" where
  "put_key n s = s\<lparr>bs_keys := insert n (bs_keys s)\<rparr>"

definition allow_key :: "string \<Rightarrow> bao_state \<Rightarrow> bao_state" where
  "allow_key n s = s\<lparr>bs_deletable := insert n (bs_deletable s)\<rparr>"

definition drop_key :: "string \<Rightarrow> bao_state \<Rightarrow> bao_state" where
  "drop_key n s = s\<lparr>bs_keys := bs_keys s - {n}\<rparr>"

definition set_policy :: "string \<Rightarrow> string option \<Rightarrow> bao_state \<Rightarrow> bao_state" where
  "set_policy n p s = s\<lparr>bs_policies := (bs_policies s)(n := p)\<rparr>"

definition add_role :: "string \<Rightarrow> bao_state \<Rightarrow> bao_state" where
  "add_role n s = s\<lparr>bs_roles := insert n (bs_roles s)\<rparr>"

definition drop_role :: "string \<Rightarrow> bao_state \<Rightarrow> bao_state" where
  "drop_role n s = s\<lparr>bs_roles := bs_roles s - {n}\<rparr>"

definition add_token :: "string \<Rightarrow> bao_state \<Rightarrow> bao_state" where
  "add_token a s = s\<lparr>bs_tokens := insert a (bs_tokens s)\<rparr>"

definition drop_token :: "string \<Rightarrow> bao_state \<Rightarrow> bao_state" where
  "drop_token a s = s\<lparr>bs_tokens := bs_tokens s - {a}\<rparr>"

lemmas bao_updates = put_key_def allow_key_def drop_key_def set_policy_def add_role_def drop_role_def
  add_token_def drop_token_def

text \<open>A call that makes one change, and may have made it when it fails.\<close>

definition bao_does ::
  "('w \<Rightarrow> bao_state) \<Rightarrow> ('w \<Rightarrow> 'r) \<Rightarrow> ('w, 'a) act \<Rightarrow> (bao_state \<Rightarrow> bao_state) \<Rightarrow> 'w \<Rightarrow> bool" where
  "bao_does bs rest m f w \<longleftrightarrow>
     wp m (\<lambda>_ w'. bs w' = f (bs w) \<and> rest w' = rest w)
       (\<lambda>_ w'. (bs w' = bs w \<or> bs w' = f (bs w)) \<and> rest w' = rest w) w"

text \<open>A call that reads.\<close>

definition bao_tells :: "('w \<Rightarrow> bao_state) \<Rightarrow> ('w \<Rightarrow> 'r) \<Rightarrow> ('w, 'a) act \<Rightarrow> ('a \<Rightarrow> bool) \<Rightarrow> 'w \<Rightarrow> bool" where
  "bao_tells bs rest m A w \<longleftrightarrow>
     wp m (\<lambda>a w'. A a \<and> bs w' = bs w \<and> rest w' = rest w) (\<lambda>_ w'. bs w' = bs w \<and> rest w' = rest w) w"

definition lists_keys :: "bao_secret option \<Rightarrow> string set \<Rightarrow> bool" where
  "lists_keys resp K \<longleftrightarrow>
     (case resp of
        None \<Rightarrow> K = {}
      | Some r \<Rightarrow> (\<exists>names. data_list r ''keys'' = Some (map JStr names) \<and> set names = K \<and> distinct names))"

text \<open>A region's label; with a slash in it, the path of its key would name something else.\<close>

definition region_label :: "string \<Rightarrow> bool" where
  "region_label r \<longleftrightarrow> r \<noteq> [] \<and> CHR ''/'' \<notin> set r"

lemma ApplianceKeyName_inject [simp]: "ApplianceKeyName r = ApplianceKeyName r' \<longleftrightarrow> r = r'"
  by (simp add: ApplianceKeyName_def)

text \<open>What giving these regions their keys and policies, or a part of it, has done.\<close>

definition ensured :: "string set \<Rightarrow> bao_state \<Rightarrow> bao_state \<Rightarrow> bool" where
  "ensured A s s' \<longleftrightarrow>
     bs_keys s \<subseteq> bs_keys s' \<and> bs_keys s' \<subseteq> bs_keys s \<union> ApplianceKeyName ` A
     \<and> (\<forall>n. n \<notin> ApplianceKeyName ` A \<longrightarrow> bs_policies s' n = bs_policies s n)
     \<and> bs_roles s' = bs_roles s \<and> bs_tokens s' = bs_tokens s"

lemma ensured_refl [simp]: "ensured A s s"
  by (simp add: ensured_def)

lemma ensured_trans: "ensured {r} s s1 \<Longrightarrow> ensured A s1 s' \<Longrightarrow> ensured (insert r A) s s'"
  unfolding ensured_def by (elim conjE, intro conjI) auto

lemma ensured_put: "ensured {r} s (set_policy (ApplianceKeyName r) p (put_key (ApplianceKeyName r) s))"
  by (auto simp: ensured_def set_policy_def put_key_def)

locale bao_server =
  fixes api :: "'w bao_api" and bs :: "'w \<Rightarrow> bao_state" and rest :: "'w \<Rightarrow> 'r"
  assumes list_keys: "bao_tells bs rest (bao_List api c ''transit/keys'') (\<lambda>resp. lists_keys resp (bs_keys (bs w))) w"
    and read_key: "region_label r \<Longrightarrow> bao_tells bs rest (bao_Read api c (transitKeyPath (ApplianceKeyName r)))
      (\<lambda>resp. resp \<noteq> None \<longleftrightarrow> ApplianceKeyName r \<in> bs_keys (bs w)) w"
    and create_key: "region_label r \<Longrightarrow> bao_does bs rest
      (bao_Write api c (transitKeyPath (ApplianceKeyName r)) [(''type'', JStr ''aes256-gcm96'')]) (put_key (ApplianceKeyName r)) w"
    and allow_deletion: "region_label r \<Longrightarrow> bao_does bs rest
      (bao_Write api c (transitKeyPath (ApplianceKeyName r) @ ''/config'') [(''deletion_allowed'', JBool True)])
      (allow_key (ApplianceKeyName r)) w"
    and delete_key: "region_label r \<Longrightarrow> ApplianceKeyName r \<in> bs_deletable (bs w) \<Longrightarrow>
      bao_does bs rest (bao_Delete api c (transitKeyPath (ApplianceKeyName r))) (drop_key (ApplianceKeyName r)) w"
    and put_policy: "bao_does bs rest (bao_PutPolicy api c n p) (set_policy n (Some p)) w"
    and delete_policy: "bao_does bs rest (bao_DeletePolicy api c n) (set_policy n None) w"
    and write_role: "region_label r \<Longrightarrow> at_Region cfg = r \<Longrightarrow> bao_does bs rest
      (bao_Write api c (applianceRolePath (ApplianceKeyName r)) (token_role cfg)) (add_role (ApplianceKeyName r)) w"
    and delete_role: "region_label r \<Longrightarrow>
      bao_does bs rest (bao_Delete api c (applianceRolePath (ApplianceKeyName r))) (drop_role (ApplianceKeyName r)) w"
    and lookup: "wp (bao_LookupAccessor api c a)
      (\<lambda>s w'. (s \<noteq> None \<longleftrightarrow> a \<in> bs_tokens (bs w)) \<and> bs w' = bs w \<and> rest w' = rest w)
      (\<lambda>e w'. (isUnknownAccessor e \<longrightarrow> a \<notin> bs_tokens (bs w)) \<and> bs w' = bs w \<and> rest w' = rest w) w"
    and revoke: "wp (bao_RevokeAccessor api c a)
      (\<lambda>_ w'. bs w' = drop_token a (bs w) \<and> rest w' = rest w)
      (\<lambda>e w'. (bs w' = bs w \<or> bs w' = drop_token a (bs w)) \<and> rest w' = rest w
         \<and> (isUnknownAccessor e \<longrightarrow> a \<notin> bs_tokens (bs w'))) w"
    and new_client: "bao_tells bs rest (bao_NewClient api addr) (\<lambda>_. True) w"
    and clone: "bao_tells bs rest (bao_Clone api c) (\<lambda>_. True) w"
    and mint: "bc_WrapTTL c \<noteq> [] \<Longrightarrow> region_label (at_Region cfg) \<Longrightarrow>
      wp (bao_Write api c (''auth/token/create/'' @ ApplianceKeyName (at_Region cfg)) (mint_request cfg))
      (\<lambda>resp w'. \<exists>a. a \<noteq> [] \<and> a \<notin> bs_tokens (bs w) \<and> bs w' = add_token a (bs w) \<and> rest w' = rest w
         \<and> (case resp of None \<Rightarrow> False | Some r \<Rightarrow>
              (case sc_WrapInfo r of Some i \<Rightarrow> wr_WrappedAccessor i = a | None \<Rightarrow> clear_accessor resp = a)))
      (\<lambda>_ w'. (bs w' = bs w \<or> (\<exists>a. bs w' = add_token a (bs w))) \<and> rest w' = rest w) w"
begin

lemma wp_revoke:
  "wp (RevokeTokenByAccessor api c a)
     (\<lambda>_ w'. bs w' = drop_token a (bs w) \<and> rest w' = rest w)
     (\<lambda>_ w'. (bs w' = bs w \<or> bs w' = drop_token a (bs w)) \<and> rest w' = rest w) w"
  unfolding RevokeTokenByAccessor_def wp_catchE
  by (rule wp_weaken [OF revoke]) (auto simp: wp_simps drop_token_def)

lemma appliance_labels_Cons:
  "appliance_labels (map JStr (name # names))
     = (case cut_prefix name AppliancePrefix of Some r \<Rightarrow> [r] | None \<Rightarrow> []) @ appliance_labels (map JStr names)"
  by (simp split: option.split)

lemma label_of_key: "ApplianceKeyName r = name \<longleftrightarrow> cut_prefix name AppliancePrefix = Some r"
  by (auto simp: ApplianceKeyName_def)

lemma set_appliance_labels: "set (appliance_labels (map JStr names)) = {r. ApplianceKeyName r \<in> set names}"
proof (induction names)
  case (Cons name names)
  have "{r. ApplianceKeyName r \<in> set (name # names)}
      = {r. cut_prefix name AppliancePrefix = Some r} \<union> {r. ApplianceKeyName r \<in> set names}"
    unfolding label_of_key [symmetric] by auto
  then show ?case
    unfolding appliance_labels_Cons set_append Cons.IH by (cases "cut_prefix name AppliancePrefix") simp_all
qed simp

lemma distinct_appliance_labels: "distinct names \<Longrightarrow> distinct (appliance_labels (map JStr names))"
proof (induction names)
  case (Cons name names)
  have "r \<notin> set (appliance_labels (map JStr names))" if "cut_prefix name AppliancePrefix = Some r" for r
    using that Cons.prems unfolding set_appliance_labels label_of_key [symmetric] by auto
  then show ?case
    unfolding appliance_labels_Cons using Cons by (cases "cut_prefix name AppliancePrefix") simp_all
qed simp

lemma listed_labels:
  assumes "lists_keys resp K"
  shows "set (case resp of None \<Rightarrow> [] | Some r \<Rightarrow> (case data_list r ''keys'' of None \<Rightarrow> [] | Some raw \<Rightarrow> sort (appliance_labels raw)))
      = {r. ApplianceKeyName r \<in> K}
    \<and> distinct (case resp of None \<Rightarrow> [] | Some r \<Rightarrow> (case data_list r ''keys'' of None \<Rightarrow> [] | Some raw \<Rightarrow> sort (appliance_labels raw)))"
proof (cases resp)
  case (Some r)
  then obtain names where "data_list r ''keys'' = Some (map JStr names)" "set names = K" "distinct names"
    using assms by (auto simp: lists_keys_def)
  then show ?thesis using Some by (simp add: set_appliance_labels distinct_appliance_labels)
qed (use assms in \<open>simp add: lists_keys_def\<close>)

lemma wp_ApplianceRegions:
  "wp (ApplianceRegions api c)
     (\<lambda>rs w'. set rs = {r. ApplianceKeyName r \<in> bs_keys (bs w)} \<and> distinct rs \<and> bs w' = bs w \<and> rest w' = rest w)
     (\<lambda>_ w'. bs w' = bs w \<and> rest w' = rest w) w"
  unfolding ApplianceRegions_def
proof (rule wp_bind_mapErr [OF list_keys [unfolded bao_tells_def]], goal_cases)
  case (2 resp w1)
  then have "lists_keys resp (bs_keys (bs w))" by blast
  from listed_labels [OF this] 2 show ?case unfolding wp_returnE by blast
qed blast

lemma wp_ensure_transit_key:
  assumes r: "region_label r"
  shows "wp (ensure_transit_key api c r created)
     (\<lambda>_ w'. bs w' = set_policy (ApplianceKeyName r) (Some (appliancePolicy (ApplianceKeyName r))) (put_key (ApplianceKeyName r) (bs w))
        \<and> rest w' = rest w)
     (\<lambda>_ w'. bs w' \<in> {bs w, put_key (ApplianceKeyName r) (bs w),
          set_policy (ApplianceKeyName r) (Some (appliancePolicy (ApplianceKeyName r))) (put_key (ApplianceKeyName r) (bs w))}
        \<and> rest w' = rest w) w"
  unfolding ensure_transit_key_def Let_def
proof (rule wp_bind_mapErr [OF read_key [OF r, unfolded bao_tells_def]], goal_cases)
  case (2 ex w1)
  let ?n = "ApplianceKeyName r"
  have made: "wp (case ex of
        None \<Rightarrow> thenE (mapErr g (bao_Write api c (transitKeyPath ?n) [(''type'', JStr ''aes256-gcm96'')])) (returnE (created @ [?n]))
      | Some _ \<Rightarrow> returnE created)
      (\<lambda>_ w'. bs w' = put_key ?n (bs w) \<and> rest w' = rest w)
      (\<lambda>_ w'. bs w' \<in> {bs w, put_key ?n (bs w)} \<and> rest w' = rest w) w1" for g
  proof (cases ex)
    case None
    then show ?thesis
      unfolding None option.case
      by (intro wp_then_mapErr [OF create_key [OF r, unfolded bao_does_def]]) (use 2 in \<open>auto simp: wp_returnE\<close>)
  next
    case (Some s)
    then have "put_key ?n (bs w) = bs w" using 2 by (simp add: put_key_def insert_absorb)
    then show ?thesis using 2 by (simp add: Some wp_returnE)
  qed
  show ?case
  proof (rule wp_bindI [OF made], goal_cases)
    case (1 created' w2)
    then show ?case
      by (intro wp_then_mapErr [OF put_policy [unfolded bao_does_def]]) (auto simp: wp_returnE)
  qed auto
qed auto

lemma wp_EnsureApplianceTransitKeys:
  assumes "list_all region_label rs"
  shows "wp (EnsureApplianceTransitKeys api c rs)
     (\<lambda>_ w'. ensured (set rs) (bs w) (bs w') \<and> rest w' = rest w
        \<and> (\<forall>r \<in> set rs. ApplianceKeyName r \<in> bs_keys (bs w')
              \<and> bs_policies (bs w') (ApplianceKeyName r) = Some (appliancePolicy (ApplianceKeyName r))))
     (\<lambda>_ w'. ensured (set rs) (bs w) (bs w') \<and> rest w' = rest w) w"
proof -
  have "wp (foldE (ensure_transit_key api c) rs created)
     (\<lambda>_ w'. ensured (set rs) (bs w) (bs w') \<and> rest w' = rest w
        \<and> (\<forall>r \<in> set rs. ApplianceKeyName r \<in> bs_keys (bs w')
              \<and> bs_policies (bs w') (ApplianceKeyName r) = Some (appliancePolicy (ApplianceKeyName r))))
     (\<lambda>_ w'. ensured (set rs) (bs w) (bs w') \<and> rest w' = rest w) w" for created
    using assms
  proof (induction rs arbitrary: created w)
    case (Cons r rs)
    let ?n = "ApplianceKeyName r" and ?p = "Some (appliancePolicy (ApplianceKeyName r))"
    have r: "region_label r" and rs: "list_all region_label rs" using Cons.prems by simp_all
    show ?case unfolding foldE.simps
    proof (rule wp_bindI [OF wp_ensure_transit_key [OF r]], goal_cases)
      case (1 created' w1)
      have one: "ensured {r} (bs w) (bs w1)" unfolding 1 [THEN conjunct1] by (rule ensured_put)
      have own: "?n \<in> bs_keys (bs w1)" "bs_policies (bs w1) ?n = ?p"
        unfolding 1 [THEN conjunct1] by (simp_all add: set_policy_def put_key_def)
      show ?case
      proof (rule wp_weaken [OF Cons.IH [OF rs]], goal_cases)
        case (1 _ w')
        then have more: "ensured (set rs) (bs w1) (bs w')" by blast
        have "?n \<in> bs_keys (bs w')" using own(1) more by (auto simp: ensured_def)
        moreover have "bs_policies (bs w') ?n = ?p"
        proof (cases "r \<in> set rs")
          case False
          then have "?n \<notin> ApplianceKeyName ` set rs" by auto
          then show ?thesis using own(2) more by (simp add: ensured_def)
        qed (use 1 in blast)
        moreover have "ensured (set (r # rs)) (bs w) (bs w')" using ensured_trans [OF one more] by simp
        ultimately show ?case using 1 \<open>_ \<and> rest w1 = rest w\<close> by simp
      next
        case (2 e w')
        then show ?case using ensured_trans [OF one] \<open>_ \<and> rest w1 = rest w\<close> by simp
      qed
    next
      case (2 e w1)
      have "ensured {r} (bs w) (put_key ?n (bs w))" by (auto simp: ensured_def put_key_def)
      then have "ensured {r} (bs w) (bs w1)" using 2 ensured_put by auto
      then have "ensured (set (r # rs)) (bs w) (bs w1)" using ensured_trans [OF _ ensured_refl] by simp
      then show ?case using 2 by blast
    qed
  qed (simp add: wp_simps)
  then show ?thesis unfolding EnsureApplianceTransitKeys_def .
qed

end

section \<open>The two services together\<close>

text \<open>A world with an SSM on the left and an OpenBao on the right.\<close>

definition snd_bao_api :: "'b bao_api \<Rightarrow> ('a \<times> 'b) bao_api" where
  "snd_bao_api api =
     \<lparr>bao_NewClient = (\<lambda>addr. on_snd (bao_NewClient api addr)), bao_Clone = (\<lambda>c. on_snd (bao_Clone api c)),
      bao_Read = (\<lambda>c p. on_snd (bao_Read api c p)), bao_List = (\<lambda>c p. on_snd (bao_List api c p)),
      bao_Write = (\<lambda>c p v. on_snd (bao_Write api c p v)), bao_Delete = (\<lambda>c p. on_snd (bao_Delete api c p)),
      bao_SealStatus = (\<lambda>c. on_snd (bao_SealStatus api c)), bao_InitStatus = (\<lambda>c. on_snd (bao_InitStatus api c)),
      bao_Init = (\<lambda>c n m. on_snd (bao_Init api c n m)), bao_ListMounts = (\<lambda>c. on_snd (bao_ListMounts api c)),
      bao_Mount = (\<lambda>c p t o'. on_snd (bao_Mount api c p t o')), bao_ListAuth = (\<lambda>c. on_snd (bao_ListAuth api c)),
      bao_EnableAuth = (\<lambda>c p t. on_snd (bao_EnableAuth api c p t)),
      bao_PutPolicy = (\<lambda>c n r. on_snd (bao_PutPolicy api c n r)),
      bao_DeletePolicy = (\<lambda>c n. on_snd (bao_DeletePolicy api c n)),
      bao_LookupAccessor = (\<lambda>c a. on_snd (bao_LookupAccessor api c a)),
      bao_RevokeAccessor = (\<lambda>c a. on_snd (bao_RevokeAccessor api c a)),
      bao_DeleteMetadata = (\<lambda>c m p. on_snd (bao_DeleteMetadata api c m p))\<rparr>"

definition fake_view :: "fake_bao \<Rightarrow> bao_state" where
  "fake_view w =
     \<lparr>bs_keys = set (fb_keys w), bs_deletable = set (fb_deletable w), bs_policies = map_of (fb_policies w),
      bs_roles = set (fb_roles w), bs_tokens = set (fb_tokens w)\<rparr>"

lemma region_key_plain:
  assumes "region_label r"
  shows "\<not> has_suffix (ApplianceKeyName r) ''/config''"
proof
  assume "has_suffix (ApplianceKeyName r) ''/config''"
  then have "CHR ''/'' \<in> set (ApplianceKeyName r)" by (auto simp: suffix_def)
  then show False using assms by (auto simp: region_label_def ApplianceKeyName_def AppliancePrefix_def)
qed

lemmas fake_paths = transitKeyPath_def TransitMount_def applianceRolePath_def cut_prefix_None

lemma has_suffix_append: "has_suffix (n @ s) s"
  by (simp add: suffix_def)

lemma fake_calls:
  "fake_Read (transitKeyPath n) = (\<lambda>w. (Ok (if n \<in> set (fb_keys w) then Some bao_entry else None), w))"
  "fake_Write c (transitKeyPath n @ ''/config'') = (\<lambda>w. (Ok None, w\<lparr>fb_deletable := n # fb_deletable w\<rparr>))"
  "fake_Write c (applianceRolePath n) = (\<lambda>w. (Ok None, w\<lparr>fb_roles := List.insert n (fb_roles w)\<rparr>))"
  "fake_Write c (''auth/token/create/'' @ n) = fake_create c"
  "fake_Delete (applianceRolePath n) = (\<lambda>w. (Ok (), w\<lparr>fb_roles := filter (\<lambda>k. k \<noteq> n) (fb_roles w)\<rparr>))"
  "fake_Delete (transitKeyPath n) w =
     (if n \<in> set (fb_deletable w) then (Ok (), w\<lparr>fb_keys := filter (\<lambda>k. k \<noteq> n) (fb_keys w)\<rparr>)
      else (Fail (Dep (ResponseError 400 [''deletion is not allowed for this key'']) ''400''), w))"
  by (simp_all add: fun_eq_iff fake_paths fake_Read_def fake_Write_def fake_Delete_def cut_prefix_def trim_suffix_def
      has_suffix_append)

lemma fake_create_key:
  "region_label r \<Longrightarrow> fake_Write c (transitKeyPath (ApplianceKeyName r))
     = (\<lambda>w. (Ok None, w\<lparr>fb_keys := List.insert (ApplianceKeyName r) (fb_keys w)\<rparr>))"
  using region_key_plain [of r]
  by (simp add: fun_eq_iff fake_paths fake_Write_def cut_prefix_def)

lemma JStrs_keys: "lists_keys (Some (bao_keys_entry names)) K \<longleftrightarrow> set names = K \<and> distinct names"
proof -
  have "map JStr names = map JStr names' \<longleftrightarrow> names = names'" for names'
    by (rule inj_map_eq_map) (simp add: inj_def)
  then show ?thesis by (simp add: lists_keys_def data_list_def bao_keys_entry_def JStrs_def)
qed

lemma isUnknownAccessor_unknown: "isUnknownAccessor unknown_accessor"
  by (simp add: isUnknownAccessor_def unknown_accessor_def)

lemma fake_mint: "bao_Write (snd_bao_api (fake_bao_api ready)) c (''auth/token/create/'' @ n) v = on_snd (fake_create c)"
  unfolding snd_bao_api_def fake_bao_api_def bao_api.select_convs fake_calls(4) ..

lemmas bao_laws = bao_does_def bao_tells_def wp_def snd_bao_api_def fake_bao_api_def on_snd_def Let_def returnE_def
  fake_view_def bao_updates

lemma set_filter_neq: "{x \<in> set xs. x \<noteq> n} = set xs - {n}"
  by auto

interpretation fake_server: bao_server "snd_bao_api (fake_bao_api ready)" "\<lambda>w. fake_view (snd w)" "\<lambda>w. fake_held (fst w)"
proof (unfold_locales, goal_cases)
  case (1 c w)
  then show ?case by (simp add: bao_laws fake_List_def JStrs_keys) (simp add: lists_keys_def)
next
  case (2 r c w)
  then show ?case by (simp add: bao_laws fake_calls set_filter_neq)
next
  case (3 r c w)
  then show ?case by (simp add: bao_laws fake_create_key)
next
  case (4 r c w)
  then show ?case by (simp add: bao_laws fake_calls set_filter_neq)
next
  case (5 r w c)
  then show ?case by (simp add: bao_laws fake_calls set_filter_neq)
next
  case (6 c n p w)
  then show ?case by (simp add: bao_laws update_conv')
next
  case (7 c n w)
  then show ?case by (simp add: bao_laws delete_conv')
next
  case (8 r cfg c w)
  then show ?case by (simp add: bao_laws fake_calls set_filter_neq)
next
  case (9 r c w)
  then show ?case by (simp add: bao_laws fake_calls set_filter_neq)
next
  case (10 c a w)
  then show ?case by (simp add: bao_laws fake_LookupAccessor_def isUnknownAccessor_unknown)
next
  case (11 c a w)
  then show ?case by (simp add: bao_laws fake_RevokeAccessor_def set_filter_neq isUnknownAccessor_unknown)
next
  case (12 addr w)
  then show ?case by (simp add: bao_laws)
next
  case (13 c w)
  then show ?case by (simp add: bao_laws)
next
  case (14 c cfg w)
  have new: "fake_accessor (fb_tokens b) \<noteq> []" "fake_accessor (fb_tokens b) \<notin> set (fb_tokens b)" for b
    by (rule fake_accessor_nonempty fake_accessor_new)+
  show ?case unfolding fake_mint
    by (rule wpI) (use new in \<open>auto simp: bao_laws fake_create_def clear_accessor_def intro!: exI [of _ "fake_accessor _"]\<close>)
qed

end
