(* ===== verification/Appliances.thy ===== *)
theory Appliances
imports BaoServer Config
begin

text \<open>
  What the vault phase does with the appliances' transit keys and the appliance-token phase with their
  tokens, on an OpenBao beside an SSM (\<open>vault_stage\<close>).
\<close>

section \<open>Retiring regions\<close>

type_synonym ssm_table = "string \<Rightarrow> string option"

definition region_params :: "'w deps \<Rightarrow> string \<Rightarrow> string set" where
  "region_params d r = range (Path (dp_store d) (applianceService r))"

definition recorded_accessor :: "'w deps \<Rightarrow> string \<Rightarrow> ssm_table \<Rightarrow> string option" where
  "recorded_accessor d r T = T (Path (dp_store d) (applianceService r) unsealTokenAccessorKey)"

text \<open>Nothing is left of the region but, perhaps, its key: no policy, no role, no recorded token alive, no parameter.\<close>

definition region_gone :: "'w deps \<Rightarrow> string \<Rightarrow> ssm_table \<Rightarrow> bao_state \<Rightarrow> ssm_table \<Rightarrow> bool" where
  "region_gone d r T0 s T \<longleftrightarrow>
     bs_policies s (ApplianceKeyName r) = None \<and> ApplianceKeyName r \<notin> bs_roles s
     \<and> (\<forall>a. recorded_accessor d r T0 = Some a \<longrightarrow> a \<notin> bs_tokens s) \<and> (\<forall>p \<in> region_params d r. T p = None)"

text \<open>
  What retiring these regions, or a part of it, has done: only their keys, policies, roles, recorded
  tokens and parameters may be gone, and a region whose key is gone is gone altogether.
\<close>

definition retiring ::
  "'w deps \<Rightarrow> string set \<Rightarrow> bao_state \<Rightarrow> ssm_table \<Rightarrow> bao_state \<Rightarrow> ssm_table \<Rightarrow> bool" where
  "retiring d R s T s' T' \<longleftrightarrow>
     bs_keys s' \<subseteq> bs_keys s \<and> bs_keys s - ApplianceKeyName ` R \<subseteq> bs_keys s'
     \<and> bs_policies s' \<subseteq>\<^sub>m bs_policies s \<and> (\<forall>n. n \<notin> ApplianceKeyName ` R \<longrightarrow> bs_policies s' n = bs_policies s n)
     \<and> bs_roles s' \<subseteq> bs_roles s \<and> bs_roles s - ApplianceKeyName ` R \<subseteq> bs_roles s'
     \<and> bs_tokens s' \<subseteq> bs_tokens s \<and> (\<forall>a \<in> bs_tokens s. a \<notin> bs_tokens s' \<longrightarrow> (\<exists>r\<in>R. recorded_accessor d r T = Some a))
     \<and> T' \<subseteq>\<^sub>m T \<and> (\<forall>p. p \<notin> \<Union> (region_params d ` R) \<longrightarrow> T' p = T p)
     \<and> (\<forall>r\<in>R. ApplianceKeyName r \<in> bs_keys s \<longrightarrow> ApplianceKeyName r \<notin> bs_keys s' \<longrightarrow> region_gone d r T s' T')"

lemma retiringD:
  assumes "retiring d R s T s' T'"
  shows "bs_keys s' \<subseteq> bs_keys s" "bs_keys s - ApplianceKeyName ` R \<subseteq> bs_keys s'"
    and "bs_policies s' \<subseteq>\<^sub>m bs_policies s" "n \<notin> ApplianceKeyName ` R \<Longrightarrow> bs_policies s' n = bs_policies s n"
    and "bs_roles s' \<subseteq> bs_roles s" "bs_roles s - ApplianceKeyName ` R \<subseteq> bs_roles s'"
    and "bs_tokens s' \<subseteq> bs_tokens s"
    and "a \<in> bs_tokens s \<Longrightarrow> a \<notin> bs_tokens s' \<Longrightarrow> \<exists>r\<in>R. recorded_accessor d r T = Some a"
    and "T' \<subseteq>\<^sub>m T" "p \<notin> \<Union> (region_params d ` R) \<Longrightarrow> T' p = T p"
    and "r \<in> R \<Longrightarrow> ApplianceKeyName r \<in> bs_keys s \<Longrightarrow> ApplianceKeyName r \<notin> bs_keys s' \<Longrightarrow> region_gone d r T s' T'"
  using assms unfolding retiring_def by (elim conjE, assumption | blast)+

lemma region_params_disjoint:
  assumes "region_label r" "region_label r'" "r \<noteq> r'"
  shows "region_params d r \<inter> region_params d r' = {}"
  using Path_inject_region [of r r' "dp_store d" "''appliance''"] assms
  by (auto simp: region_params_def applianceService_def region_label_def)

lemma recorded_accessor_outside:
  assumes "region_label r" "region_label r'" "r \<noteq> r'" "\<And>p. p \<notin> region_params d r' \<Longrightarrow> T' p = T p"
  shows "recorded_accessor d r T' = recorded_accessor d r T"
proof -
  have "Path (dp_store d) (applianceService r) unsealTokenAccessorKey \<in> region_params d r"
    by (simp add: region_params_def)
  then show ?thesis
    using region_params_disjoint [OF assms(1-3), of d] assms(4) unfolding recorded_accessor_def by blast
qed

lemma retiring_refl [simp]: "retiring d R s T s T"
  by (simp add: retiring_def)

lemma region_gone_mono:
  assumes "region_gone d r T0 s T" "bs_policies s' \<subseteq>\<^sub>m bs_policies s" "bs_roles s' \<subseteq> bs_roles s"
    and "bs_tokens s' \<subseteq> bs_tokens s" "T' \<subseteq>\<^sub>m T"
  shows "region_gone d r T0 s' T'"
  using assms unfolding region_gone_def by (blast dest: map_le_None)

text \<open>One region after another.\<close>

lemma retiring_trans:
  assumes 1: "retiring d {r} s T s1 T1" and 2: "retiring d R s1 T1 s' T'"
    and labels: "region_label r" "\<forall>r'\<in>R. region_label r'" "r \<notin> R"
  shows "retiring d (insert r R) s T s' T'"
proof -
  note d1 = retiringD [OF 1] and d2 = retiringD [OF 2]
  have same: "recorded_accessor d r' T1 = recorded_accessor d r' T" if "r' \<in> R" for r'
    by (rule recorded_accessor_outside [where r' = r]) (use d1(10) labels that in auto)
  have gone: "region_gone d r' T s' T'"
    if "r' \<in> insert r R" "ApplianceKeyName r' \<in> bs_keys s" "ApplianceKeyName r' \<notin> bs_keys s'" for r'
  proof (cases "r' = r")
    case True
    have "ApplianceKeyName r \<notin> ApplianceKeyName ` R" using labels(3) by auto
    then have "ApplianceKeyName r \<notin> bs_keys s1" using that(3) d2(2) True by blast
    then have "region_gone d r T s1 T1" using d1(11) that(2) True by blast
    then show ?thesis using True d2(3,5,7,9) by (blast intro: region_gone_mono)
  next
    case False
    then have "r' \<in> R" "ApplianceKeyName r' \<in> bs_keys s1" using that(1,2) d1(2) by auto
    then have "region_gone d r' T1 s' T'" using d2(11) that(3) by blast
    then show ?thesis using same [OF \<open>r' \<in> R\<close>] by (simp add: region_gone_def)
  qed
  have tokens: "\<exists>r'\<in>insert r R. recorded_accessor d r' T = Some a" if "a \<in> bs_tokens s" "a \<notin> bs_tokens s'" for a
  proof (cases "a \<in> bs_tokens s1")
    case True
    then show ?thesis using d2(8) that(2) same by fastforce
  next
    case False
    then show ?thesis using d1(8) that(1) by blast
  qed
  have "bs_keys s - ApplianceKeyName ` insert r R \<subseteq> bs_keys s'" using d1(2) d2(2) by auto
  moreover have "bs_roles s - ApplianceKeyName ` insert r R \<subseteq> bs_roles s'" using d1(6) d2(6) by auto
  moreover have "bs_policies s' \<subseteq>\<^sub>m bs_policies s" using d2(3) d1(3) by (rule map_le_trans)
  moreover have "T' \<subseteq>\<^sub>m T" using d2(9) d1(9) by (rule map_le_trans)
  moreover have "n \<notin> ApplianceKeyName ` insert r R \<Longrightarrow> bs_policies s' n = bs_policies s n" for n
    using d1(4) d2(4) by simp
  moreover have "p \<notin> \<Union> (region_params d ` insert r R) \<Longrightarrow> T' p = T p" for p
    using d1(10) d2(10) by simp
  moreover have "bs_keys s' \<subseteq> bs_keys s" "bs_roles s' \<subseteq> bs_roles s" "bs_tokens s' \<subseteq> bs_tokens s"
    using d1(1,5,7) d2(1,5,7) by blast+
  ultimately show ?thesis
    unfolding retiring_def using gone tokens by (intro conjI ballI allI impI) simp_all
qed

text \<open>Each call of a retirement, one after the other.\<close>

lemma retiring_less:
  assumes R: "retiring d {r} s T s1 T1"
    and keys: "bs_keys s2 = bs_keys s1 \<or> bs_keys s2 = bs_keys s1 - {ApplianceKeyName r} \<and> region_gone d r T s2 T2"
    and pol: "bs_policies s2 \<subseteq>\<^sub>m bs_policies s1" "\<And>n. n \<noteq> ApplianceKeyName r \<Longrightarrow> bs_policies s2 n = bs_policies s1 n"
    and roles: "bs_roles s2 \<subseteq> bs_roles s1" "bs_roles s1 - {ApplianceKeyName r} \<subseteq> bs_roles s2"
    and tokens: "bs_tokens s2 \<subseteq> bs_tokens s1"
      "\<And>a. a \<in> bs_tokens s1 \<Longrightarrow> a \<notin> bs_tokens s2 \<Longrightarrow> recorded_accessor d r T = Some a"
    and params: "T2 \<subseteq>\<^sub>m T1" "\<And>p. p \<notin> region_params d r \<Longrightarrow> T2 p = T1 p"
  shows "retiring d {r} s T s2 T2"
proof -
  note R = retiringD [OF R]
  have "region_gone d r T s2 T2" if "ApplianceKeyName r \<in> bs_keys s" "ApplianceKeyName r \<notin> bs_keys s2"
  proof (cases "ApplianceKeyName r \<in> bs_keys s1")
    case True
    then show ?thesis using keys that by blast
  next
    case False
    then have "region_gone d r T s1 T1" using R(11) that by blast
    then show ?thesis by (rule region_gone_mono [OF _ pol(1) roles(1) tokens(1) params(1)])
  qed
  moreover have "bs_policies s2 \<subseteq>\<^sub>m bs_policies s" by (rule map_le_trans [OF pol(1) R(3)])
  moreover have "T2 \<subseteq>\<^sub>m T" by (rule map_le_trans [OF params(1) R(9)])
  moreover have "bs_keys s2 \<subseteq> bs_keys s" "bs_keys s - {ApplianceKeyName r} \<subseteq> bs_keys s2" using keys R(1,2) by auto
  moreover have "bs_roles s2 \<subseteq> bs_roles s" "bs_roles s - {ApplianceKeyName r} \<subseteq> bs_roles s2" using roles R(5,6) by auto
  moreover have "bs_tokens s2 \<subseteq> bs_tokens s" using tokens R(7) by auto
  moreover have "recorded_accessor d r T = Some a" if "a \<in> bs_tokens s" "a \<notin> bs_tokens s2" for a
    using tokens(2) R(8) that by blast
  ultimately show ?thesis unfolding retiring_def using pol(2) R(4) params(2) R(10) by simp
qed

lemma retiring_drop_token:
  "retiring d {r} s T s1 T1 \<Longrightarrow> recorded_accessor d r T = Some a \<Longrightarrow> retiring d {r} s T (drop_token a s1) T1"
  by (erule retiring_less) (auto simp: drop_token_def)

lemma retiring_drop_role:
  "retiring d {r} s T s1 T1 \<Longrightarrow> retiring d {r} s T (drop_role (ApplianceKeyName r) s1) T1"
  by (erule retiring_less) (auto simp: drop_role_def)

lemma retiring_drop_policy:
  "retiring d {r} s T s1 T1 \<Longrightarrow> retiring d {r} s T (set_policy (ApplianceKeyName r) None s1) T1"
  by (erule retiring_less) (auto simp: set_policy_def map_le_def)

lemma retiring_allow_key: "retiring d {r} s T s1 T1 \<Longrightarrow> retiring d {r} s T (allow_key n s1) T1"
  by (erule retiring_less) (auto simp: allow_key_def)

lemma region_gone_drop_key: "region_gone d r T (drop_key n s) T1 \<longleftrightarrow> region_gone d r T s T1"
  by (simp add: region_gone_def drop_key_def)

lemma retiring_drop_key:
  assumes "retiring d {r} s T s1 T1" "region_gone d r T s1 T1"
  shows "retiring d {r} s T (drop_key (ApplianceKeyName r) s1) T1"
proof -
  have "region_gone d r T (drop_key (ApplianceKeyName r) s1) T1" using assms(2) by (simp add: region_gone_drop_key)
  with assms(1) show ?thesis by (rule_tac retiring_less) (auto simp: drop_key_def)
qed

lemma retiring_restrict:
  assumes "retiring d {r} s T s1 T1" "S \<subseteq> region_params d r"
  shows "retiring d {r} s T s1 (T1 |` (- S))"
  using assms(1) by (rule retiring_less) (use assms(2) in \<open>auto simp: map_le_def restrict_map_def\<close>)

lemmas retiring_calls = retiring_refl retiring_drop_token retiring_drop_role retiring_drop_policy retiring_allow_key
  retiring_drop_key retiring_restrict

locale vault_stage =
  ssm: ssm_service papi params pages + bao: bao_server api bs params
  for papi :: "'w ssm_api" and params :: "'w \<Rightarrow> string \<Rightarrow> string option" and pages
    and api :: "'w bao_api" and bs +
  fixes d :: "'w deps" and fuel :: nat
  assumes client: "ssm_client (dp_store d) = papi"
    and pages_bounded: "length (pages T path None) \<le> fuel"
    and get_apart: "keeps (\<lambda>w w'. bs w' = bs w) (GetParameter papi p dec)"
    and put_apart: "keeps (\<lambda>w w'. bs w' = bs w) (PutParameter papi p v t ow)"
    and list_apart: "keeps (\<lambda>w w'. bs w' = bs w) (GetParametersByPath papi p tok)"
    and delete_apart: "keeps (\<lambda>w w'. bs w' = bs w) (DeleteParameters papi ns)"
begin

lemma wp_read:
  "wp (ssm_get (dp_store d) p dec) (\<lambda>v w'. v = params w p \<and> params w' = params w \<and> bs w' = bs w)
     (\<lambda>_ w'. params w' = params w \<and> bs w' = bs w) w"
proof -
  have "keeps (\<lambda>w w'. bs w' = bs w) (ssm_get (dp_store d) p dec)"
    by (rule keeps_ssm_get) (auto simp: client get_apart)
  moreover have "wp (ssm_get (dp_store d) p dec) (\<lambda>v w'. v = params w p \<and> params w' = params w) (\<lambda>_ w'. params w' = params w) w"
    by (rule ssm.wp_ssm_get_frame [OF client]) auto
  ultimately show ?thesis by (rule wp_weaken [OF wp_keeps]) auto
qed

lemma wp_LookupPublic:
  "wp (LookupPublic (dp_store d) service name)
     (\<lambda>v w'. v = params w (Path (dp_store d) service name) \<and> params w' = params w \<and> bs w' = bs w)
     (\<lambda>_ w'. params w' = params w \<and> bs w' = bs w) w"
  unfolding LookupPublic_def by (rule wp_read)

lemma wp_GetSecret:
  "wp (GetSecret (dp_store d) service name) (\<lambda>_ w'. params w' = params w \<and> bs w' = bs w)
     (\<lambda>_ w'. params w' = params w \<and> bs w' = bs w) w"
  unfolding GetSecret_def by (rule wp_bindI [OF wp_read]) (auto simp: wp_simps split: option.split)

lemma wp_PutPublic:
  "wp (PutPublic (dp_store d) service name v)
     (\<lambda>_ w'. params w' = (params w)(Path (dp_store d) service name \<mapsto> v) \<and> bs w' = bs w)
     (\<lambda>_ w'. (params w' = params w \<or> params w' = (params w)(Path (dp_store d) service name \<mapsto> v)) \<and> bs w' = bs w) w"
proof -
  have "keeps (\<lambda>w w'. bs w' = bs w) (PutPublic (dp_store d) service name v)"
    unfolding PutPublic_def by (rule keeps_ssm_put) (auto simp: client put_apart)
  moreover have "wp (PutPublic (dp_store d) service name v)
     (\<lambda>_ w'. params w' = (params w)(Path (dp_store d) service name \<mapsto> v))
     (\<lambda>_ w'. params w' = params w \<or> params w' = (params w)(Path (dp_store d) service name \<mapsto> v)) w"
    unfolding PutPublic_def by (rule ssm.wp_ssm_put [OF client]) auto
  ultimately show ?thesis by (rule wp_weaken [OF wp_keeps]) auto
qed

lemma under_region:
  assumes "region_label r"
  shows "under_path (Prefix (dp_store d) (applianceService r)) p \<longleftrightarrow> p \<in> region_params d r"
proof -
  have "last (applianceService r) \<noteq> CHR ''/''"
    using assms by (auto simp: applianceService_def region_label_def last_append dest: last_in_set)
  from under_Prefix_iff [OF _ this] show ?thesis
    by (auto simp: applianceService_def region_params_def)
qed

lemma wp_DeletePrefix_region:
  assumes r: "region_label r"
  shows "wp (DeletePrefix fuel (dp_store d) (applianceService r))
     (\<lambda>_ w'. params w' = params w |` (- region_params d r) \<and> bs w' = bs w)
     (\<lambda>_ w'. (\<exists>S \<subseteq> region_params d r. params w' = params w |` (- S)) \<and> bs w' = bs w) w"
proof -
  have "keeps (\<lambda>w w'. bs w' = bs w) (DeletePrefix fuel (dp_store d) (applianceService r))"
    unfolding DeletePrefix_def Let_def delete_batches_def
    by (auto intro!: keeps_intros keeps_params_by_path simp: client list_apart delete_apart)
  moreover have "wp (DeletePrefix fuel (dp_store d) (applianceService r))
     (\<lambda>_ w'. params w' = params w |` (- region_params d r))
     (\<lambda>_ w'. \<exists>S \<subseteq> region_params d r. params w' = params w |` (- S)) w"
  proof (rule ssm.wp_DeletePrefix [OF client pages_bounded], goal_cases)
    case (1 names w')
    then have "set names = {n \<in> dom (params w). n \<in> region_params d r}" using under_region [OF r] by auto
    with 1 show ?case by (auto simp: restrict_map_def fun_eq_iff domIff)
  next
    case (2 e S w')
    then show ?case using under_region [OF r] by blast
  qed
  ultimately show ?thesis by (rule wp_weaken [OF wp_keeps]) auto
qed

lemma wp_retireAppliance:
  assumes r: "region_label r"
  shows "wp (retireAppliance fuel api d c r)
     (\<lambda>_ w'. retiring d {r} (bs w) (params w) (bs w') (params w') \<and> ApplianceKeyName r \<notin> bs_keys (bs w')
        \<and> region_gone d r (params w) (bs w') (params w'))
     (\<lambda>_ w'. retiring d {r} (bs w) (params w) (bs w') (params w')) w"
  unfolding retireAppliance_def Let_def
proof (rule wp_bindI [OF wp_LookupPublic], goal_cases)
  case (1 found w1)
  let ?n = "ApplianceKeyName r" and ?R = "retiring d {r} (bs w) (params w)"
  let ?unrecorded = "\<lambda>s. \<forall>a. recorded_accessor d r (params w) = Some a \<longrightarrow> a \<notin> bs_tokens s"
  have found: "found = recorded_accessor d r (params w)" "params w1 = params w" "bs w1 = bs w"
    using 1 by (simp_all add: recorded_accessor_def)
  have revoked: "wp (case found of None \<Rightarrow> returnE () | Some a \<Rightarrow> RevokeTokenByAccessor api c a)
     (\<lambda>_ w'. ?R (bs w') (params w') \<and> ?unrecorded (bs w')) (\<lambda>_ w'. ?R (bs w') (params w')) w1"
  proof (cases found)
    case (Some a)
    have "recorded_accessor d r (params w) = Some a" using found(1) Some by simp
    then have "?R (drop_token a (bs w)) (params w)" "?unrecorded (drop_token a (bs w))"
      by (simp_all add: retiring_drop_token) (simp add: drop_token_def)
    then show ?thesis
      unfolding Some option.case using found(2,3) by (intro wp_weaken [OF bao.wp_revoke]) auto
  qed (use found in \<open>simp add: wp_simps\<close>)
  have key: "wp (RemoveApplianceTransitKey api c r)
     (\<lambda>_ w'. ?R (bs w') (params w') \<and> ?n \<notin> bs_keys (bs w') \<and> region_gone d r (params w) (bs w') (params w'))
     (\<lambda>_ w'. ?R (bs w') (params w')) w4"
    if R: "?R (bs w4) (params w4)" and un: "?unrecorded (bs w4)" and role: "?n \<notin> bs_roles (bs w4)"
      and ps: "\<forall>p \<in> region_params d r. params w4 p = None" for w4
  proof -
    let ?s5 = "set_policy ?n None (bs w4)"
    have gone: "region_gone d r (params w) (allow_key ?n ?s5) (params w4)"
      using un role ps by (simp add: region_gone_def set_policy_def allow_key_def)
    have R5: "?R ?s5 (params w4)" and R6: "?R (allow_key ?n ?s5) (params w4)"
      using R by (simp_all add: retiring_drop_policy retiring_allow_key)
    have R7: "?R (drop_key ?n (allow_key ?n ?s5)) (params w4)" using R6 gone by (rule retiring_drop_key)
    have deleted: "?n \<notin> bs_keys (drop_key ?n (allow_key ?n ?s5))" by (simp add: drop_key_def)
    show ?thesis unfolding RemoveApplianceTransitKey_def Let_def
    proof (rule wp_then_mapErr [OF bao.delete_policy [unfolded bao_does_def]], goal_cases)
      case (2 _ w5)
      then have 5: "bs w5 = ?s5" "params w5 = params w4" by simp_all
      show ?case
      proof (rule wp_then_mapErr [OF bao.allow_deletion [OF r, unfolded bao_does_def]], goal_cases)
        case (2 _ w6)
        then have 6: "bs w6 = allow_key ?n ?s5" "params w6 = params w4" using 5 by simp_all
        then have "?n \<in> bs_deletable (bs w6)" by (simp add: allow_key_def)
        from bao.delete_key [OF r this, unfolded bao_does_def] show ?case
          unfolding wp_mapErr by (rule wp_weaken) (use 6 R6 R7 gone deleted in \<open>auto simp: region_gone_drop_key\<close>)
      qed (use 5 R5 R6 in auto)
    qed (use R R5 in auto)
  qed
  show ?case
  proof (rule wp_thenI [OF revoked], goal_cases)
    case (1 _ w2)
    then have R2: "?R (bs w2) (params w2)" and un2: "?unrecorded (bs w2)" by blast+
    let ?s3 = "drop_role ?n (bs w2)"
    have R3: "?R ?s3 (params w2)" using R2 by (rule retiring_drop_role)
    show ?case unfolding RemoveApplianceTokenRole_def Let_def
    proof (rule wp_then_mapErr [OF bao.delete_role [OF r, unfolded bao_does_def]], goal_cases)
      case (2 _ w3)
      then have 3: "bs w3 = ?s3" "params w3 = params w2" by simp_all
      show ?case
      proof (rule wp_thenI [OF wp_DeletePrefix_region [OF r]], goal_cases)
        case (1 _ w4)
        then have 4: "bs w4 = ?s3" "params w4 = params w2 |` (- region_params d r)" using 3 by simp_all
        show ?case
        proof (rule key)
          show "?R (bs w4) (params w4)" unfolding 4 by (rule retiring_restrict [OF R3 order_refl])
          show "?unrecorded (bs w4)" using un2 unfolding 4 by (simp add: drop_role_def)
        qed (simp_all add: 4 drop_role_def)
      next
        case (2 e w4)
        then show ?case using 3 R3 retiring_restrict by auto
      qed
    qed (use R2 R3 in auto)
  qed simp
qed simp

lemma wp_retire_each:
  assumes "list_all region_label rs" "distinct rs"
  shows "wp (retire_each fuel api d c rs resp)
     (\<lambda>resp' w'. resp' = resp\<lparr>rs_RetiredAppliances := rs_RetiredAppliances resp @ rs\<rparr>
        \<and> retiring d (set rs) (bs w) (params w) (bs w') (params w') \<and> ApplianceKeyName ` set rs \<inter> bs_keys (bs w') = {}
        \<and> (\<forall>r \<in> set rs. region_gone d r (params w) (bs w') (params w')))
     (\<lambda>_ w'. retiring d (set rs) (bs w) (params w) (bs w') (params w')) w"
  using assms
proof (induction rs arbitrary: resp w)
  case (Cons r rs)
  let ?next = "resp\<lparr>rs_RetiredAppliances := rs_RetiredAppliances resp @ [r]\<rparr>"
  have r: "region_label r" "r \<notin> set rs" and rs: "list_all region_label rs" "distinct rs"
    and labels: "\<forall>r'\<in>set rs. region_label r'"
    using Cons.prems by (simp_all add: list_all_iff)
  have step: "retire_each fuel api d c (r # rs) resp
      = thenE (retireAppliance fuel api d c r) (retire_each fuel api d c rs ?next)"
    by (simp add: retire_each_def thenE_def bindE_assoc)
  show ?case unfolding step
  proof (rule wp_thenI [OF wp_retireAppliance [OF r(1)]], goal_cases)
    case (1 _ w1)
    then have one: "retiring d {r} (bs w) (params w) (bs w1) (params w1)" and gone: "ApplianceKeyName r \<notin> bs_keys (bs w1)"
      "region_gone d r (params w) (bs w1) (params w1)" by blast+
    show ?case
    proof (rule wp_weaken [OF Cons.IH [OF rs]], goal_cases)
      case (1 resp' w')
      then have rest: "retiring d (set rs) (bs w1) (params w1) (bs w') (params w')" by blast
      have all: "retiring d (set (r # rs)) (bs w) (params w) (bs w') (params w')"
        using retiring_trans [OF one rest r(1) labels r(2)] by simp
      have "region_gone d r (params w) (bs w') (params w')"
        using gone(2) retiringD(3,5,7,9) [OF rest] by (blast intro: region_gone_mono)
      moreover have "recorded_accessor d r' (params w1) = recorded_accessor d r' (params w)" if "r' \<in> set rs" for r'
        by (rule recorded_accessor_outside [where r' = r]) (use retiringD(10) [OF one] labels r that in auto)
      then have "\<forall>r' \<in> set rs. region_gone d r' (params w) (bs w') (params w')"
        using 1 by (simp add: region_gone_def)
      moreover have "ApplianceKeyName ` set (r # rs) \<inter> bs_keys (bs w') = {}"
        using 1 gone(1) retiringD(1) [OF rest] by auto
      moreover have "resp' = resp\<lparr>rs_RetiredAppliances := rs_RetiredAppliances resp @ r # rs\<rparr>" using 1 by simp
      ultimately show ?case using all by simp
    next
      case (2 e w')
      then show ?case using retiring_trans [OF one _ r(1) labels r(2)] by simp
    qed
  next
    case (2 e w')
    then have "retiring d (set (r # rs)) (bs w) (params w) (bs w') (params w')"
      using retiring_trans [OF _ retiring_refl r(1) labels r(2)] by simp
    then show ?case .
  qed
qed (simp add: retire_each_def wp_simps)

end

text \<open>
  The plan, stated apart from how it is computed: it exists exactly when no region is in both lists and
  every region with a key is in one; it removes the keys of the retired ones.
\<close>

lemma PlanApplianceKeys_Inr:
  "PlanApplianceKeys existing active retired = Inr plan \<longleftrightarrow>
     set active \<inter> set retired = {} \<and> set existing \<subseteq> set active \<union> set retired
     \<and> plan = \<lparr>ap_Active = active, ap_Remove = filter (\<lambda>r. r \<in> set retired) existing\<rparr>"
proof -
  have "filter (\<lambda>r. r \<notin> set active \<and> r \<in> set retired) existing = filter (\<lambda>r. r \<in> set retired) existing"
    if "set active \<inter> set retired = {}" using that by (intro filter_cong) auto
  moreover have "filter (\<lambda>r. r \<in> set retired) active = [] \<longleftrightarrow> set active \<inter> set retired = {}"
    by (auto simp: filter_empty_conv)
  moreover have "filter (\<lambda>r. r \<notin> set active \<and> r \<notin> set retired) existing = []
      \<longleftrightarrow> set existing \<subseteq> set active \<union> set retired"
    by (auto simp: filter_empty_conv)
  ultimately show ?thesis unfolding PlanApplianceKeys_def Let_def by auto
qed

definition existing_regions :: "bao_state \<Rightarrow> string set" where
  "existing_regions s = {r. ApplianceKeyName r \<in> bs_keys s}"

text \<open>What a run of the reconciliation, finished or not, may have done.\<close>

definition reconciling ::
  "'w deps \<Rightarrow> string set \<Rightarrow> string set \<Rightarrow> bao_state \<Rightarrow> ssm_table \<Rightarrow> bao_state \<Rightarrow> ssm_table \<Rightarrow> bool" where
  "reconciling d A R s T s' T' \<longleftrightarrow>
     existing_regions s - R \<subseteq> existing_regions s' \<and> existing_regions s' \<subseteq> existing_regions s \<union> A
     \<and> (\<forall>n. n \<notin> range ApplianceKeyName \<longrightarrow> (n \<in> bs_keys s' \<longleftrightarrow> n \<in> bs_keys s))
     \<and> (\<forall>n. n \<notin> ApplianceKeyName ` (A \<union> R) \<longrightarrow> bs_policies s' n = bs_policies s n)
     \<and> (\<forall>a \<in> bs_tokens s - bs_tokens s'. \<exists>r\<in>R. recorded_accessor d r T = Some a) \<and> bs_tokens s' \<subseteq> bs_tokens s
     \<and> T' \<subseteq>\<^sub>m T \<and> (\<forall>p. p \<notin> \<Union> (region_params d ` R) \<longrightarrow> T' p = T p)
     \<and> (\<forall>r \<in> existing_regions s - existing_regions s'. region_gone d r T s' T')"

lemma ensured_then_retiring:
  assumes 1: "ensured A s s1" and 2: "retiring d X s1 T s' T'"
    and X: "X \<subseteq> R" "A \<inter> R = {}" "X \<subseteq> existing_regions s"
  shows "reconciling d A R s T s' T'"
proof -
  note two = retiringD [OF 2]
  have keys: "bs_keys s \<subseteq> bs_keys s1" "bs_keys s1 \<subseteq> bs_keys s \<union> ApplianceKeyName ` A"
    and pol: "\<And>n. n \<notin> ApplianceKeyName ` A \<Longrightarrow> bs_policies s1 n = bs_policies s n"
    and tok: "bs_tokens s1 = bs_tokens s" and roles: "bs_roles s1 = bs_roles s"
    using 1 unfolding ensured_def by blast+
  have gone: "region_gone d r T s' T'" if "r \<in> existing_regions s - existing_regions s'" for r
  proof -
    have k: "ApplianceKeyName r \<in> bs_keys s1" "ApplianceKeyName r \<notin> bs_keys s'"
      using that keys(1) by (auto simp: existing_regions_def)
    then have "r \<in> X" using two(2) by auto
    then show ?thesis using two(11) k by blast
  qed
  have "ApplianceKeyName r \<in> bs_keys s'" if "ApplianceKeyName r \<in> bs_keys s" "r \<notin> R" for r
  proof -
    have "ApplianceKeyName r \<notin> ApplianceKeyName ` X" using X(1) that(2) by auto
    then show ?thesis using keys(1) two(2) that(1) by blast
  qed
  then have "existing_regions s - R \<subseteq> existing_regions s'" by (auto simp: existing_regions_def)
  moreover have "existing_regions s' \<subseteq> existing_regions s \<union> A"
    using keys(2) two(1) by (auto simp: existing_regions_def)
  moreover have "n \<in> bs_keys s' \<longleftrightarrow> n \<in> bs_keys s" if "n \<notin> range ApplianceKeyName" for n
    using keys two(1,2) that by auto
  moreover have "bs_policies s' n = bs_policies s n" if "n \<notin> ApplianceKeyName ` (A \<union> R)" for n
    using two(4) pol X(1) that by (metis Un_iff image_Un image_mono subsetD)
  moreover have "\<exists>r\<in>R. recorded_accessor d r T = Some a" if "a \<in> bs_tokens s - bs_tokens s'" for a
    using two(8) tok that X(1) by blast
  moreover have "T' p = T p" if "p \<notin> \<Union> (region_params d ` R)" for p
    using two(10) that X(1) by blast
  ultimately show ?thesis unfolding reconciling_def using two(7,9) tok gone by simp
qed

lemma reconciling_refl [simp]: "reconciling d A R s T s T"
  by (auto simp: reconciling_def)

definition accounted :: "string list \<Rightarrow> string list \<Rightarrow> bao_state \<Rightarrow> bool" where
  "accounted active retired s \<longleftrightarrow>
     set active \<inter> set retired = {} \<and> existing_regions s \<subseteq> set active \<union> set retired"

definition reconciled :: "string list \<Rightarrow> string list \<Rightarrow> response \<Rightarrow> response \<Rightarrow> bao_state \<Rightarrow> bao_state \<Rightarrow> bool" where
  "reconciled active retired resp resp' s s' \<longleftrightarrow>
     existing_regions s' = set active
     \<and> (\<forall>r \<in> set active. bs_policies s' (ApplianceKeyName r) = Some (appliancePolicy (ApplianceKeyName r)))
     \<and> set (rs_RetiredAppliances resp') = set (rs_RetiredAppliances resp) \<union> (existing_regions s \<inter> set retired)
     \<and> rs_ApplianceKeys resp' = rs_ApplianceKeys resp @ map ApplianceKeyName active"

context vault_stage
begin

lemma wp_apply_plan:
  assumes labels: "list_all region_label A" "list_all region_label X" "distinct X"
    and X: "set X = existing_regions (bs w) \<inter> set R" and acc: "accounted A R (bs w)"
  shows "wp (bindE (EnsureApplianceTransitKeys api c A) (\<lambda>created.
        let resp = resp\<lparr>rs_Created := rs_Created resp @ map (\<lambda>name. ''openbao:transit/keys/'' @ name) created\<rparr> in
        bindE (retire_each fuel api d c X resp) (\<lambda>resp.
        returnE (resp\<lparr>rs_ApplianceKeys := rs_ApplianceKeys resp @ map ApplianceKeyName A\<rparr>))))
      (\<lambda>resp' w'. reconciled A R resp resp' (bs w) (bs w')
        \<and> reconciling d (set A) (set R) (bs w) (params w) (bs w') (params w'))
      (\<lambda>_ w'. reconciling d (set A) (set R) (bs w) (params w) (bs w') (params w')) w"
proof (rule wp_bindI [OF bao.wp_EnsureApplianceTransitKeys [OF labels(1)]], goal_cases)
  case (1 created w1)
  then have one: "ensured (set A) (bs w) (bs w1)" and own: "\<And>r. r \<in> set A \<Longrightarrow> ApplianceKeyName r \<in> bs_keys (bs w1)
      \<and> bs_policies (bs w1) (ApplianceKeyName r) = Some (appliancePolicy (ApplianceKeyName r))"
    and w1: "params w1 = params w" by blast+
  have disj: "set A \<inter> set R = {}" and cover: "existing_regions (bs w) \<subseteq> set A \<union> set R"
    using acc by (simp_all add: accounted_def)
  have part: "reconciling d (set A) (set R) (bs w) (params w) s' T'"
    if "retiring d (set X) (bs w1) (params w1) s' T'" for s' T'
    using ensured_then_retiring [OF one that _ disj] X w1 by simp
  show ?case unfolding Let_def
  proof (rule wp_bindI [OF wp_retire_each [OF labels(2,3)]], goal_cases)
    case (1 resp1 w')
    then have two: "retiring d (set X) (bs w1) (params w1) (bs w') (params w')"
      and dropped: "ApplianceKeyName ` set X \<inter> bs_keys (bs w') = {}" by blast+
    have live: "ApplianceKeyName r \<in> bs_keys (bs w')
        \<and> bs_policies (bs w') (ApplianceKeyName r) = Some (appliancePolicy (ApplianceKeyName r))" if "r \<in> set A" for r
    proof -
      have "ApplianceKeyName r \<notin> ApplianceKeyName ` set X" using that X disj by auto
      then show ?thesis using own [OF that] retiringD(2,4) [OF two] by auto
    qed
    have "existing_regions (bs w') \<subseteq> set A"
    proof
      fix r assume r: "r \<in> existing_regions (bs w')"
      then have "r \<in> existing_regions (bs w) \<union> set A" "r \<notin> set X"
        using part [OF two] dropped by (auto simp: reconciling_def existing_regions_def)
      then show "r \<in> set A" using X cover by blast
    qed
    then have "existing_regions (bs w') = set A" using live by (auto simp: existing_regions_def)
    then have "reconciled A R resp (resp1\<lparr>rs_ApplianceKeys := rs_ApplianceKeys resp1 @ map ApplianceKeyName A\<rparr>) (bs w) (bs w')"
      using live X 1 by (simp add: reconciled_def)
    then show ?case using part [OF two] by (simp add: wp_returnE)
  next
    case (2 e w')
    then show ?case by (rule part)
  qed
next
  case (2 e w')
  then have one: "ensured (set A) (bs w) (bs w')" and w': "params w' = params w" by blast+
  have "set A \<inter> set R = {}" using acc by (simp add: accounted_def)
  with ensured_then_retiring [OF one retiring_refl [of d "{}"]] show ?case unfolding w' by simp
qed

lemma wp_reconcileApplianceKeys:
  assumes labels: "list_all region_label (rq_ApplianceRegions req)" "list_all region_label (rq_RetiredApplianceRegions req)"
  defines "A \<equiv> rq_ApplianceRegions req" and "R \<equiv> rq_RetiredApplianceRegions req"
  shows "wp (reconcileApplianceKeys fuel api d c req resp)
     (\<lambda>resp' w'. accounted A R (bs w) \<and> reconciled A R resp resp' (bs w) (bs w')
        \<and> reconciling d (set A) (set R) (bs w) (params w) (bs w') (params w'))
     (\<lambda>_ w'. reconciling d (set A) (set R) (bs w) (params w) (bs w') (params w')
        \<and> (\<not> accounted A R (bs w) \<longrightarrow> bs w' = bs w \<and> params w' = params w)) w"
  unfolding reconcileApplianceKeys_def A_def [symmetric] R_def [symmetric]
proof (rule wp_bindI [OF bao.wp_ApplianceRegions], goal_cases)
  case (1 existing w1)
  then have ex: "set existing = existing_regions (bs w)" "distinct existing" and w1: "bs w1 = bs w" "params w1 = params w"
    by (simp_all add: existing_regions_def)
  show ?case
  proof (rule wp_bind_sumI, goal_cases)
    case (1 err)
    then have "\<not> accounted A R (bs w)"
      using PlanApplianceKeys_Inr [of existing A R] ex by (auto simp: accounted_def)
    then show ?case using w1 by simp
  next
    case (2 plan)
    let ?X = "filter (\<lambda>r. r \<in> set R) existing"
    have acc: "accounted A R (bs w1)" and plan: "ap_Active plan = A" "ap_Remove plan = ?X"
      using 2 ex w1 unfolding PlanApplianceKeys_Inr by (simp_all add: accounted_def)
    have X: "list_all region_label ?X" "distinct ?X" "set ?X = existing_regions (bs w1) \<inter> set R"
      using labels ex w1 by (auto simp: list_all_iff R_def)
    show ?case unfolding plan
      by (rule wp_weaken [OF wp_apply_plan [OF labels(1) [folded A_def] X acc]]) (use acc w1 in auto)
  qed
qed simp

end

section \<open>Minting unseal tokens\<close>

text \<open>
  What a run of the appliance-token phase, finished or not, may have done: at most one token is new, the
  only one that may be gone is the region's recorded one, and then the record names a live one.
\<close>

definition token_safe :: "'w deps \<Rightarrow> string \<Rightarrow> bao_state \<Rightarrow> ssm_table \<Rightarrow> bao_state \<Rightarrow> ssm_table \<Rightarrow> bool" where
  "token_safe d r s T s' T' \<longleftrightarrow>
     bs_keys s' = bs_keys s \<and> bs_policies s' = bs_policies s
     \<and> (\<exists>a. bs_tokens s' \<subseteq> insert a (bs_tokens s))
     \<and> (\<forall>b \<in> bs_tokens s - bs_tokens s'. recorded_accessor d r T = Some b
          \<and> (\<exists>a \<in> bs_tokens s'. recorded_accessor d r T' = Some a))
     \<and> (\<forall>p. p \<noteq> Path (dp_store d) (applianceService r) unsealTokenAccessorKey \<longrightarrow> T' p = T p)"

definition token_record :: "'w deps \<Rightarrow> string \<Rightarrow> string \<Rightarrow> ssm_table \<Rightarrow> ssm_table" where
  "token_record d r a T = T(Path (dp_store d) (applianceService r) unsealTokenAccessorKey \<mapsto> a)"

text \<open>What a run that minted leaves: the new token is live, on record and handed out, and the one before is not live.\<close>

definition token_handed :: "'v deps \<Rightarrow> string \<Rightarrow> response \<Rightarrow> bao_state \<Rightarrow> ssm_table \<Rightarrow> bao_state \<Rightarrow> ssm_table \<Rightarrow> bool" where
  "token_handed d r resp s T s' T' \<longleftrightarrow>
     (case rs_TokenResult resp of
        None \<Rightarrow> False
      | Some tr \<Rightarrow>
          tr_Accessor tr \<notin> bs_tokens s \<and> recorded_accessor d r T' = Some (tr_Accessor tr)
          \<and> bs_tokens s' = insert (tr_Accessor tr) (bs_tokens s - set_option (recorded_accessor d r T)))"

text \<open>A token is only replaced when the request says so.\<close>

definition may_mint :: "'w deps \<Rightarrow> provision_request \<Rightarrow> bao_state \<Rightarrow> ssm_table \<Rightarrow> bool" where
  "may_mint d req s T \<longleftrightarrow>
     rq_Confirm req \<and> (rq_Reissue req \<or> bs_tokens s \<inter> set_option (recorded_accessor d (rq_Region req) T) = {})"

lemma recorded_token_record [simp]: "recorded_accessor d r (token_record d r a T) = Some a"
  by (simp add: recorded_accessor_def token_record_def)

lemma token_safe_role [simp]: "token_safe d r s T (add_role n s) T" "token_safe d r s T s T"
  by (auto simp: token_safe_def add_role_def)

lemma token_safe_minted:
  assumes "T' = T \<or> T' = token_record d r a T" "bs_keys s' = bs_keys s" "bs_policies s' = bs_policies s"
    and "bs_tokens s \<subseteq> bs_tokens s'" "bs_tokens s' \<subseteq> insert a (bs_tokens s)"
  shows "token_safe d r s T s' T'"
  using assms unfolding token_safe_def token_record_def by auto

lemma token_safe_reissued:
  assumes "bs_keys s' = bs_keys s" "bs_policies s' = bs_policies s" "recorded_accessor d r T = Some b" "a \<noteq> b"
    and "bs_tokens s' = insert a (bs_tokens s) \<or> bs_tokens s' = insert a (bs_tokens s) - {b}"
  shows "token_safe d r s T s' (token_record d r a T)"
  using assms unfolding token_safe_def by (auto simp: token_record_def recorded_accessor_def)

context vault_stage
begin

lemma wp_TokenLive:
  "wp (TokenLive api c a) (\<lambda>live w'. live = (a \<in> bs_tokens (bs w)) \<and> bs w' = bs w \<and> params w' = params w)
     (\<lambda>_ w'. bs w' = bs w \<and> params w' = params w) w"
  unfolding TokenLive_def wp_bindE wp_tryE
  by (rule wp_weaken [OF bao.lookup]) (auto simp: wp_simps)

lemma wp_plan:
  fixes w :: 'w and req :: provision_request
  defines "rec \<equiv> recorded_accessor d (rq_Region req) (params w)"
  assumes r: "region_label (rq_Region req)"
  shows "wp (planApplianceToken api parse d c req)
     (\<lambda>plan w'. bs w' = bs w \<and> params w' = params w
        \<and> tp_Action plan = (case rec of None \<Rightarrow> tokenActionMint | Some b \<Rightarrow> decideTokenAction (b \<in> bs_tokens (bs w)) (rq_Reissue req))
        \<and> (\<forall>b. rec = Some b \<longrightarrow> tp_Accessor plan = b))
     (\<lambda>_ w'. bs w' = bs w \<and> params w' = params w) w"
proof -
  have path: "''transit/keys/'' @ ApplianceKeyName (rq_Region req) = transitKeyPath (ApplianceKeyName (rq_Region req))"
    by (simp add: transitKeyPath_def TransitMount_def)
  show ?thesis unfolding planApplianceToken_def Let_def path
  proof (rule wp_bind_mapErr [OF bao.read_key [OF r, unfolded bao_tells_def]], goal_cases)
    case (2 key w1)
    let ?plan = "\<lparr>tp_Region = rq_Region req, tp_Action = tokenActionMint, tp_Accessor = [], tp_TokenLive = False,
       tp_NodeCIDR = rq_NodeCIDR req, tp_Period = valueOr (rq_Period req) defaultTokenPeriod,
       tp_WrapTTL = valueOr (rq_WrapTTL req) defaultWrapTTL\<rparr>"
    have found: "params w1 (Path (dp_store d) (applianceService (rq_Region req)) unsealTokenAccessorKey) = rec"
      using 2 by (simp add: rec_def recorded_accessor_def)
    have live: "wp (TokenLive api c a)
        (\<lambda>live w'. bs w' = bs w \<and> params w' = params w \<and> live = (a \<in> bs_tokens (bs w)))
        (\<lambda>_ w'. bs w' = bs w \<and> params w' = params w) w2" if "bs w2 = bs w" "params w2 = params w" for a w2
      by (rule wp_weaken [OF wp_TokenLive]) (use that in auto)
    let ?found = "bindE (LookupPublic (dp_store d) (applianceService (rq_Region req)) unsealTokenAccessorKey) (\<lambda>found.
        case found of None \<Rightarrow> returnE ?plan
        | Some a \<Rightarrow> bindE (TokenLive api c a) (\<lambda>live. returnE (?plan\<lparr>tp_Accessor := a, tp_TokenLive := live,
            tp_Action := decideTokenAction live (rq_Reissue req)\<rparr>)))"
    let ?Q = "\<lambda>plan w'. bs w' = bs w \<and> params w' = params w
        \<and> tp_Action plan = (case rec of None \<Rightarrow> tokenActionMint | Some b \<Rightarrow> decideTokenAction (b \<in> bs_tokens (bs w)) (rq_Reissue req))
        \<and> (\<forall>b. rec = Some b \<longrightarrow> tp_Accessor plan = b)"
    let ?E = "\<lambda>_ w'. bs w' = bs w \<and> params w' = params w"
    have read: "wp ?found ?Q ?E w1"
    proof (rule wp_bindI [OF wp_LookupPublic], goal_cases)
      case (1 found' w2)
      then have same: "found' = rec" "bs w2 = bs w" "params w2 = params w" using 2 found by simp_all
      show ?case
      proof (cases rec)
        case None
        then show ?thesis using same by (simp add: wp_simps)
      next
        case (Some a)
        then show ?thesis using same(1)
          by (simp only: option.case) (rule wp_bindI [OF live [OF same(2,3)]], auto simp: wp_simps)
      qed
    qed (use 2 in simp)
    show ?case
    proof (rule wp_ifI)
      show "wp (case validateTokenDurations parse ?plan of Some err \<Rightarrow> failE err | None \<Rightarrow> ?found) ?Q ?E w1"
        if "key \<noteq> None"
        using read 2 by (cases "validateTokenDurations parse ?plan") (simp_all only: option.case wp_failE)
    qed (use 2 in \<open>simp add: wp_failE\<close>)
  qed simp
qed

lemma wp_record:
  fixes w :: 'w
  assumes "path = Path (dp_store d) service unsealTokenAccessorKey"
  shows "wp (recordMintedAccessor api c (PutPublic (dp_store d)) service a)
     (\<lambda>_ w'. params w' = (params w)(path \<mapsto> a) \<and> bs w' = bs w)
     (\<lambda>_ w'. (params w' = params w \<or> params w' = (params w)(path \<mapsto> a)) \<and> (bs w' = bs w \<or> bs w' = drop_token a (bs w))) w"
  unfolding recordMintedAccessor_def wp_catchE
proof (rule wp_weaken [OF wp_PutPublic], goal_cases)
  case (2 e w1)
  show ?case unfolding wp_bindE wp_tryE
    by (rule wp_weaken [OF bao.wp_revoke]) (use 2 assms in \<open>auto simp: wp_simps\<close>)
qed (use assms in simp)

lemma wp_MintToken:
  fixes w :: 'w
  assumes r: "region_label (at_Region cfg)"
  shows "wp (MintApplianceToken api c cfg ttl)
     (\<lambda>(_, a) w'. a \<notin> bs_tokens (bs w) \<and> bs w' = add_token a (bs w) \<and> params w' = params w)
     (\<lambda>_ w'. (bs w' = bs w \<or> (\<exists>a. bs w' = add_token a (bs w))) \<and> params w' = params w) w"
proof -
  let ?Q = "\<lambda>(_ :: string, a) w'. a \<notin> bs_tokens (bs w) \<and> bs w' = add_token a (bs w) \<and> params w' = params w"
  let ?E = "\<lambda>_ w'. (bs w' = bs w \<or> (\<exists>a. bs w' = add_token a (bs w))) \<and> params w' = params w"
  have refused: "wp (refuseUnwrappedToken api c (at_Region cfg) resp) ?Q ?E w1"
    if w1: "bs w1 = add_token a (bs w)" "a \<notin> bs_tokens (bs w)" "params w1 = params w" and acc: "clear_accessor resp = a"
    for resp w1 a
  proof -
    have undone: "drop_token a (bs w1) = bs w" using w1 by (simp add: drop_token_def add_token_def)
    show ?thesis unfolding refuseUnwrappedToken_def Let_def acc
    proof (rule wp_ifI)
      show "wp (bindE (tryE (RevokeTokenByAccessor api c a)) (\<lambda>res. case res of
          Inl err \<Rightarrow> failE (Wrapf2 [] (g resp) (h resp) err []) | Inr _ \<Rightarrow> failE (g resp))) ?Q ?E w1" for g h
        unfolding wp_bindE wp_tryE by (rule wp_weaken [OF bao.wp_revoke]) (use w1 undone in \<open>auto simp: wp_simps\<close>)
    qed (use w1 in \<open>auto simp: wp_failE\<close>)
  qed
  show ?thesis unfolding MintApplianceToken_def Let_def
  proof (rule wp_ifI)
    assume ttl: "\<not> ttl = []"
    show "wp (bindE (mapErr (wrap ''clone the openbao client: '') (bao_Clone api c)) (\<lambda>clone.
         bindE (mapErr (wrap (''mint the '' @ at_Region cfg @ '' unseal token: ''))
             (bao_Write api (clone\<lparr>bc_Token := bc_Token c, bc_WrapTTL := ttl\<rparr>)
                (''auth/token/create/'' @ ApplianceKeyName (at_Region cfg)) (mint_request cfg))) (\<lambda>resp.
          case (case resp of None \<Rightarrow> None | Some r \<Rightarrow> sc_WrapInfo r) of
            None \<Rightarrow> refuseUnwrappedToken api c (at_Region cfg) resp
          | Some info \<Rightarrow> returnE (wr_Token info, wr_WrappedAccessor info)))) ?Q ?E w"
    proof (rule wp_bind_mapErr [OF bao.clone [unfolded bao_tells_def]], goal_cases)
      case (2 clone w1)
      show ?case
      proof (rule wp_bind_mapErr [OF bao.mint [OF _ r]], goal_cases)
        case (3 resp w2)
        then obtain a where a: "a \<notin> bs_tokens (bs w)" "bs w2 = add_token a (bs w)" "params w2 = params w"
          and resp: "case resp of None \<Rightarrow> False | Some r \<Rightarrow>
              (case sc_WrapInfo r of Some i \<Rightarrow> wr_WrappedAccessor i = a | None \<Rightarrow> clear_accessor resp = a)"
          using 2 by auto
        then obtain s where s: "resp = Some s" by (cases resp) auto
        show ?case
        proof (cases "sc_WrapInfo s")
          case None
          then show ?thesis using refused [OF a(2,1,3)] resp s by simp
        next
          case (Some i)
          then show ?thesis using a resp s by (simp add: wp_returnE)
        qed
      qed (use ttl 2 in auto)
    qed auto
  qed (simp add: wp_failE)
qed

lemma wp_token_role:
  fixes w :: 'w
  assumes "region_label (at_Region cfg)"
  shows "wp (EnsureApplianceTokenRole api c cfg)
     (\<lambda>_ w'. bs w' = add_role (ApplianceKeyName (at_Region cfg)) (bs w) \<and> params w' = params w)
     (\<lambda>_ w'. (bs w' = bs w \<or> bs w' = add_role (ApplianceKeyName (at_Region cfg)) (bs w)) \<and> params w' = params w) w"
  unfolding EnsureApplianceTokenRole_def Let_def
  by (rule wp_ifI, simp add: wp_failE)
    (rule wp_then_mapErr [OF bao.write_role [OF assms refl, unfolded bao_does_def]], simp_all add: wp_returnE)

lemma wp_mintApplianceToken:
  fixes w :: 'w and req :: provision_request
  defines "r \<equiv> rq_Region req"
  assumes r: "region_label r"
    and action: "tp_Action plan = tokenActionReissue \<and> recorded_accessor d r (params w) = Some (tp_Accessor plan)
          \<and> tp_Accessor plan \<in> bs_tokens (bs w)
       \<or> tp_Action plan = tokenActionMint \<and> bs_tokens (bs w) \<inter> set_option (recorded_accessor d r (params w)) = {}"
  shows "wp (mintApplianceToken api d c req plan)
     (\<lambda>resp w'. token_handed d r resp (bs w) (params w) (bs w') (params w') \<and> token_safe d r (bs w) (params w) (bs w') (params w'))
     (\<lambda>_ w'. token_safe d r (bs w) (params w) (bs w') (params w')) w"
  unfolding mintApplianceToken_def Let_def r_def [symmetric]
proof (rule wp_thenI [OF wp_token_role], goal_cases)
  case (2 _ w1)
  let ?s1 = "add_role (ApplianceKeyName r) (bs w)" and ?T = "params w"
  have w1: "bs w1 = ?s1" "params w1 = ?T" using 2 by simp_all
  show ?case
  proof (rule wp_bindI [OF wp_MintToken], goal_cases)
    case (2 minted w2)
    obtain t a where minted: "minted = (t, a)" by (cases minted)
    have a: "a \<notin> bs_tokens (bs w)" and w2: "bs w2 = add_token a ?s1" "params w2 = ?T"
      using 2 w1 minted by (simp_all add: add_role_def)
    have safe: "token_safe d r (bs w) ?T s' T'"
      if "T' = ?T \<or> T' = token_record d r a ?T" "s' = add_token a ?s1 \<or> s' = drop_token a (add_token a ?s1)" for s' T'
      by (rule token_safe_minted [OF that(1)]) (use that(2) a in \<open>auto simp: add_token_def drop_token_def add_role_def\<close>)
    show ?case unfolding minted prod.case
    proof (rule wp_thenI [OF wp_record [OF refl]], goal_cases)
      case (1 _ w3)
      then have w3: "bs w3 = add_token a ?s1" "params w3 = token_record d r a ?T"
        using w2 by (simp_all add: token_record_def)
      let ?resp = "(response_of ''appliance-token'')\<lparr>rs_TokenResult := Some (token_result_of (dp_cfg d) req plan t a)\<rparr>"
      have acc: "rs_TokenResult ?resp = Some (token_result_of (dp_cfg d) req plan t a)"
        "tr_Accessor (token_result_of (dp_cfg d) req plan t a) = a" by (simp_all add: token_result_of_def)
      have handed: "token_handed d r ?resp (bs w) ?T s' (token_record d r a ?T)"
        if "bs_tokens s' = insert a (bs_tokens (bs w) - set_option (recorded_accessor d r ?T))" for s'
        using that a by (simp add: token_handed_def acc)
      have safe3: "token_safe d r (bs w) ?T (bs w3) (token_record d r a ?T)" by (rule safe) (simp_all add: w3)
      have revoked: "wp (if tp_Action plan = tokenActionReissue then mapErr g (RevokeTokenByAccessor api c (tp_Accessor plan)) else returnE ())
          (\<lambda>_ w'. bs_tokens (bs w') = insert a (bs_tokens (bs w) - set_option (recorded_accessor d r ?T))
             \<and> token_safe d r (bs w) ?T (bs w') (token_record d r a ?T) \<and> params w' = token_record d r a ?T)
          (\<lambda>_ w'. token_safe d r (bs w) ?T (bs w') (params w')) w3" for g
      proof (rule wp_ifI)
        let ?b = "tp_Accessor plan" and ?s4 = "drop_token (tp_Accessor plan) (add_token a ?s1)"
        assume reissue: "tp_Action plan = tokenActionReissue"
        then have b: "recorded_accessor d r ?T = Some ?b" "?b \<in> bs_tokens (bs w)"
          using action by (auto simp: tokenActionReissue_def tokenActionMint_def)
        then have "a \<noteq> ?b" using a by auto
        with b a have tokens: "bs_tokens ?s4 = insert a (bs_tokens (bs w) - set_option (recorded_accessor d r ?T))"
          and safe4: "token_safe d r (bs w) ?T ?s4 (token_record d r a ?T)"
          by (auto simp: drop_token_def add_token_def add_role_def intro!: token_safe_reissued)
        show "wp (mapErr g (RevokeTokenByAccessor api c ?b))
          (\<lambda>_ w'. bs_tokens (bs w') = insert a (bs_tokens (bs w) - set_option (recorded_accessor d r ?T))
             \<and> token_safe d r (bs w) ?T (bs w') (token_record d r a ?T) \<and> params w' = token_record d r a ?T)
          (\<lambda>_ w'. token_safe d r (bs w) ?T (bs w') (params w')) w3"
          unfolding wp_mapErr by (rule wp_weaken [OF bao.wp_revoke]) (use tokens safe4 safe3 w3 in auto)
      next
        assume "tp_Action plan \<noteq> tokenActionReissue"
        then have "bs_tokens (bs w) \<inter> set_option (recorded_accessor d r ?T) = {}" using action by blast
        then have "bs_tokens (bs w3) = insert a (bs_tokens (bs w) - set_option (recorded_accessor d r ?T))"
          by (auto simp: w3 add_token_def add_role_def)
        then show "wp (returnE ())
          (\<lambda>_ w'. bs_tokens (bs w') = insert a (bs_tokens (bs w) - set_option (recorded_accessor d r ?T))
             \<and> token_safe d r (bs w) ?T (bs w') (token_record d r a ?T) \<and> params w' = token_record d r a ?T)
          (\<lambda>_ w'. token_safe d r (bs w) ?T (bs w') (params w')) w3"
          using safe3 w3 by (simp add: wp_returnE)
      qed
      show ?case
        by (rule wp_thenI [OF revoked]) (use handed in \<open>auto simp: wp_returnE\<close>)
    next
      case (2 e w3)
      then show ?case using w2 by (intro safe) (auto simp: token_record_def)
    qed
  next
    case (3 e w2)
    then show ?case using w1
      by (auto intro!: token_safe_minted simp: add_token_def add_role_def)
  qed (use r in \<open>simp add: r_def\<close>)
next
  case (3 e w1)
  then show ?case by (auto simp: r_def)
qed (use r in \<open>simp add: r_def\<close>)

lemma wp_applianceToken:
  fixes w :: 'w and req :: provision_request
  defines "r \<equiv> rq_Region req"
  assumes r: "region_label r"
  shows "wp (applianceToken api parse d req)
     (\<lambda>resp w'. if rq_Confirm req
        then may_mint d req (bs w) (params w) \<and> token_handed d r resp (bs w) (params w) (bs w') (params w')
          \<and> token_safe d r (bs w) (params w) (bs w') (params w')
        else bs w' = bs w \<and> params w' = params w)
     (\<lambda>_ w'. token_safe d r (bs w) (params w) (bs w') (params w')
        \<and> (\<not> may_mint d req (bs w) (params w) \<longrightarrow> bs w' = bs w \<and> params w' = params w)) w"
    (is "wp _ ?Q ?E w")
proof -
  have rest: "wp (bindE (planApplianceToken api parse d c req) (\<lambda>plan.
        if \<not> rq_Confirm req then returnE ((response_of ''appliance-token'')\<lparr>rs_DryRun := True, rs_TokenPlan := Some plan\<rparr>)
        else if tp_Action plan = tokenActionRefuse then failE (token_refused req plan)
        else mintApplianceToken api d c req plan)) ?Q ?E w1"
    if w1: "bs w1 = bs w" "params w1 = params w" for c w1
  proof (rule wp_bindI [OF wp_plan [OF r [unfolded r_def]]], goal_cases)
    case (1 plan w2)
    let ?rec = "recorded_accessor d r (params w)"
    have w2: "bs w2 = bs w" "params w2 = params w"
      and act: "tp_Action plan = (case ?rec of None \<Rightarrow> tokenActionMint | Some b \<Rightarrow> decideTokenAction (b \<in> bs_tokens (bs w)) (rq_Reissue req))"
      and acc: "?rec = Some b \<Longrightarrow> tp_Accessor plan = b" for b
      using 1 unfolding w1 r_def by simp_all
    show ?case
    proof (rule wp_ifI)
      assume "\<not> \<not> rq_Confirm req"
      then have confirm: "rq_Confirm req" by simp
      show "wp (if tp_Action plan = tokenActionRefuse then failE (token_refused req plan)
          else mintApplianceToken api d c req plan) ?Q ?E w2"
      proof (rule wp_ifI)
        assume "tp_Action plan \<noteq> tokenActionRefuse"
        then have may: "may_mint d req (bs w) (params w)"
          and action: "tp_Action plan = tokenActionReissue \<and> ?rec = Some (tp_Accessor plan) \<and> tp_Accessor plan \<in> bs_tokens (bs w)
            \<or> tp_Action plan = tokenActionMint \<and> bs_tokens (bs w) \<inter> set_option ?rec = {}"
          using confirm act acc
          by (auto simp: may_mint_def decideTokenAction_def r_def split: option.splits if_splits)
        from r action have "wp (mintApplianceToken api d c req plan)
           (\<lambda>resp w'. token_handed d r resp (bs w2) (params w2) (bs w') (params w') \<and> token_safe d r (bs w2) (params w2) (bs w') (params w'))
           (\<lambda>_ w'. token_safe d r (bs w2) (params w2) (bs w') (params w')) w2"
          unfolding r_def by (intro wp_mintApplianceToken) (simp_all add: w2 [unfolded r_def])
        then show "wp (mintApplianceToken api d c req plan) ?Q ?E w2"
          by (rule wp_weaken) (use may confirm w2 in auto)
      qed (use w2 in \<open>simp add: wp_failE\<close>)
    qed (use w2 in \<open>simp add: wp_returnE\<close>)
  qed (use w1 in \<open>simp add: r_def\<close>)
  show ?thesis unfolding applianceToken_def Let_def
  proof (rule wp_ifI, simp add: wp_failE, rule wp_ifI, simp add: wp_failE)
    show "wp (bindE (mapErr (wrap ''build openbao client: '') (bao_NewClient api (cfg_OpenBaoAddr (dp_cfg d)))) (\<lambda>client.
        bindE (mapErr (wrap ''read the openbao root token: '') (GetSecret (dp_store d) ''openbao'' ''root-token'')) (\<lambda>rootToken.
        bindE (planApplianceToken api parse d (client\<lparr>bc_Token := rootToken\<rparr>) req) (\<lambda>plan.
        if \<not> rq_Confirm req then returnE ((response_of ''appliance-token'')\<lparr>rs_DryRun := True, rs_TokenPlan := Some plan\<rparr>)
        else if tp_Action plan = tokenActionRefuse then failE (token_refused req plan)
        else mintApplianceToken api d (client\<lparr>bc_Token := rootToken\<rparr>) req plan)))) ?Q ?E w"
    proof (rule wp_bind_mapErr [OF bao.new_client [unfolded bao_tells_def]], goal_cases)
      case (2 client w1)
      show ?case by (rule wp_bind_mapErr [OF wp_GetSecret]) (use 2 rest in auto)
    qed auto
  qed
qed

end

section \<open>The stage in memory\<close>

text \<open>The two phases read nothing from Secrets Manager.\<close>

definition no_secrets :: "'w secrets_api" where
  "no_secrets =
     \<lparr>GetSecretValue = (\<lambda>_. failE (Errorf ''no such secret'')), CreateSecret = (\<lambda>_ _. failE (Errorf ''read only'')),
      PutSecretValue = (\<lambda>_ _. failE (Errorf ''read only''))\<rparr>"

definition vault_deps :: "(fake_ssm \<times> fake_bao) deps" where
  "vault_deps =
     \<lparr>dp_cfg = test_config\<lparr>cfg_OpenBaoAddr := ''http://bao''\<rparr>,
      dp_store = \<lparr>ssm_client = fst_ssm_api fake_ssm_api, ssm_stage = ''dev''\<rparr>,
      dp_keys = \<lparr>sec_client = no_secrets, sec_stage = ''dev''\<rparr>, dp_secrets = no_secrets\<rparr>"

definition vault_api :: "(fake_ssm \<times> fake_bao) bao_api" where
  "vault_api = snd_bao_api (fake_bao_api 0)"

definition vault_params :: "fake_ssm \<times> fake_bao \<Rightarrow> ssm_table" where
  "vault_params w = fake_held (fst w)"

definition vault_view :: "fake_ssm \<times> fake_bao \<Rightarrow> bao_state" where
  "vault_view w = fake_view (snd w)"

lemma keeps_on_fst_view: "keeps (\<lambda>w w'. fake_view (snd w') = fake_view (snd w)) (on_fst m)"
  by (simp add: keeps_def on_fst_def Let_def case_prod_beta)

interpretation fake_vault: vault_stage "fst_ssm_api fake_ssm_api" vault_params fake_pages vault_api vault_view vault_deps 1
proof -
  have "vault_stage_axioms (fst_ssm_api fake_ssm_api) fake_pages vault_view vault_deps 1"
    by unfold_locales (simp_all add: vault_deps_def fake_pages_def vault_view_def keeps_on_fst_view)
  moreover have "ssm_service (fst_ssm_api fake_ssm_api) vault_params fake_pages"
    unfolding vault_params_def by (rule fst_ssm_service)
  moreover have "bao_server vault_api vault_view vault_params"
    unfolding vault_params_def vault_view_def vault_api_def by (rule fake_server.bao_server_axioms)
  ultimately show "vault_stage (fst_ssm_api fake_ssm_api) vault_params fake_pages vault_api vault_view vault_deps 1"
    by (intro vault_stage.intro)
qed

text \<open>Two regions with keys and tokens, one of them to be retired.\<close>

definition two_keys :: "fake_ssm \<times> fake_bao" where
  "two_keys =
     (fake_with [(Path (dp_store vault_deps) (applianceService ''west'') unsealTokenAccessorKey, ''w1''),
                 (Path (dp_store vault_deps) (applianceService ''east'') unsealTokenAccessorKey, ''e1''),
                 (''/forge-central/dev/openbao/root-token'', ''root'')],
      test_bao\<lparr>fb_keys := map ApplianceKeyName [''west'', ''east''], fb_roles := map ApplianceKeyName [''west'', ''east''],
        fb_tokens := [''w1'', ''e1'', ''other'']\<rparr>)"

definition event_of :: "string \<Rightarrow> provision_request" where
  "event_of phase =
     \<lparr>rq_Phase = phase, rq_Trigger = [], rq_ApplianceRegions = [], rq_RetiredApplianceRegions = [], rq_Region = [],
      rq_NodeCIDR = [], rq_Period = [], rq_WrapTTL = [], rq_Reissue = False, rq_PiriDID = [], rq_PiriURL = [],
      rq_IngotDID = [], rq_PiriProof = [], rq_PiriProofB64 = [], rq_Weight = 0, rq_ReplicationWeight = 0,
      rq_Confirm = False, rq_Deposit = [], rq_LockupAllowance = [], rq_RateAllowance = [], rq_MaxLockupPeriod = 0,
      rq_ForceDeposit = False\<rparr>"

definition retire_west :: provision_request where
  "retire_west = (event_of ''vault'')\<lparr>rq_ApplianceRegions := [''east'', ''north''], rq_RetiredApplianceRegions := [''west'']\<rparr>"

definition reissue_west :: provision_request where
  "reissue_west = (event_of ''appliance-token'')
     \<lparr>rq_Region := ''west'', rq_NodeCIDR := ''10.0.0.1/32'', rq_Reissue := True, rq_Confirm := True\<rparr>"

section \<open>Properties\<close>

text \<open>
  C8. The vault phase makes the stage's transit keys those of the live regions. It acts only on a request
  that names no region twice and leaves no existing key unnamed; any other is refused with nothing changed.
  When it succeeds, exactly the live regions have a key, each with its own policy, and nothing is left
  of a region that had a key and is retired: no policy, no role, no live recorded token, no parameter.
  When it stops half way, no key of a live region is gone, a key that is gone belongs to a retired region
  of which nothing else is left either, so that the next run need not look for it, and no parameter
  or token but those of the retired regions is touched.
\<close>

theorem reconcile_outcome:
  assumes "vault_stage papi params pages api bs d fuel"
    and "list_all region_label (rq_ApplianceRegions req)" "list_all region_label (rq_RetiredApplianceRegions req)"
  shows "wp (reconcileApplianceKeys fuel api d c req resp)
     (\<lambda>resp' w'. accounted (rq_ApplianceRegions req) (rq_RetiredApplianceRegions req) (bs w)
        \<and> reconciled (rq_ApplianceRegions req) (rq_RetiredApplianceRegions req) resp resp' (bs w) (bs w')
        \<and> reconciling d (set (rq_ApplianceRegions req)) (set (rq_RetiredApplianceRegions req)) (bs w) (params w) (bs w') (params w'))
     (\<lambda>_ w'. reconciling d (set (rq_ApplianceRegions req)) (set (rq_RetiredApplianceRegions req)) (bs w) (params w) (bs w') (params w')
        \<and> (\<not> accounted (rq_ApplianceRegions req) (rq_RetiredApplianceRegions req) (bs w) \<longrightarrow> bs w' = bs w \<and> params w' = params w)) w"
  using assms by (rule vault_stage.wp_reconcileApplianceKeys)

theorem reconcile_outcome_witness:
  "wp (reconcileApplianceKeys 1 vault_api vault_deps test_client retire_west (response_of ''vault''))
     (\<lambda>resp' w'. accounted [''east'', ''north''] [''west''] (vault_view two_keys)
        \<and> reconciled [''east'', ''north''] [''west''] (response_of ''vault'') resp' (vault_view two_keys) (vault_view w')
        \<and> reconciling vault_deps (set [''east'', ''north'']) (set [''west'']) (vault_view two_keys) (vault_params two_keys)
            (vault_view w') (vault_params w'))
     (\<lambda>_ w'. reconciling vault_deps (set [''east'', ''north'']) (set [''west'']) (vault_view two_keys) (vault_params two_keys)
            (vault_view w') (vault_params w')) two_keys"
proof -
  have lists: "rq_ApplianceRegions retire_west = [''east'', ''north'']" "rq_RetiredApplianceRegions retire_west = [''west'']"
    by (simp_all add: retire_west_def)
  show ?thesis
    by (rule wp_weaken [OF reconcile_outcome [OF fake_vault.vault_stage_axioms, of retire_west, unfolded lists]])
      (simp_all add: region_label_def)
qed

text \<open>
  C1. A region never loses its unseal token to the phase that replaces it. A confirmed run that succeeds
  leaves one new token, live, wrapped in the response and on record, and the region's earlier recorded
  token is not live any more; it replaces a live one only when the request says so. Otherwise it refuses
  and changes nothing, and a dry run changes nothing at all. Wherever a run stops, at most one token was
  minted, and the recorded token is revoked only after its successor is live and on record.
\<close>

theorem token_handover:
  assumes "vault_stage papi params pages api bs d fuel" and "region_label (rq_Region req)"
  shows "wp (applianceToken api parse d req)
     (\<lambda>resp w'. if rq_Confirm req
        then may_mint d req (bs w) (params w) \<and> token_handed d (rq_Region req) resp (bs w) (params w) (bs w') (params w')
          \<and> token_safe d (rq_Region req) (bs w) (params w) (bs w') (params w')
        else bs w' = bs w \<and> params w' = params w)
     (\<lambda>_ w'. token_safe d (rq_Region req) (bs w) (params w) (bs w') (params w')
        \<and> (\<not> may_mint d req (bs w) (params w) \<longrightarrow> bs w' = bs w \<and> params w' = params w)) w"
  using assms by (rule vault_stage.wp_applianceToken)

theorem token_handover_witness:
  "wp (applianceToken vault_api (\<lambda>_. Inr ()) vault_deps reissue_west)
     (\<lambda>resp w'. token_handed vault_deps ''west'' resp (vault_view two_keys) (vault_params two_keys) (vault_view w') (vault_params w')
        \<and> token_safe vault_deps ''west'' (vault_view two_keys) (vault_params two_keys) (vault_view w') (vault_params w'))
     (\<lambda>_ w'. token_safe vault_deps ''west'' (vault_view two_keys) (vault_params two_keys) (vault_view w') (vault_params w')) two_keys"
proof -
  have req: "rq_Region reissue_west = ''west''" "rq_Confirm reissue_west" by (simp_all add: reissue_west_def)
  show ?thesis
    by (rule wp_weaken [OF token_handover [OF fake_vault.vault_stage_axioms, of reissue_west, unfolded req(1)]])
      (simp_all add: region_label_def req(2))
qed

end
