(* ===== verification/Frames.thy ===== *)
theory Frames
imports Go_Base
begin

text \<open>
  Facts that need no postcondition: what an action yields when it succeeds (\<open>yields\<close>), and that it returns
  and leaves the world related to the one before, whatever it returns (\<open>framed\<close>).
\<close>

section \<open>What an action yields\<close>

definition yields :: "('a \<Rightarrow> bool) \<Rightarrow> ('w, 'a) act \<Rightarrow> bool" where
  "yields P m \<longleftrightarrow> (\<forall>w a w'. m w = (Ok a, w') \<longrightarrow> P a)"

lemma yields_mapErr: "yields P m \<Longrightarrow> yields P (mapErr g m)"
  by (simp add: yields_def mapErr_eq_Ok)

lemma yields_bindE: "(\<And>a. yields P (f a)) \<Longrightarrow> yields P (bindE m f)"
  unfolding yields_def bindE_eq_Ok by blast

lemma yields_bind: "yields P m \<Longrightarrow> (\<And>a. P a \<Longrightarrow> yields Q (f a)) \<Longrightarrow> yields Q (bindE m f)"
  unfolding yields_def bindE_eq_Ok by blast

lemma yields_thenE: "yields P k \<Longrightarrow> yields P (thenE m k)"
  unfolding thenE_def by (rule yields_bindE)

lemma yields_returnE: "P a \<Longrightarrow> yields P (returnE a)"
  by (simp add: yields_def returnE_def)

lemma yields_parseE: "(\<And>a. r = Inr a \<Longrightarrow> P a) \<Longrightarrow> yields P (parseE pre r)"
  by (simp add: yields_def parseE_eq_Ok)

lemma yields_foldE:
  assumes "\<And>x acc. x \<in> set xs \<Longrightarrow> P acc \<Longrightarrow> yields P (f x acc)"
  shows "P acc \<Longrightarrow> yields P (foldE f xs acc)"
  using assms by (induction xs arbitrary: acc) (auto intro: yields_bind yields_returnE)

lemma yields_failE: "yields P (failE e)"
  by (simp add: yields_def failE_def)

lemma yields_deferE: "yields P m \<Longrightarrow> yields P (deferE close m)"
  by (auto simp: yields_def deferE_def Let_def split: prod.splits)

lemma yields_if: "(b \<Longrightarrow> yields P m) \<Longrightarrow> (\<not> b \<Longrightarrow> yields P n) \<Longrightarrow> yields P (if b then m else n)"
  by simp

lemma yields_case_option: "yields P m \<Longrightarrow> (\<And>a. yields P (h a)) \<Longrightarrow> yields P (case x of None \<Rightarrow> m | Some a \<Rightarrow> h a)"
  by (cases x) simp_all

lemma yields_case_prod: "(\<And>a b. z = (a, b) \<Longrightarrow> yields P (f a b)) \<Longrightarrow> yields P (case z of (a, b) \<Rightarrow> f a b)"
  by (cases z) simp

lemmas yields_intros = yields_failE yields_deferE yields_if yields_case_option yields_case_prod

text \<open>A loop, with an invariant over the elements done so far.\<close>

lemma yields_foldE_done:
  assumes step: "\<And>ys x acc. I ys acc \<Longrightarrow> yields (I (ys @ [x])) (f x acc)"
  shows "I ys acc \<Longrightarrow> yields (I (ys @ xs)) (foldE f xs acc)"
proof (induction xs arbitrary: ys acc)
  case (Cons x xs)
  show ?case unfolding foldE.simps
    by (rule yields_bind [OF step [OF Cons.prems]]) (use Cons.IH [of "ys @ [x]"] in simp)
qed (simp add: yields_returnE)

lemmas yields_loop = yields_foldE_done [where ys = "[]", simplified]

section \<open>Frames of actions that return\<close>

definition framed :: "('w \<Rightarrow> 'w \<Rightarrow> bool) \<Rightarrow> ('w, 'a) act \<Rightarrow> bool" where
  "framed R m \<longleftrightarrow> (\<forall>w. wp m (\<lambda>_ w'. R w w') (\<lambda>_ w'. R w w') w)"

named_theorems framed_intros "frames of actions that return"

lemma framedI: "(\<And>w. wp m (\<lambda>_ w'. R w w') (\<lambda>_ w'. R w w') w) \<Longrightarrow> framed R m"
  by (simp add: framed_def)

lemma wp_framed: "framed R m \<Longrightarrow> wp m (\<lambda>_ w'. R w w') (\<lambda>_ w'. R w w') w"
  by (simp add: framed_def)

lemma framed_keeps: "framed R m \<longleftrightarrow> keeps R m \<and> (\<forall>w. fst (m w) \<noteq> Hang)"
proof
  assume m: "framed R m"
  have "R w (snd (m w)) \<and> fst (m w) \<noteq> Hang" for w
    using wp_framed [OF m, of w] by (auto simp: wp_def split: prod.splits result.splits)
  then show "keeps R m \<and> (\<forall>w. fst (m w) \<noteq> Hang)" by (simp add: keeps_def)
next
  assume m: "keeps R m \<and> (\<forall>w. fst (m w) \<noteq> Hang)"
  have "R w w'" if "m w = (r, w')" for w r w' using m that by (metis keeps_def snd_conv)
  then show "framed R m"
    using m by (intro framedI wpI) (auto dest: arg_cong [where f = fst])
qed

lemma framed_mono: "framed R m \<Longrightarrow> (\<And>w w'. R w w' \<Longrightarrow> S w w') \<Longrightarrow> framed S m"
  unfolding framed_def by (blast intro: wp_weaken)

lemma world_order_refl: "world_order R \<Longrightarrow> R w w"
  by (simp add: world_order_def reflpD)

lemma world_order_trans: "world_order R \<Longrightarrow> R u v \<Longrightarrow> R v w \<Longrightarrow> R u w"
  unfolding world_order_def by (blast dest: transpD)

lemma wp_framed_from: "world_order R \<Longrightarrow> framed R m \<Longrightarrow> R u w \<Longrightarrow> wp m (\<lambda>_ w'. R u w') (\<lambda>_ w'. R u w') w"
  by (rule wp_weaken [OF wp_framed [of R]]) (auto intro: world_order_trans)

lemma wp_framed_yields: "framed R m \<Longrightarrow> yields P m \<Longrightarrow> wp m (\<lambda>a w'. P a \<and> R w w') (\<lambda>_ w'. R w w') w"
  by (rule wp_mono [OF wp_framed]) (auto simp: yields_def)

lemma framed_pure [framed_intros]:
  "world_order R \<Longrightarrow> framed R (returnE a)" "world_order R \<Longrightarrow> framed R (failE e)"
  "world_order R \<Longrightarrow> framed R (guardE b e)" "world_order R \<Longrightarrow> framed R (parseE pre s)" "world_order R \<Longrightarrow> framed R (sumE s)"
  by (simp_all add: framed_def wp_simps world_order_refl split: sum.split)

lemma framed_liftE [framed_intros]: "world_order R \<Longrightarrow> r \<noteq> Hang \<Longrightarrow> framed R (liftE r)"
  by (simp add: framed_def wp_simps world_order_refl split: result.split)

lemma framed_bindE [framed_intros]:
  "world_order R \<Longrightarrow> framed R m \<Longrightarrow> (\<And>a. framed R (f a)) \<Longrightarrow> framed R (bindE m f)"
  by (rule framedI, rule wp_bindI [OF wp_framed]) (auto intro: wp_framed_from)

lemma framed_bind_yields:
  "world_order R \<Longrightarrow> framed R m \<Longrightarrow> yields P m \<Longrightarrow> (\<And>a. P a \<Longrightarrow> framed R (f a)) \<Longrightarrow> framed R (bindE m f)"
  by (rule framedI, rule wp_bindI [OF wp_framed_yields]) (auto intro: wp_framed_from)

lemma framed_thenE [framed_intros]: "world_order R \<Longrightarrow> framed R m \<Longrightarrow> framed R k \<Longrightarrow> framed R (thenE m k)"
  unfolding thenE_def by (rule framed_bindE)

lemma framed_mapErr [framed_intros]: "framed R m \<Longrightarrow> framed R (mapErr g m)"
  by (simp add: framed_def wp_mapErr)

lemma framed_tryE [framed_intros]: "framed R m \<Longrightarrow> framed R (tryE m)"
  by (simp add: framed_def wp_tryE)

lemma framed_catchE [framed_intros]:
  "world_order R \<Longrightarrow> framed R m \<Longrightarrow> (\<And>e. framed R (h e)) \<Longrightarrow> framed R (catchE m h)"
  unfolding framed_def wp_catchE by (blast intro: wp_weaken world_order_trans)

lemma framed_cases [framed_intros]:
  "(b \<Longrightarrow> framed R m) \<Longrightarrow> (\<not> b \<Longrightarrow> framed R n) \<Longrightarrow> framed R (if b then m else n)"
  "framed R m \<Longrightarrow> (\<And>a. framed R (h a)) \<Longrightarrow> framed R (case x of None \<Rightarrow> m | Some a \<Rightarrow> h a)"
  "(\<And>a. framed R (k a)) \<Longrightarrow> (\<And>c. framed R (l c)) \<Longrightarrow> framed R (case y of Inl a \<Rightarrow> k a | Inr c \<Rightarrow> l c)"
  "(\<And>a c. framed R (p a c)) \<Longrightarrow> framed R (case z of (a, c) \<Rightarrow> p a c)"
  by (simp_all split: option.split sum.split prod.split)

lemma framed_foldE [framed_intros]:
  assumes "world_order R" "\<And>x acc. x \<in> set xs \<Longrightarrow> framed R (f x acc)"
  shows "framed R (foldE f xs acc)"
  using assms(2) by (induction xs arbitrary: acc) (auto intro!: framed_intros assms(1))

lemma framed_forE [framed_intros]:
  "world_order R \<Longrightarrow> (\<And>x. x \<in> set xs \<Longrightarrow> framed R (f x)) \<Longrightarrow> framed R (forE f xs)"
  unfolding forE_def by (rule framed_foldE)

lemma framed_deferE: "world_order R \<Longrightarrow> framed R m \<Longrightarrow> (\<And>w. R w (close w)) \<Longrightarrow> framed R (deferE close m)"
  unfolding framed_def wp_deferE by (blast intro: wp_weaken world_order_trans)

lemma framed_closeOnErr:
  "world_order R \<Longrightarrow> framed R m \<Longrightarrow> (\<And>w. R w (close w)) \<Longrightarrow> framed R (closeOnErr close m)"
  unfolding framed_def wp_closeOnErr by (blast intro: wp_weaken world_order_trans)

lemma framed_case_list:
  "framed R m \<Longrightarrow> (\<And>x xs. framed R (h x xs)) \<Longrightarrow> framed R (case ys of [] \<Rightarrow> m | x # xs \<Rightarrow> h x xs)"
  by (cases ys) simp_all

lemma framed_case_option_eq:
  "(x = None \<Longrightarrow> framed R m) \<Longrightarrow> (\<And>a. x = Some a \<Longrightarrow> framed R (h a)) \<Longrightarrow> framed R (case x of None \<Rightarrow> m | Some a \<Rightarrow> h a)"
  by (cases x) simp_all

lemma framed_from_keeps: "keeps R m \<Longrightarrow> (\<And>w. wp m (\<lambda>_ _. True) (\<lambda>_ _. True) w) \<Longrightarrow> framed R m"
  unfolding framed_keeps by (blast dest: wp_no_hang)

end
