(* ===== verification/DryRun.thy ===== *)
theory DryRun
imports Main_Handle Appliances Frames
begin

text \<open>
  What an event that is not confirmed does to the world: nothing, whichever phase it names.

  The statement is about any relation between worlds that the reading calls of the libraries keep, such
  as "nothing was written". It is proved phase by phase, along the code.
\<close>

section \<open>Frames by what an action yields\<close>

lemma keeps_bind_yields:
  assumes "world_order R" "keeps R m" "yields P m" "\<And>a. P a \<Longrightarrow> keeps R (f a)"
  shows "keeps R (bindE m f)"
proof -
  have "bindE m f = bindE m (\<lambda>a. if P a then f a else hangE)"
    using assms(3) by (auto simp: fun_eq_iff bindE_def yields_def split: prod.split result.split)
  then show ?thesis using assms(1,2,4) by (simp add: keeps_bindE keeps_if keeps_hangE)
qed

lemma keeps_bind_parse:
  "world_order R \<Longrightarrow> (\<And>a. r = Inr a \<Longrightarrow> keeps R (f a)) \<Longrightarrow> keeps R (bindE (parseE pre r) f)"
  by (rule keeps_bind_yields [where P = "\<lambda>a. r = Inr a"])
    (simp_all add: keeps_parseE yields_parseE)

lemma keeps_sum_bind:
  "world_order R \<Longrightarrow> (\<And>a. r = Inr a \<Longrightarrow> keeps R (f a)) \<Longrightarrow> keeps R (bindE (sumE r) f)"
  by (cases r) (simp_all add: sumE_def keeps_failE)

section \<open>The reading calls\<close>

definition reading_conn :: "('w \<Rightarrow> 'w \<Rightarrow> bool) \<Rightarrow> 'w pgx_conn \<Rightarrow> bool" where
  "reading_conn R conn \<longleftrightarrow>
     (\<forall>q a. keeps R (qr_QueryText (px_querier conn) q a)) \<and> (\<forall>q a. keeps R (qr_QueryCount (px_querier conn) q a))
     \<and> (\<forall>q a. keeps R (qr_Query (px_querier conn) q a)) \<and> (\<forall>q a. keeps R (pg_QueryBool (px_db conn) q a))
     \<and> (\<forall>w. R w (px_Close conn w))"

lemma reading_connD:
  assumes "reading_conn R conn"
  shows "keeps R (qr_QueryText (px_querier conn) q a)" "keeps R (qr_QueryCount (px_querier conn) q a)"
    and "keeps R (qr_Query (px_querier conn) q a)" "keeps R (pg_QueryBool (px_db conn) q n)" "R w (px_Close conn w)"
  using assms by (auto simp: reading_conn_def)

text \<open>The clients of the onboard phase, as far as \<open>Read\<close> uses them.\<close>

definition reading_onboard :: "('v \<Rightarrow> 'v \<Rightarrow> bool) \<Rightarrow> 'v onboard_deps \<Rightarrow> bool" where
  "reading_onboard R deps \<longleftrightarrow>
     (\<forall>did. keeps R (al_Has (od_AllowList deps) did)) \<and> (\<forall>did. keeps R (sa_Provider (od_Sprue deps) did))
     \<and> (\<forall>did. keeps R (ha_Provider (od_Hilt deps) did)) \<and> (\<forall>r. keeps R (pc_Recorded (od_PiriRecord deps) r))"

text \<open>The calls that only read, as one interface of everything the program is built on.\<close>

locale read_only =
  fixes R :: "'w \<Rightarrow> 'w \<Rightarrow> bool"
    and env :: "('w, 'aws, 's, 'k, 'd, 'c, 'i, 'u, 'ec, 'ek, 'ea, 'eb) provision_env"
  assumes order: "world_order R"
    and aws: "keeps R (pe_LoadDefaultConfig env)" "keeps R (oe_LoadDefaultConfig (pe_onboard env))"
    and ssm: "keeps R (GetParameter (pe_ssm env c) p dec)" "keeps R (GetParametersByPath (pe_ssm env c) p tok)"
    and secrets: "keeps R (GetSecretValue (pe_secrets env c) i)"
    and bao: "keeps R (bao_NewClient (pe_bao env) addr)" "keeps R (bao_Read (pe_bao env) b p)" "keeps R (bao_List (pe_bao env) b p)"
      "keeps R (bao_LookupAccessor (pe_bao env) b p)" "keeps R (bao_SealStatus (pe_bao env) b)"
    and sleep: "R w (ck_Sleep (pe_clock env) n w)"
    and eth: "keeps R (DialContext (pe_eth env) url)" "keeps R (eth_ChainID (pe_eth env) client)"
      "keeps R (contract_Call (pe_eth env) client a abi m args)" "R w (eth_Close (pe_eth env) client w)"
    and dynamo: "keeps R (da_GetItem (oe_dynamo (pe_onboard env)) t k)"
    and sprue: "oe_sprueclient_New (pe_onboard env) did u iss = Inr s \<Longrightarrow> keeps R (AdminProviderList s)"
    and hilt: "oe_NewAdminClient (pe_onboard env) iss u = Inr h \<Longrightarrow> keeps R (hilt_ListProviders h)"
    and connect: "keeps R (se_connect (pe_seed env) dsn)" "yields (reading_conn R) (se_connect (pe_seed env) dsn)"
begin

lemmas reads = keeps_intros order aws ssm secrets bao eth dynamo connect(1)

lemma keeps_stores:
  assumes "ssm_client (dp_store d) = pe_ssm env c" "sec_client (dp_keys d) = pe_secrets env c"
  shows "keeps R (GetSecret (dp_store d) service name)" "keeps R (LookupPublic (dp_store d) service name)"
    and "keeps R (ListPublic fuel (dp_store d) service sub)" "keeps R (sec_Get (dp_keys d) service name)"
proof -
  have get: "keeps R (ssm_get (dp_store d) p dec)" for p dec
    by (rule keeps_ssm_get) (simp_all add: assms order ssm)
  show "keeps R (GetSecret (dp_store d) service name)" "keeps R (LookupPublic (dp_store d) service name)"
    unfolding GetSecret_def LookupPublic_def by (auto intro!: reads get)
  show "keeps R (ListPublic fuel (dp_store d) service sub)"
    unfolding ListPublic_def Let_def by (auto intro!: reads keeps_params_by_path simp: assms)
  show "keeps R (sec_Get (dp_keys d) service name)"
    unfolding sec_Get_def sec_Lookup_def sec_get_def by (auto intro!: reads simp: assms)
qed

lemma keeps_newSession: "keeps R (newSession walk (pe_eth env) lib cfg key req)"
  unfolding newSession_def by (auto intro!: reads keeps_close split: option.split)

lemma keeps_Prepare: "keeps R (Prepare walk (pe_eth env) lib cfg key req)"
  unfolding Prepare_def session_plan_def walletBalance_def accountFunds_def Let_def
  by (auto intro!: reads keeps_close keeps_newSession)

lemma keeps_wait: "keeps R (wait_unsealed (pe_clock env) (pe_bao env) ctx budget client)"
proof -
  have select: "keeps R (select_after (pe_clock env) ctx n)" for ctx n
    by (simp add: keeps_def select_after_def sleep split: option.split)
  have "keeps R (WaitForUnsealed fuel (pe_clock env) (pe_bao env) ctx client)" for fuel ctx
    by (induction fuel) (auto intro!: reads select simp: Let_def)
  then show ?thesis by (simp add: keeps_def wait_unsealed_def)
qed

lemma keeps_ListHiltSecrets: "keeps R (ListHiltSecrets depth (pe_bao env) client)"
proof -
  have "keeps R (listHiltSecrets depth (pe_bao env) client folder)" for folder
    by (induction depth arbitrary: folder) (auto intro!: reads split: option.split json.split)
  then show ?thesis by (simp add: ListHiltSecrets_def)
qed

text \<open>Each phase, as far as an unconfirmed event takes it.\<close>

lemma new_deps [simp]:
  "dp_cfg (newDeps env cfg c) = cfg" "dp_secrets (newDeps env cfg c) = pe_secrets env c"
  by (simp_all add: newDeps_def)

lemma keeps_new_stores:
  "keeps R (GetSecret (dp_store (newDeps env cfg c)) service name)"
  "keeps R (LookupPublic (dp_store (newDeps env cfg c)) service name)"
  "keeps R (ListPublic fuel (dp_store (newDeps env cfg c)) service sub)"
  "keeps R (sec_Get (dp_keys (newDeps env cfg c)) service name)"
  by (rule keeps_stores; simp add: newDeps_def)+

lemma keeps_fundPhase:
  "\<not> rq_Confirm req \<Longrightarrow> keeps R (fundPhase walk (pe_eth env) lib (newDeps env cfg c) req)"
  unfolding fundPhase_def Let_def by (auto intro!: reads keeps_Prepare keeps_new_stores)

lemma keeps_applianceToken:
  "\<not> rq_Confirm req \<Longrightarrow> keeps R (applianceToken (pe_bao env) parse (newDeps env cfg c) req)"
  unfolding applianceToken_def planApplianceToken_def TokenLive_def Let_def
  by (auto intro!: reads keeps_new_stores)

lemma keeps_retirePhase:
  assumes "\<not> rq_Confirm req"
  shows "keeps R (retirePhase (se_connect (pe_seed env)) (newDeps env cfg c) req)"
proof -
  have plan: "keeps R (planRetire (se_connect (pe_seed env)) (newDeps env cfg c) dsn region)" for dsn region
  proof -
    have conn: "keeps R (deferE (px_Close conn) (bindE (readRegionDIDs (px_querier conn) region) (\<lambda>found.
        case found of None \<Rightarrow> returnE (plan :: retire_plan)
        | Some dids \<Rightarrow> bindE (countDelegations (px_querier conn) (rd_all dids)) (\<lambda>n. returnE (f dids n)))))"
      if "reading_conn R conn" for conn plan f
      unfolding readRegionDIDs_def countDelegations_def Let_def
      by (intro keeps_close(1)) (auto intro!: reads reading_connD [OF that] split: option.split)
    show ?thesis unfolding planRetire_def Let_def
      by (rule keeps_bindE [OF order keeps_foldE], rule order)
        (auto intro!: reads keeps_new_stores keeps_bind_yields [OF order _ yields_mapErr [OF connect(2)]] conn)
  qed
  show ?thesis unfolding retirePhase_def using assms
    by (auto intro!: reads plan keeps_new_stores)
qed

lemma keeps_resetAppsPhase:
  assumes "rq_Confirm req \<Longrightarrow> cfg_Stage cfg \<notin> set resettableStages"
  shows "keeps R (resetAppsPhase depth \<lparr>re_connect = se_connect (pe_seed env), re_bao = pe_bao env, re_clock = pe_clock env,
    re_ctx = ctx\<rparr> (newDeps env cfg c) req)"
proof -
  let ?d = "newDeps env cfg c"
  have creds: "keeps R (masterCredentials ?d arn)" for arn
    unfolding masterCredentials_def Let_def by (auto intro!: reads )
  have master: "keeps R (connectAsMaster (se_connect (pe_seed env)) ?d target)"
    "yields (reading_conn R) (connectAsMaster (se_connect (pe_seed env)) ?d target)" for target
    unfolding connectAsMaster_def Let_def
    by (auto intro!: reads creds yields_bindE yields_mapErr connect(2) split: prod.split)
  have plan: "keeps R (planResetApps depth (pe_bao env) (px_db conn) bao stage)" if "reading_conn R conn" for conn bao stage
    unfolding planResetApps_def Existing_def by (auto intro!: reads keeps_ListHiltSecrets reading_connD [OF that])
  have root: "keeps R (openBaoAsRoot \<lparr>re_connect = se_connect (pe_seed env), re_bao = pe_bao env, re_clock = pe_clock env,
      re_ctx = ctx\<rparr> ?d)"
    unfolding openBaoAsRoot_def by (auto intro!: reads keeps_wait keeps_new_stores)
  show ?thesis
  proof (cases "cfg_Stage cfg \<in> set resettableStages")
    case True
    have unconfirmed: "\<not> rq_Confirm req" using assms True by blast
    have body: "keeps R (deferE (px_Close conn) (bindE (openBaoAsRoot \<lparr>re_connect = se_connect (pe_seed env),
        re_bao = pe_bao env, re_clock = pe_clock env, re_ctx = ctx\<rparr> ?d) (\<lambda>bao.
        bindE (planResetApps depth (pe_bao env) (px_db conn) bao (cfg_Stage cfg)) (\<lambda>plan.
        if \<not> rq_Confirm req then returnE (dry plan) else confirmed bao plan))))"
      if "reading_conn R conn" for conn and dry :: "reset_apps_plan \<Rightarrow> response" and confirmed
      by (intro keeps_close(1) [OF order] keeps_bindE [OF order] root plan [OF that] reading_connD(5) [OF that])
        (simp add: keeps_returnE order unconfirmed)
    have allowed: "checkResettableStage (cfg_Stage cfg) = None" using True by (simp add: checkResettableStage_def)
    show ?thesis unfolding resetAppsPhase_def new_deps allowed option.case reset_env.select_convs
      by (rule keeps_if, rule keeps_failE [OF order], rule keeps_bind_yields [OF order master], rule body)
  next
    case False
    then show ?thesis by (simp add: resetAppsPhase_def checkResettableStage_def keeps_failE order)
  qed
qed

lemma keeps_Read:
  assumes "reading_onboard R deps"
  shows "keeps R (Read deps req)"
  unfolding Read_def using assms by (auto intro!: reads simp: reading_onboard_def)

lemma keeps_onboardDeps: "keeps R (onboardDeps pages (pe_onboard env) (newDeps env cfg c))"
  unfolding onboardDeps_def serviceIssuer_def NewSprueClient_def NewHiltClient_def Let_def
  by (auto intro!: reads keeps_new_stores)

lemma yields_sprue: "yields (\<lambda>s. \<forall>did. keeps R (sa_Provider s did)) (NewSprueClient (pe_onboard env) did e iss)"
proof -
  have "keeps R (sprue_Provider lib s did)" if "oe_sprueclient_New (pe_onboard env) a u iss = Inr s" for lib s did a u
    unfolding sprue_Provider_def by (auto intro!: reads sprue [OF that])
  then show ?thesis unfolding NewSprueClient_def
    by (auto intro!: yields_bindE simp: yields_def act_iff bindE_eq_Ok SprueClient_def returnE_def)
qed

lemma yields_hilt: "yields (\<lambda>s. \<forall>did. keeps R (ha_Provider s did)) (NewHiltClient (pe_onboard env) e iss)"
proof -
  have "keeps R (hilt_Provider lib s did)" if "oe_NewAdminClient (pe_onboard env) iss u = Inr s" for lib s did u
    unfolding hilt_Provider_def by (auto intro!: reads hilt [OF that])
  then show ?thesis unfolding NewHiltClient_def
    by (auto intro!: yields_bindE simp: yields_def act_iff bindE_eq_Ok HiltClient_def returnE_def)
qed

lemma yields_onboardDeps:
  "yields (reading_onboard R) (onboardDeps pages (pe_onboard env) (newDeps env cfg c))"
proof -
  have recorded: "keeps R (Recorded (ssm_publicStore pages (dp_store (newDeps env cfg c))) r)" for r
    unfolding Recorded_def ssm_publicStore_def publicStore.select_convs by (auto intro!: reads keeps_new_stores)
  have allow: "keeps R (allow_Has (NewDynamoAllowList (oe_dynamo (pe_onboard env)) t st) did)" for t st did
    unfolding allow_Has_def NewDynamoAllowList_def by (auto intro!: reads)
  have clients: "reading_onboard R \<lparr>od_AllowList = dynamo_AllowList (NewDynamoAllowList (oe_dynamo (pe_onboard env)) t st),
      od_Sprue = sp, od_Hilt = hi, od_IssueProof = issue,
      od_PiriRecord = piriRecords (ssm_publicStore pages (dp_store (newDeps env cfg c)))\<rparr>"
    if "\<forall>did. keeps R (sa_Provider sp did)" "\<forall>did. keeps R (ha_Provider hi did)" for t st sp hi issue
    using that by (simp add: reading_onboard_def dynamo_AllowList_def piriRecords_def recorded allow)
  have fail: "yields P (failE e)" for P :: "'w onboard_deps \<Rightarrow> bool" and e by (simp add: yields_def failE_def)
  show ?thesis unfolding onboardDeps_def Let_def
    by (auto intro!: fail yields_bindE yields_returnE yields_bind [OF yields_sprue] yields_bind [OF yields_hilt] clients
        split: prod.split)
qed

lemma keeps_onboardPhase:
  assumes "\<not> rq_Confirm req"
  shows "keeps R (onboardPhase walk pages (pe_onboard env) (newDeps env cfg c) req)"
proof -
  have body: "keeps R (bindE (onboardDeps pages (pe_onboard env) (newDeps env cfg c)) (\<lambda>odeps.
      bindE (Read odeps oreq) (\<lambda>state. if \<not> rq_Confirm req then returnE (dry state) else confirmed odeps state)))"
    for oreq and dry :: "onboard_state \<Rightarrow> response" and confirmed
    by (rule keeps_bind_yields [OF order keeps_onboardDeps yields_onboardDeps])
      (auto intro!: reads keeps_Read simp: assms)
  have region: "keeps R (requireProvisionedRegion (newDeps env cfg c) r)" for r
    unfolding requireProvisionedRegion_def by (auto intro!: reads keeps_new_stores)
  show ?thesis unfolding onboardPhase_def Let_def
    by (intro keeps_case_option keeps_thenE keeps_bindE keeps_mapErr keeps_sumE keeps_failE order aws region body)
qed

end

text \<open>The events that may write: the two phases that have no dry run, and the confirmed ones.\<close>

definition may_write :: "(string \<Rightarrow> string) \<Rightarrow> provision_request \<Rightarrow> bool" where
  "may_write getenv req \<longleftrightarrow>
     rq_Phase req \<in> {''seed'', ''vault''}
     \<or> rq_Confirm req \<and> (rq_Phase req \<in> {''fund'', ''appliance-token'', ''onboard'', ''retire''}
          \<or> rq_Phase req = ''reset-apps'' \<and> getenv ''FORGE_STAGE'' \<in> set resettableStages)"

lemma loadConfig_stage: "loadConfig walk getenv = Inr cfg \<Longrightarrow> cfg_Stage cfg = getenv ''FORGE_STAGE''"
  by (auto simp: loadConfig_def config_from_def Let_def split: sum.splits if_splits)

context read_only
begin

lemma keeps_run_phase:
  assumes "\<not> may_write getenv req" "cfg_Stage cfg = getenv ''FORGE_STAGE''"
  shows "keeps R (run_phase walk pages depth env (newDeps env cfg c) req)"
proof -
  have other: "rq_Phase req \<noteq> ''seed''" "rq_Phase req \<noteq> ''vault''" using assms(1) by (auto simp: may_write_def)
  have dry: "rq_Phase req = p \<Longrightarrow> p \<in> {''fund'', ''appliance-token'', ''onboard'', ''retire''} \<Longrightarrow> \<not> rq_Confirm req" for p
    using assms(1) unfolding may_write_def by blast
  have reset: "rq_Phase req = ''reset-apps'' \<Longrightarrow> rq_Confirm req \<Longrightarrow> cfg_Stage cfg \<notin> set resettableStages"
    using assms unfolding may_write_def by simp
  show ?thesis unfolding run_phase_def if_not_P [OF other(1)] if_not_P [OF other(2)]
    by (intro keeps_if keeps_fundPhase keeps_applianceToken keeps_onboardPhase keeps_retirePhase keeps_resetAppsPhase
        keeps_failE order; (erule dry, simp | erule reset, assumption))
qed

lemma keeps_handle:
  assumes "\<not> may_write getenv req"
  shows "keeps R (handle walk pages depth getenv env req)"
  unfolding handle_def
  by (intro keeps_sum_bind keeps_bindE keeps_mapErr order aws keeps_run_phase [OF assms] loadConfig_stage)

end

section \<open>A world that logs its writes\<close>

text \<open>
  Every library answers its reads from what it is given and notes each writing call. SSM holds \<open>held\<close>,
  every secret of Secrets Manager is \<open>key\<close>, and the chain, OpenBao and Postgres answer the same to all.
\<close>

type_synonym write_log = "string list"

definition noted :: "string \<Rightarrow> 'a \<Rightarrow> (write_log, 'a) act" where
  "noted call a log = (Ok a, log @ [call])"

definition log_ssm :: "(string, string) go_map \<Rightarrow> write_log ssm_api" where
  "log_ssm held =
     \<lparr>GetParameter = (\<lambda>p _. case map_of held p of None \<Rightarrow> failE (Dep ParameterNotFound ''ParameterNotFound: '') | Some v \<Rightarrow> returnE v),
      PutParameter = (\<lambda>p _ _ _. noted p ()), GetParametersByPath = (\<lambda>_ _. returnE ([], None)),
      DeleteParameters = (\<lambda>ns. noted ''DeleteParameters'' ())\<rparr>"

definition log_secrets :: "string \<Rightarrow> write_log secrets_api" where
  "log_secrets key =
     \<lparr>GetSecretValue = (\<lambda>i. returnE (key, i)), CreateSecret = (\<lambda>n _. noted n n), PutSecretValue = (\<lambda>n _. noted n n)\<rparr>"

definition log_bao :: "bao_secret option \<Rightarrow> write_log bao_api" where
  "log_bao answer =
     \<lparr>bao_NewClient = (\<lambda>addr. returnE \<lparr>bc_Address = addr, bc_Token = [], bc_WrapTTL = []\<rparr>), bao_Clone = returnE,
      bao_Read = (\<lambda>_ _. returnE answer), bao_List = (\<lambda>_ _. returnE answer), bao_Write = (\<lambda>_ p _. noted p None),
      bao_Delete = (\<lambda>_ p. noted p ()), bao_SealStatus = (\<lambda>_. returnE \<lparr>bh_Initialized = True, bh_Sealed = False\<rparr>),
      bao_InitStatus = (\<lambda>_. returnE True), bao_Init = (\<lambda>_ _ _. noted ''Init'' ([], [])), bao_ListMounts = (\<lambda>_. returnE []),
      bao_Mount = (\<lambda>_ p _ _. noted p ()), bao_ListAuth = (\<lambda>_. returnE []), bao_EnableAuth = (\<lambda>_ p _. noted p ()),
      bao_PutPolicy = (\<lambda>_ n _. noted n ()), bao_DeletePolicy = (\<lambda>_ n. noted n ()),
      bao_LookupAccessor = (\<lambda>_ _. returnE answer), bao_RevokeAccessor = (\<lambda>_ a. noted a ()),
      bao_DeleteMetadata = (\<lambda>_ _ p. noted p ())\<rparr>"

definition log_eth :: "int \<Rightarrow> int \<Rightarrow> (write_log, unit, unit, string, unit) eth_api" where
  "log_eth chain balance =
     \<lparr>DialContext = (\<lambda>_. returnE ()), eth_Close = (\<lambda>_ w. w), eth_ChainID = (\<lambda>_. returnE chain),
      contract_Call = (\<lambda>_ _ _ _ _. returnE [balance]), contract_Transact = (\<lambda>_ _ _ _ m _. noted m m),
      WaitMined = (\<lambda>_ _. returnE \<lparr>rc_Status = 1, rc_BlockNumber = 1\<rparr>)\<rparr>"

definition plain_eth_lib :: "(unit, string, unit) eth_lib" where
  "plain_eth_lib =
     \<lparr>HexToECDSA = (\<lambda>_. Inr ()), PubkeyToAddress = (\<lambda>_. ''0xpayer''), HexToAddress = (\<lambda>a. a), addr_Hex = (\<lambda>a. a),
      abi_JSON = (\<lambda>_. Inr ()), transactor_error = (\<lambda>_ _. None)\<rparr>"

definition log_querier :: "write_log querier" where
  "log_querier =
     \<lparr>qr_QueryText = (\<lambda>_ _. failE (Dep ErrNoRows ''no rows in result set'')), qr_QueryCount = (\<lambda>_ _. returnE 0),
      qr_Query = (\<lambda>_ _. returnE ([], None))\<rparr>"

definition log_conn :: "write_log pgx_conn" where
  "log_conn =
     \<lparr>px_querier = log_querier,
      px_db = \<lparr>pg_Exec = (\<lambda>sql. noted sql ()), pg_QueryBool = (\<lambda>_ _. returnE True),
        pg_QueryText = (\<lambda>_ _. returnE ''owner''), pg_Sanitize = (\<lambda>n. n)\<rparr>,
      px_Begin = returnE \<lparr>tx_querier = log_querier, tx_Exec = (\<lambda>sql _. noted sql 1), tx_Commit = noted ''commit'' (),
        tx_Rollback = (\<lambda>w. w)\<rparr>,
      px_Close = (\<lambda>w. w)\<rparr>"

definition plain_signers :: "(write_log, string) signer_lib" where
  "plain_signers =
     \<lparr>ed25519_Generate = returnE ''signer'', DecodeSignerFromPEM = Inr, EncodeSignerToPEM = Inr,
      FormatSigner = (\<lambda>s. s), signer_DID = (\<lambda>s. ''did:key:'' @ s)\<rparr>"

definition plain_delegate :: "write_log delegate_lib" where
  "plain_delegate =
     \<lparr>IssueFromPEM = (\<lambda>_ _. returnE \<lparr>ut_IsText = True, ut_Bytes = [], ut_Text = Inr ''proof''\<rparr>), dg_Commands = (\<lambda>_. Inr [])\<rparr>"

definition log_seed :: "(write_log, string, string) seed_env" where
  "log_seed =
     \<lparr>se_signers = plain_signers,
      se_wallets = \<lparr>secec_GenerateKey = returnE ''key'', secec_NewPrivateKey = Inr, secec_Bytes = (\<lambda>k. k),
        secec_PublicKey = (\<lambda>k. k), keccak256 = (\<lambda>k. k)\<rparr>,
      se_rand = (\<lambda>n. returnE (replicate n CHR 0x07)), se_delegate = plain_delegate, se_connect = (\<lambda>_. returnE log_conn)\<rparr>"

definition log_onboard :: "(write_log, string, string, string, string, string) onboard_env" where
  "log_onboard =
     \<lparr>oe_LoadDefaultConfig = returnE (),
      oe_dynamo = \<lparr>da_GetItem = (\<lambda>_ _. returnE []), da_PutItem = (\<lambda>t _. noted t ()), da_Now = (\<lambda>_. ''now'')\<rparr>,
      oe_ucan = \<lparr>did_Parse = Inr, did_String = (\<lambda>s. s), container_Decode = Inr\<rparr>, oe_signers = plain_signers,
      oe_delegate = plain_delegate, oe_NewIssuer = (\<lambda>did _. did), oe_url_Parse = Inr,
      oe_sprueclient_New = (\<lambda>_ _ _. Inr \<lparr>AdminProviderList = returnE None, AdminProviderRegister = (\<lambda>d _ _. noted d ()),
        AdminProviderProofsSet = (\<lambda>d _. noted d ()), AdminProviderWeightSet = (\<lambda>d _ _. noted d ())\<rparr>),
      oe_NewAdminClient = (\<lambda>_ _. Inr \<lparr>hilt_ListProviders = returnE [], hilt_AddProvider = (\<lambda>d _ _. noted d ()),
        hilt_SetProviderNodes = (\<lambda>d _. noted d ())\<rparr>)\<rparr>"

definition log_env ::
  "(string, string) go_map \<Rightarrow> string \<Rightarrow> bao_secret option \<Rightarrow> int \<Rightarrow> int
    \<Rightarrow> (write_log, unit, string, string, string, string, string, string, unit, unit, string, unit) provision_env" where
  "log_env held key answer chain balance =
     \<lparr>pe_LoadDefaultConfig = returnE (), pe_ssm = (\<lambda>_. log_ssm held), pe_secrets = (\<lambda>_. log_secrets key),
      pe_seed = log_seed, pe_bao = log_bao answer, pe_clock = \<lparr>ck_Now = (\<lambda>_. 0), ck_Sleep = (\<lambda>_ w. w)\<rparr>, pe_ctx = None,
      pe_eth = log_eth chain balance, pe_eth_lib = plain_eth_lib, pe_parseDuration = (\<lambda>_. Inr ()), pe_onboard = log_onboard\<rparr>"

lemma unlogged: "world_order (\<lambda>w w' :: write_log. w' = w)"
  by (rule world_order_eq)

interpretation log: read_only "\<lambda>w w'. w' = w" "log_env held key answer chain balance"
  by unfold_locales
    (auto intro!: keeps_intros unlogged
      simp: log_env_def log_ssm_def log_secrets_def log_bao_def log_eth_def log_onboard_def log_seed_def
        log_conn_def log_querier_def reading_conn_def yields_def returnE_apply failE_apply keeps_def unlogged split: option.split)

section \<open>Properties\<close>

text \<open>
  C9. An event that does not ask for a change makes none. Whatever the libraries answer, a run of the
  handler only reads, unless the event names one of the two phases without a dry run, or is confirmed.
  A confirmed reset of the apps still only reads on a stage that may not be reset, and so does an
  event whose phase is unknown.
\<close>

theorem dry_run_writes_nothing:
  assumes "read_only R env" "\<not> may_write getenv req"
  shows "keeps R (handle walk pages depth getenv env req)"
  using assms by (rule read_only.keeps_handle)

definition dry_retire :: provision_request where
  "dry_retire = (event_of ''retire'')\<lparr>rq_Region := ''west''\<rparr>"

theorem dry_run_writes_nothing_witness:
  "snd (handle rev 1 5 test_env (log_env [(''/forge-central/dev/hilt/postgres-dsn'', ''dsn'')] ''key'' None 314159 0) dry_retire []) = []"
proof -
  have "\<not> may_write test_env dry_retire" by (simp add: may_write_def dry_retire_def event_of_def)
  from dry_run_writes_nothing [OF log.read_only_axioms this] show ?thesis by (simp add: keeps_def)
qed

end
