(* ===== verification/Returns.thy ===== *)
theory Returns
imports DryRun
begin

text \<open>
  The handler returns: no phase loops or panics, whatever the event, the configuration and the answers of the
  libraries, as long as each call of a library returns (\<open>returning\<close>).
\<close>

section \<open>Frames of actions that return\<close>

lemma framed_case_stored_proof:
  "framed R k \<Longrightarrow> framed R s \<Longrightarrow> framed R r \<Longrightarrow> framed R (case p of KeepProof \<Rightarrow> k | StampProof \<Rightarrow> s | ReissueProof \<Rightarrow> r)"
  by (cases p) simp_all

lemma framed_case_json:
  assumes "framed R n" "\<And>b. framed R (fb b)" "\<And>l. framed R (fn l)" "\<And>s. v = JStr s \<Longrightarrow> framed R (fs s)" "\<And>vs. framed R (fa vs)"
    "\<And>ms. framed R (fo ms)"
  shows "framed R (case v of JNull \<Rightarrow> n | JBool b \<Rightarrow> fb b | JNum l \<Rightarrow> fn l | JStr s \<Rightarrow> fs s | JArr vs \<Rightarrow> fa vs | JObj ms \<Rightarrow> fo ms)"
  using assms by (cases v) simp_all

section \<open>The libraries return\<close>

definition returning_querier :: "('w \<Rightarrow> 'w \<Rightarrow> bool) \<Rightarrow> 'w querier \<Rightarrow> bool" where
  "returning_querier R q \<longleftrightarrow>
     (\<forall>sql a. framed R (qr_QueryText q sql a)) \<and> (\<forall>sql a. framed R (qr_QueryCount q sql a)) \<and> (\<forall>sql a. framed R (qr_Query q sql a))"

definition returning_tx :: "('w \<Rightarrow> 'w \<Rightarrow> bool) \<Rightarrow> 'w pgx_tx \<Rightarrow> bool" where
  "returning_tx R tx \<longleftrightarrow> returning_querier R (tx_querier tx) \<and> (\<forall>sql a. framed R (tx_Exec tx sql a))
     \<and> framed R (tx_Commit tx) \<and> (\<forall>w. R w (tx_Rollback tx w))"

definition returning_conn :: "('w \<Rightarrow> 'w \<Rightarrow> bool) \<Rightarrow> 'w pgx_conn \<Rightarrow> bool" where
  "returning_conn R conn \<longleftrightarrow> returning_querier R (px_querier conn)
     \<and> (\<forall>sql. framed R (pg_Exec (px_db conn) sql)) \<and> (\<forall>sql n. framed R (pg_QueryBool (px_db conn) sql n))
     \<and> (\<forall>sql n. framed R (pg_QueryText (px_db conn) sql n))
     \<and> framed R (px_Begin conn) \<and> yields (returning_tx R) (px_Begin conn) \<and> (\<forall>w. R w (px_Close conn w))"

lemma returning_querierD:
  assumes "returning_querier R q"
  shows "framed R (qr_QueryText q sql a)" "framed R (qr_QueryCount q sql a)" "framed R (qr_Query q sql a)"
  using assms by (simp_all add: returning_querier_def)

lemma returning_txD:
  assumes "returning_tx R tx"
  shows "returning_querier R (tx_querier tx)" "framed R (tx_Exec tx sql a)" "framed R (tx_Commit tx)" "R w (tx_Rollback tx w)"
  using assms by (simp_all add: returning_tx_def)

lemma returning_connD:
  assumes "returning_conn R conn"
  shows "returning_querier R (px_querier conn)" "framed R (pg_Exec (px_db conn) sql)" "framed R (pg_QueryBool (px_db conn) sql n)"
    "framed R (pg_QueryText (px_db conn) sql n)" "framed R (px_Begin conn)" "yields (returning_tx R) (px_Begin conn)" "R w (px_Close conn w)"
  using assms by (simp_all add: returning_conn_def)

definition returning_sprue :: "('w \<Rightarrow> 'w \<Rightarrow> bool) \<Rightarrow> 'w sprue_admin \<Rightarrow> bool" where
  "returning_sprue R s \<longleftrightarrow> (\<forall>d. framed R (sa_Provider s d)) \<and> (\<forall>d e p. framed R (sa_Register s d e p))
     \<and> (\<forall>d p. framed R (sa_SetProofs s d p)) \<and> (\<forall>d x y. framed R (sa_SetWeight s d x y))"

definition returning_hilt :: "('w \<Rightarrow> 'w \<Rightarrow> bool) \<Rightarrow> 'w hilt_admin \<Rightarrow> bool" where
  "returning_hilt R h \<longleftrightarrow> (\<forall>d. framed R (ha_Provider h d)) \<and> (\<forall>d r ns. framed R (ha_AddProvider h d r ns))
     \<and> (\<forall>d ns. framed R (ha_SetProviderNodes h d ns))"

definition returning_onboard :: "('w \<Rightarrow> 'w \<Rightarrow> bool) \<Rightarrow> 'w onboard_deps \<Rightarrow> bool" where
  "returning_onboard R deps \<longleftrightarrow>
     (\<forall>d. framed R (al_Has (od_AllowList deps) d)) \<and> (\<forall>d. framed R (al_Add (od_AllowList deps) d))
     \<and> returning_sprue R (od_Sprue deps) \<and> returning_hilt R (od_Hilt deps) \<and> (\<forall>r i. framed R (od_IssueProof deps r i))
     \<and> (\<forall>r. framed R (pc_Recorded (od_PiriRecord deps) r)) \<and> (\<forall>r d. framed R (pc_Record (od_PiriRecord deps) r d))"

lemma returning_onboardD:
  assumes "returning_onboard R deps"
  shows "framed R (al_Has (od_AllowList deps) did)" "framed R (al_Add (od_AllowList deps) did)"
    "framed R (sa_Provider (od_Sprue deps) did)" "framed R (sa_Register (od_Sprue deps) did e p)" "framed R (sa_SetProofs (od_Sprue deps) did p)"
    "framed R (sa_SetWeight (od_Sprue deps) did x y)" "framed R (ha_Provider (od_Hilt deps) did)"
    "framed R (ha_AddProvider (od_Hilt deps) did r ns)" "framed R (ha_SetProviderNodes (od_Hilt deps) did ns)"
    "framed R (od_IssueProof deps r i)" "framed R (pc_Recorded (od_PiriRecord deps) r)" "framed R (pc_Record (od_PiriRecord deps) r did)"
  using assms by (simp_all add: returning_onboard_def returning_sprue_def returning_hilt_def)

text \<open>
  Every call returns a value or an error and leaves the world related to the one before. SSM's pages come to
  an end within \<open>pages\<close>, hilt's folders nest less than \<open>depth\<close> deep, the clock of the waits goes on, the hash has its
  32 bytes, and the two view methods of the contracts have an output.
\<close>

locale returning = bao_waits "pe_clock env" "pe_bao env" health
  for env :: "('w, 'aws, 's, 'k, 'd, 'c, 'i, 'u, 'ec, 'ek, 'ea, 'eb) provision_env" and health +
  fixes R :: "'w \<Rightarrow> 'w \<Rightarrow> bool" and pages depth :: nat
    and left :: "string \<Rightarrow> string option \<Rightarrow> nat" and nest :: "string \<Rightarrow> nat"
  assumes order: "world_order R"
    and aws: "framed R (pe_LoadDefaultConfig env)" "framed R (oe_LoadDefaultConfig (pe_onboard env))"
    and ssm: "framed R (GetParameter (pe_ssm env c) p dec)" "framed R (PutParameter (pe_ssm env c) p v t ow)"
      "framed R (GetParametersByPath (pe_ssm env c) p tok)" "framed R (DeleteParameters (pe_ssm env c) ns)"
    and turns: "GetParametersByPath (pe_ssm env c) path tok w = (Ok (ps, Some next), w') \<Longrightarrow> left path (Some next) < left path tok"
      "left path None < pages"
    and secrets: "framed R (GetSecretValue (pe_secrets env c) i)" "framed R (CreateSecret (pe_secrets env c) i v)"
      "framed R (PutSecretValue (pe_secrets env c) i v)"
    and seed: "framed R (ed25519_Generate (se_signers (pe_seed env)))" "framed R (secec_GenerateKey (se_wallets (pe_seed env)))"
      "framed R (se_rand (pe_seed env) n)" "framed R (IssueFromPEM (se_delegate (pe_seed env)) pem ur)"
    and hash: "length (keccak256 (se_wallets (pe_seed env)) b) = 32"
    and connect: "framed R (se_connect (pe_seed env) dsn)" "yields (returning_conn R) (se_connect (pe_seed env) dsn)"
    and bao: "framed R (bao_NewClient (pe_bao env) addr)" "framed R (bao_Clone (pe_bao env) bc)" "framed R (bao_Read (pe_bao env) bc path)"
      "framed R (bao_List (pe_bao env) bc path)" "framed R (bao_Write (pe_bao env) bc path fs)" "framed R (bao_Delete (pe_bao env) bc path)"
      "framed R (bao_SealStatus (pe_bao env) bc)" "framed R (bao_InitStatus (pe_bao env) bc)" "framed R (bao_Init (pe_bao env) bc k l)"
      "framed R (bao_ListMounts (pe_bao env) bc)" "framed R (bao_Mount (pe_bao env) bc path typ opts)" "framed R (bao_ListAuth (pe_bao env) bc)"
      "framed R (bao_EnableAuth (pe_bao env) bc path typ)" "framed R (bao_PutPolicy (pe_bao env) bc path typ)"
      "framed R (bao_DeletePolicy (pe_bao env) bc path)" "framed R (bao_LookupAccessor (pe_bao env) bc path)"
      "framed R (bao_RevokeAccessor (pe_bao env) bc path)" "framed R (bao_DeleteMetadata (pe_bao env) bc typ path)"
    and sleeps: "R w (ck_Sleep (pe_clock env) n w)"
    and folders: "bao_List (pe_bao env) bc (HiltMount @ ''/metadata/'' @ folder) w = (Ok (Some r), w') \<Longrightarrow> data_list r ''keys'' = Some keys
        \<Longrightarrow> JStr key \<in> set keys \<Longrightarrow> has_suffix key ''/'' \<Longrightarrow> nest (folder @ key) < nest folder"
      "nest hiltSecretsRoot < depth"
    and eth: "framed R (DialContext (pe_eth env) url)" "framed R (eth_ChainID (pe_eth env) ec)"
      "framed R (contract_Call (pe_eth env) ec a abi m args)" "framed R (contract_Transact (pe_eth env) auth ec a abi m args)"
      "framed R (WaitMined (pe_eth env) ec tx)" "R w (eth_Close (pe_eth env) ec w)"
    and outputs: "m \<in> {''balanceOf'', ''accounts''} \<Longrightarrow> yields (\<lambda>out. out \<noteq> []) (contract_Call (pe_eth env) ec a abi m args)"
    and dynamo: "framed R (da_GetItem (oe_dynamo (pe_onboard env)) tbl did)" "framed R (da_PutItem (oe_dynamo (pe_onboard env)) tbl item)"
    and proofs: "framed R (IssueFromPEM (oe_delegate (pe_onboard env)) pem ur)"
    and sprue: "oe_sprueclient_New (pe_onboard env) sd u iss = Inr s \<Longrightarrow> framed R (AdminProviderList s)"
      "oe_sprueclient_New (pe_onboard env) sd u iss = Inr s \<Longrightarrow> framed R (AdminProviderRegister s pd e cont)"
      "oe_sprueclient_New (pe_onboard env) sd u iss = Inr s \<Longrightarrow> framed R (AdminProviderProofsSet s pd cont)"
      "oe_sprueclient_New (pe_onboard env) sd u iss = Inr s \<Longrightarrow> framed R (AdminProviderWeightSet s pd x y)"
    and hilt: "oe_NewAdminClient (pe_onboard env) iss u = Inr h \<Longrightarrow> framed R (hilt_ListProviders h)"
      "oe_NewAdminClient (pe_onboard env) iss u = Inr h \<Longrightarrow> framed R (hilt_AddProvider h pd region nodes)"
      "oe_NewAdminClient (pe_onboard env) iss u = Inr h \<Longrightarrow> framed R (hilt_SetProviderNodes h pd nodes)"
begin

lemmas returns = framed_intros framed_case_list framed_case_stored_proof order aws ssm secrets seed connect(1) bao eth dynamo proofs

lemmas conn_returns = returning_connD [of R] returning_querierD [of R] returning_txD [of R]

text \<open>The stores.\<close>

abbreviation the_store :: "config \<Rightarrow> 'aws \<Rightarrow> 'w ssm_store" where
  "the_store cfg c \<equiv> dp_store (newDeps env cfg c)"

lemma new_stores [simp]: "ssm_client (the_store cfg c) = pe_ssm env c" "sec_client (dp_keys (newDeps env cfg c)) = pe_secrets env c"
  "dp_secrets (newDeps env cfg c) = pe_secrets env c" "dp_cfg (newDeps env cfg c) = cfg"
  by (simp_all add: newDeps_def)

lemma framed_ssm: "framed R (ssm_get (the_store cfg c) p dec)" "framed R (ssm_put (the_store cfg c) p v t ow)"
  "framed R gen \<Longrightarrow> framed R (ensure (the_store cfg c) service name t gen)"
  "framed R (delete_batches (the_store cfg c) service names)"
proof -
  show get: "framed R (ssm_get (the_store cfg c) p dec)" for p dec unfolding ssm_get_def new_stores by (intro returns)
  show put: "framed R (ssm_put (the_store cfg c) p v t ow)" for p v t ow unfolding ssm_put_def new_stores by (intro returns)
  show "framed R (ensure (the_store cfg c) service name t gen)" if "framed R gen"
    unfolding ensure_def Let_def by (intro returns get put that)
  show "framed R (delete_batches (the_store cfg c) service names)"
    unfolding delete_batches_def new_stores by (intro returns)
qed

lemma framed_pages: "left path tok < fuel \<Longrightarrow> framed R (params_by_path fuel (the_store cfg c) path tok found)"
proof (induction fuel arbitrary: tok found)
  case (Suc fuel)
  have "yields (\<lambda>(ps, next). \<forall>t. next = Some t \<longrightarrow> left path (Some t) < fuel) (GetParametersByPath (pe_ssm env c) path tok)"
    unfolding yields_def using turns(1) Suc.prems by fastforce
  then show ?case unfolding params_by_path.simps new_stores
    by (intro framed_bind_yields [OF order framed_mapErr [OF ssm(3)] yields_mapErr], assumption)
      (auto simp: framed_pure order Suc.IH split: option.split)
qed simp

lemma framed_stores:
  "framed R (GetSecret (the_store cfg c) service name)" "framed R (LookupPublic (the_store cfg c) service name)"
  "framed R (LookupSecret (the_store cfg c) service name)" "framed R (PutPublic (the_store cfg c) service name v)"
  "framed R (PutSecret (the_store cfg c) service name v)" "framed R (Delete (the_store cfg c) service names)"
  "framed R (ListPublic pages (the_store cfg c) service name)" "framed R (DeletePrefix pages (the_store cfg c) service)"
  "framed R gen \<Longrightarrow> framed R (EnsurePublic (the_store cfg c) service name gen)"
  "framed R gen \<Longrightarrow> framed R (EnsureSecret (the_store cfg c) service name gen)"
  unfolding GetSecret_def LookupPublic_def LookupSecret_def PutPublic_def PutSecret_def Delete_def present_step_def
    ListPublic_def DeletePrefix_def EnsurePublic_def EnsureSecret_def Let_def new_stores
  by (intro returns framed_ssm framed_pages turns(2); assumption?)+

lemma framed_secrets:
  "framed R (sec_Lookup (dp_keys (newDeps env cfg c)) service name)" "framed R (sec_Get (dp_keys (newDeps env cfg c)) service name)"
  "framed R (sec_Create (dp_keys (newDeps env cfg c)) service name v)" "framed R (PutIfChanged (dp_keys (newDeps env cfg c)) service name v)"
  unfolding PutIfChanged_def sec_Create_def sec_Get_def sec_Lookup_def sec_get_def new_stores Let_def by (intro returns)+


text \<open>Postgres.\<close>

lemma framed_dbinit:
  assumes "returning_conn R conn"
  shows "framed R (dbinit_Ensure (px_db conn) dbs)" "framed R (dbinit_Drop (px_db conn) n)" "framed R (Existing (px_db conn) names)"
  unfolding dbinit_Ensure_def ensureOne_def ensureLoginRole_def ensureSettings_def unlessDuplicate_def dbinit_Drop_def Existing_def Let_def
  by (intro returns returning_connD [OF assms])+

lemma framed_connectAsMaster:
  "framed R (connectAsMaster (se_connect (pe_seed env)) (newDeps env cfg c) target)"
  "yields (returning_conn R) (connectAsMaster (se_connect (pe_seed env)) (newDeps env cfg c) target)"
  unfolding connectAsMaster_def masterCredentials_def Let_def new_stores
  by (intro returns) (intro yields_bindE yields_case_prod yields_mapErr connect(2))

lemma framed_with_master:
  assumes "\<And>conn. returning_conn R conn \<Longrightarrow> framed R (f conn)"
  shows "framed R (bindE (connectAsMaster (se_connect (pe_seed env)) (newDeps env cfg c) target) (\<lambda>conn. deferE (px_Close conn) (f conn)))"
  by (rule framed_bind_yields [OF order framed_connectAsMaster])
    (intro framed_deferE order assms conn_returns)

lemma framed_with_dsn:
  assumes "\<And>conn. returning_conn R conn \<Longrightarrow> framed R (f conn)"
  shows "framed R (bindE (mapErr g (se_connect (pe_seed env) dsn)) (\<lambda>conn. deferE (px_Close conn) (f conn)))"
  by (rule framed_bind_yields [OF order framed_mapErr [OF connect(1)] yields_mapErr [OF connect(2)]])
    (intro framed_deferE order assms conn_returns)

text \<open>Seeding.\<close>

lemma framed_seed_key:
  assumes "framed R gen" "legacyNames spec \<noteq> []"
  shows "framed R (seed_key (newDeps env cfg c) spec gen)"
proof -
  obtain n ns where names: "legacyNames spec = n # ns" using assms(2) by (cases "legacyNames spec") auto
  show ?thesis
    unfolding seed_key_def ensureKey_def checkPublicRecord_def Let_def names list.case secrets_keyStore_def ssm_legacyStore_def
      keyStore.select_convs legacyStore.select_convs
    by (intro returns framed_stores framed_secrets assms(1))
qed

lemma framed_IssueProof: "framed R (IssueProof (se_delegate (pe_seed env)) pem p)" "framed R (IssueProof (oe_delegate (pe_onboard env)) pem p)"
  unfolding IssueProof_def Let_def by (intro returns)+

lemma framed_RandomHex: "framed R (RandomHex (se_rand (pe_seed env)))"
  unfolding RandomHex_def by (intro returns)

lemma framed_seed_steps:
  "framed R (seedIdentities (pe_seed env) (newDeps env cfg c) s)" "framed R (seedProofs (pe_seed env) (newDeps env cfg c) fresh resp)"
  "framed R (seedWallets (pe_seed env) (newDeps env cfg c) s)" "framed R (seedRandomSecrets (pe_seed env) (newDeps env cfg c) resp)"
  unfolding seedIdentities_def seed_identity_def GenerateIdentity_def publish_def seedProofs_def seed_proof_def
    seedWallets_def seed_wallet_def GenerateEVMWallet_def seedRandomSecrets_def seed_random_secret_def Let_def
  by (intro returns framed_seed_key framed_stores framed_secrets framed_IssueProof framed_RandomHex wallet_returns [OF hash]
      | simp add: identitySpec_def wallet_keySpec_def)+

lemma framed_seedPhase: "framed R (seedPhase walk (pe_seed env) (newDeps env cfg c))"
proof -
  have password: "framed R (ensure_password (pe_seed env) (newDeps env cfg c) label service resp)" for label service resp
    unfolding ensure_password_def by (intro returns framed_stores framed_RandomHex)
  have roles: "framed R ((case x of (name, settings) \<Rightarrow> f name settings) acc)"
    if "\<And>name settings acc. framed R (f name settings acc)" for x acc and f :: "string \<Rightarrow> setting list \<Rightarrow> 'acc \<Rightarrow> ('w, 'acc) act"
    using that by (cases x) simp
  have databases: "framed R (ensureDatabases (se_connect (pe_seed env)) (newDeps env cfg c) target dbs)" for target dbs
    unfolding ensureDatabases_def by (rule framed_with_master [OF framed_dbinit(1)])
  have moved: "framed R (deleteMovedKeys (ssm_legacyStore (the_store cfg c)) specs)" for specs
    unfolding deleteMovedKeys_def ssm_legacyStore_def legacyStore.select_convs by (intro returns framed_stores)
  show ?thesis
    unfolding seedPhase_def seedDatabasePasswords_def createDatabases_def storeConnectionStrings_def store_connection_def seedPandora_def Let_def
    by (intro returns framed_seed_steps password databases moved framed_stores roles)
qed


text \<open>OpenBao.\<close>

lemma framed_wait: "framed R (wait_unsealed (pe_clock env) (pe_bao env) ctx budget bc)"
proof (rule framed_from_keeps)
  have select: "keeps R (select_after (pe_clock env) ctx n)" for ctx n
    by (simp add: keeps_def select_after_def sleeps split: option.split)
  have seal: "keeps R (bao_SealStatus (pe_bao env) bc)" using bao(7) framed_keeps by blast
  have "keeps R (WaitForUnsealed fuel (pe_clock env) (pe_bao env) ctx bc)" for fuel ctx
    by (induction fuel) (auto intro!: keeps_intros order seal select simp: Let_def)
  then show "keeps R (wait_unsealed (pe_clock env) (pe_bao env) ctx budget bc)" by (simp add: keeps_def wait_unsealed_def)
  show "wp (wait_unsealed (pe_clock env) (pe_bao env) ctx budget bc) (\<lambda>_ _. True) (\<lambda>_ _. True) w" for w
    by (rule wp_wait_unsealed, rule wp_weaken [OF wp_wait])
      (auto simp: WithTimeout_def Let_def wait_fuel_def wait_interval_def split: option.split)
qed

lemma framed_bao:
  "framed R (EnsureInitialised (pe_bao env) bc)" "framed R (EnsureMounts (pe_bao env) bc)" "framed R (EnsureHiltAppRole (pe_bao env) bc cidrs)"
  "framed R (SecretIDValid (pe_bao env) bc v)" "framed R (IssueSecretID (pe_bao env) bc)" "framed R (EnsureApplianceTransitKeys (pe_bao env) bc regions)"
  "framed R (RemoveApplianceTransitKey (pe_bao env) bc region)" "framed R (ApplianceRegions (pe_bao env) bc)"
  "framed R (EnsureApplianceTokenRole (pe_bao env) bc tc)" "framed R (RevokeTokenByAccessor (pe_bao env) bc v)" "framed R (TokenLive (pe_bao env) bc v)"
  "framed R (RemoveApplianceTokenRole (pe_bao env) bc region)" "framed R (DestroyHiltSecret (pe_bao env) bc v)"
  unfolding EnsureInitialised_def EnsureMounts_def EnsureHiltAppRole_def SecretIDValid_def IssueSecretID_def EnsureApplianceTransitKeys_def
    ensure_transit_key_def RemoveApplianceTransitKey_def ApplianceRegions_def EnsureApplianceTokenRole_def RevokeTokenByAccessor_def
    TokenLive_def RemoveApplianceTokenRole_def DestroyHiltSecret_def Let_def
  by (intro returns)+

lemma framed_mint: "framed R (MintApplianceToken (pe_bao env) bc tc ttl)"
  unfolding MintApplianceToken_def refuseUnwrappedToken_def Let_def by (intro returns framed_bao)

lemma framed_folders: "nest folder < fuel \<Longrightarrow> framed R (listHiltSecrets fuel (pe_bao env) bc folder)"
proof (induction fuel arbitrary: folder)
  case (Suc fuel)
  let ?ok = "\<lambda>resp. \<forall>r keys key. resp = Some r \<longrightarrow> data_list r ''keys'' = Some keys \<longrightarrow> JStr key \<in> set keys \<longrightarrow> has_suffix key ''/''
      \<longrightarrow> nest (folder @ key) < fuel"
  have listed: "yields ?ok (bao_List (pe_bao env) bc (HiltMount @ ''/metadata/'' @ folder))"
    unfolding yields_def using folders(1) Suc.prems by fastforce
  show ?case unfolding listHiltSecrets.simps
  proof (rule framed_bind_yields [OF order framed_mapErr [OF bao(4)] yields_mapErr [OF listed]], goal_cases)
    case (1 resp)
    then have deeper: "nest (folder @ key) < fuel"
      if "(case resp of None \<Rightarrow> None | Some r \<Rightarrow> (case sc_Data r of None \<Rightarrow> None | Some _ \<Rightarrow> Some r)) = Some r" "data_list r ''keys'' = Some keys"
        "raw \<in> set keys" "raw = JStr key" "has_suffix key ''/''" for r keys raw key
      using that by (auto split: option.splits)
    show ?case
      by (intro framed_case_option_eq framed_foldE framed_case_json framed_cases(1) framed_bindE framed_pure order Suc.IH)
        (rule deeper; assumption)
  qed
qed simp


lemma framed_ListHiltSecrets: "framed R (ListHiltSecrets depth (pe_bao env) bc)"
  unfolding ListHiltSecrets_def by (rule framed_folders [OF folders(2)])

lemma framed_vaultPhase: "framed R (vaultPhase pages (pe_clock env) (pe_bao env) ctx (newDeps env cfg c) req)"
  unfolding vaultPhase_def ensureRootToken_def ensureHiltSecretID_def reconcileApplianceKeys_def retire_each_def retireAppliance_def Let_def
  by (intro returns framed_stores framed_wait framed_bao)

lemma framed_applianceToken: "framed R (applianceToken (pe_bao env) parseDuration (newDeps env cfg c) req)"
  unfolding applianceToken_def planApplianceToken_def mintApplianceToken_def recordMintedAccessor_def Let_def
  by (intro returns framed_stores framed_bao framed_mint)

lemma framed_resetAppsPhase:
  "framed R (resetAppsPhase depth \<lparr>re_connect = se_connect (pe_seed env), re_bao = pe_bao env, re_clock = pe_clock env, re_ctx = ctx\<rparr>
    (newDeps env cfg c) req)"
  unfolding resetAppsPhase_def openBaoAsRoot_def planResetApps_def applyResetApps_def reset_database_def Let_def reset_env.select_convs
  by (intro returns framed_with_master framed_stores framed_wait framed_bao framed_ListHiltSecrets framed_dbinit; assumption)

text \<open>The payer's transactions.\<close>

lemma framed_balances: "framed R (walletBalance (pe_eth env) ses)" "framed R (accountFunds (pe_eth env) ses)"
  unfolding walletBalance_def accountFunds_def
  by (rule framed_bind_yields [OF order framed_mapErr [OF eth(3)] yields_mapErr [OF outputs]]; auto intro!: returns split: list.split)+

lemma framed_newSession: "framed R (newSession walk (pe_eth env) lib fcfg key freq)"
  unfolding newSession_def by (intro returns framed_closeOnErr)

lemma framed_fundPhase: "framed R (fundPhase walk (pe_eth env) lib (newDeps env cfg c) req)"
  unfolding fundPhase_def Prepare_def Execute_def session_plan_def fund_broadcast_def fund_send_def Let_def
  by (intro returns framed_deferE framed_secrets framed_newSession framed_balances)

text \<open>Retiring a region.\<close>

lemma framed_retirePhase: "framed R (retirePhase (se_connect (pe_seed env)) (newDeps env cfg c) req)"
proof -
  have region: "framed R (readRegionDIDs q r)" if "returning_querier R q" for q r
    unfolding readRegionDIDs_def Let_def by (intro returns conn_returns that)
  have count: "framed R (countDelegations q dids)" if "returning_querier R q" for q dids
    unfolding countDelegations_def by (intro returns conn_returns that)
  have begin_tx: "framed R (bindE (mapErr g (px_Begin conn)) (\<lambda>tx. deferE (tx_Rollback tx) (f tx)))"
    if "returning_conn R conn" "\<And>tx. returning_tx R tx \<Longrightarrow> framed R (f tx)" for conn g and f :: "'w pgx_tx \<Rightarrow> ('w, (string, int) go_map) act"
    by (rule framed_bind_yields [OF order framed_mapErr [OF conn_returns(5) [OF that(1)]] yields_mapErr [OF conn_returns(6) [OF that(1)]]])
      (intro framed_deferE order conn_returns that)
  show ?thesis
    unfolding retirePhase_def planRetire_def applyRetire_def deleteRegionRows_def delete_rows_def Let_def
    by (intro returns framed_stores framed_with_dsn begin_tx region count conn_returns; assumption)
qed


text \<open>Onboarding.\<close>

lemma framed_applianceProofIssuer:
  "framed R (applianceProofIssuer signers (oe_delegate (pe_onboard env)) (newDeps env cfg c) did region ingot)"
  unfolding applianceProofIssuer_def recordProofIssuer_def Let_def
  by (intro returns framed_stores framed_secrets framed_IssueProof)

lemma framed_onboardDeps: "framed R (onboardDeps pages (pe_onboard env) (newDeps env cfg c))"
  unfolding onboardDeps_def serviceIssuer_def NewSprueClient_def NewHiltClient_def Let_def
  by (intro returns framed_secrets)


lemma yields_clients:
  "yields (returning_sprue R) (NewSprueClient (pe_onboard env) did e iss)" "yields (returning_hilt R) (NewHiltClient (pe_onboard env) e iss)"
proof -
  have "returning_sprue R (SprueClient lib s)" if "oe_sprueclient_New (pe_onboard env) a u iss = Inr s" for lib s a u
    unfolding returning_sprue_def SprueClient_def sprue_admin.select_convs sprue_Provider_def sprue_Register_def sprue_SetProofs_def sprue_SetWeight_def
    by (intro conjI allI returns sprue [OF that])
  then show "yields (returning_sprue R) (NewSprueClient (pe_onboard env) did e iss)"
    unfolding NewSprueClient_def by (auto intro!: yields_bindE simp: yields_def act_iff bindE_eq_Ok returnE_def)
  have "returning_hilt R (HiltClient lib h)" if "oe_NewAdminClient (pe_onboard env) iss u = Inr h" for lib h u
    unfolding returning_hilt_def HiltClient_def hilt_admin.select_convs hilt_Provider_def hilt_Add_def hilt_SetNodes_def
    by (intro conjI allI returns hilt [OF that])
  then show "yields (returning_hilt R) (NewHiltClient (pe_onboard env) e iss)"
    unfolding NewHiltClient_def by (auto intro!: yields_bindE simp: yields_def act_iff bindE_eq_Ok returnE_def)
qed

lemma yields_onboardDeps: "yields (returning_onboard R) (onboardDeps pages (pe_onboard env) (newDeps env cfg c))"
proof -
  have records: "framed R (Recorded (ssm_publicStore pages (the_store cfg c)) r)" "framed R (Record (ssm_publicStore pages (the_store cfg c)) r did)" for r did
    unfolding Recorded_def Record_def ssm_publicStore_def publicStore.select_convs by (intro returns framed_stores)+
  have has: "framed R (allow_Has (NewDynamoAllowList (oe_dynamo (pe_onboard env)) tbl st) did)" for tbl st did
    unfolding allow_Has_def NewDynamoAllowList_def dynamo_allow_list.select_convs by (intro returns)
  have "framed R (mapErr g (da_PutItem (oe_dynamo (pe_onboard env)) tbl item))" for g tbl item by (intro returns)
  then have add: "framed R (allow_Add (NewDynamoAllowList (oe_dynamo (pe_onboard env)) tbl st) did)" for tbl st did
    by (simp add: framed_def wp_def allow_Add_def NewDynamoAllowList_def Let_def)
  have fail: "yields P (failE e)" for P :: "'w onboard_deps \<Rightarrow> bool" and e by (simp add: yields_def failE_def)
  show ?thesis unfolding onboardDeps_def Let_def
    by (auto intro!: fail yields_bindE yields_returnE yields_bind [OF yields_clients(1)] yields_bind [OF yields_clients(2)]
        simp: returning_onboard_def dynamo_AllowList_def piriRecords_def records has add framed_applianceProofIssuer split: prod.split)
qed

lemma framed_onboardPhase: "framed R (onboardPhase walk pages (pe_onboard env) (newDeps env cfg c) req)"
proof -
  have run: "framed R (bindE (onboardDeps pages (pe_onboard env) (newDeps env cfg c)) f)"
    if "\<And>deps. returning_onboard R deps \<Longrightarrow> framed R (f deps)" for f :: "'w onboard_deps \<Rightarrow> ('w, response) act"
    by (rule framed_bind_yields [OF order framed_onboardDeps yields_onboardDeps that])
  have region: "framed R (requireProvisionedRegion (newDeps env cfg c) r)" for r
    unfolding requireProvisionedRegion_def by (intro returns framed_stores)
  show ?thesis
    unfolding onboardPhase_def Read_def Apply_def apply_allow_def apply_sprue_def apply_hilt_def apply_record_def Let_def
    by (intro returns run region returning_onboardD [of R]; assumption)
qed

text \<open>Every phase.\<close>

lemma framed_handle: "framed R (handle walk pages depth getenv env req)"
  unfolding handle_def run_phase_def
  by (intro returns framed_seedPhase framed_vaultPhase framed_fundPhase framed_applianceToken framed_onboardPhase framed_retirePhase
      framed_resetAppsPhase)

end

section \<open>A world that logs what happens\<close>

text \<open>The libraries of \<open>log_env\<close>, with a clock that counts the log's entries and a hash of the right length.\<close>

definition ticking_clock :: "write_log clock" where
  "ticking_clock = \<lparr>ck_Now = length, ck_Sleep = (\<lambda>n log. log @ replicate n ''tick'')\<rparr>"

definition live_env ::
  "(string, string) go_map \<Rightarrow> string \<Rightarrow> int \<Rightarrow> int
    \<Rightarrow> (write_log, unit, string, string, string, string, string, string, unit, unit, string, unit) provision_env" where
  "live_env held key chain balance =
     (log_env held key None chain balance)
       \<lparr>pe_clock := ticking_clock,
        pe_seed := log_seed\<lparr>se_wallets := (se_wallets log_seed)\<lparr>keccak256 := (\<lambda>_. replicate 32 (CHR 0xAB))\<rparr>\<rparr>\<rparr>"

definition log_grows :: "write_log \<Rightarrow> write_log \<Rightarrow> bool" where
  "log_grows log log' \<longleftrightarrow> take (length log) log' = log"

lemma log_grows_append [simp]: "log_grows log (log @ l)" "log_grows log log"
  by (simp_all add: log_grows_def)

lemma log_grows_order: "world_order log_grows"
  unfolding world_order_def
proof
  show "reflp log_grows" by (rule reflpI) simp
  have "log_grows log log' \<longleftrightarrow> (\<exists>l. log' = log @ l)" for log log'
    unfolding log_grows_def by (metis append_eq_conv_conj append_take_drop_id)
  then show "transp log_grows" by (auto intro!: transpI)
qed

lemma framed_log: "framed log_grows (noted call a)" "framed log_grows (returnE x)" "framed log_grows (failE e)"
  by (simp_all add: framed_def wp_def noted_def returnE_def failE_def)

interpretation live: returning "live_env held key chain balance" "\<lambda>_. \<lparr>bh_Initialized = True, bh_Sealed = False\<rparr>" log_grows
    1 1 "\<lambda>_ _. 0" "\<lambda>_. 0"
  by unfold_locales
    (auto simp: live_env_def log_env_def log_ssm_def log_secrets_def log_bao_def log_eth_def log_onboard_def log_seed_def
      ticking_clock_def wp_returnE
        log_conn_def log_querier_def returning_conn_def returning_tx_def returning_querier_def yields_def returnE_apply failE_apply log_grows_order
        plain_signers_def plain_delegate_def framed_log
      intro!: framed_cases split: option.split)

section \<open>Properties\<close>



end
