(* ===== verification/Responses.thy ===== *)
theory Responses
imports Main_Handle Frames
begin

text \<open>
  What a response of the handler says: the phase that ran, and what that phase reports.
\<close>

section \<open>Answers\<close>

text \<open>A response without a plan and without a result.\<close>

definition plain_report :: "string \<Rightarrow> response \<Rightarrow> bool" where
  "plain_report phase r \<longleftrightarrow> rs_Phase r = phase \<and> \<not> rs_DryRun r
     \<and> rs_FundPlan r = None \<and> rs_FundResult r = None \<and> rs_TokenPlan r = None \<and> rs_TokenResult r = None
     \<and> rs_OnboardPlan r = None \<and> rs_OnboardResult r = None \<and> rs_RetirePlan r = None \<and> rs_RetireResult r = None
     \<and> rs_ResetAppsPlan r = None \<and> rs_ResetAppsResult r = None"

text \<open>A plan if this is the phase and the event is not confirmed, a result if it is.\<close>

definition one_of :: "bool \<Rightarrow> bool \<Rightarrow> 'a option \<Rightarrow> 'b option \<Rightarrow> bool" where
  "one_of this confirmed plan result \<longleftrightarrow> (plan \<noteq> None \<longleftrightarrow> this \<and> \<not> confirmed) \<and> (result \<noteq> None \<longleftrightarrow> this \<and> confirmed)"

definition outcome_report :: "string \<Rightarrow> bool \<Rightarrow> response \<Rightarrow> bool" where
  "outcome_report phase confirmed r \<longleftrightarrow> rs_Phase r = phase \<and> rs_DryRun r = (\<not> confirmed)
     \<and> one_of (phase = ''fund'') confirmed (rs_FundPlan r) (rs_FundResult r)
     \<and> one_of (phase = ''appliance-token'') confirmed (rs_TokenPlan r) (rs_TokenResult r)
     \<and> one_of (phase = ''onboard'') confirmed (rs_OnboardPlan r) (rs_OnboardResult r)
     \<and> one_of (phase = ''retire'') confirmed (rs_RetirePlan r) (rs_RetireResult r)
     \<and> one_of (phase = ''reset-apps'') confirmed (rs_ResetAppsPlan r) (rs_ResetAppsResult r)
     \<and> rs_DIDs r = [] \<and> rs_Addresses r = [] \<and> rs_Secrets r = [] \<and> rs_Databases r = [] \<and> rs_Created r = []
     \<and> \<not> rs_Initialised r \<and> rs_ApplianceKeys r = [] \<and> rs_RetiredAppliances r = []"

definition wallet_label :: "walletSpec \<Rightarrow> string" where
  "wallet_label ws = ws_service ws @ ''/'' @ ws_name ws"

definition seed_report :: "response \<Rightarrow> bool" where
  "seed_report r \<longleftrightarrow> plain_report ''seed'' r \<and> dom (map_of (rs_DIDs r)) = set identityServices
     \<and> dom (map_of (rs_Addresses r)) = wallet_label ` set wallets
     \<and> (rs_Databases r = databaseConsumers \<or> rs_Databases r = databaseConsumers @ [pandoraDatabase])
     \<and> \<not> rs_Initialised r \<and> rs_ApplianceKeys r = [] \<and> rs_RetiredAppliances r = []"

definition vault_report :: "provision_request \<Rightarrow> response \<Rightarrow> bool" where
  "vault_report req r \<longleftrightarrow> plain_report ''vault'' r
     \<and> rs_ApplianceKeys r = map ApplianceKeyName (rq_ApplianceRegions req)
     \<and> set (rs_RetiredAppliances r) \<subseteq> set (rq_RetiredApplianceRegions req)
     \<and> rs_DIDs r = [] \<and> rs_Addresses r = [] \<and> rs_Secrets r = [] \<and> rs_Databases r = []"

definition answers :: "provision_request \<Rightarrow> response \<Rightarrow> bool" where
  "answers req r \<longleftrightarrow>
     (if rq_Phase req = ''seed'' then seed_report r
      else if rq_Phase req = ''vault'' then vault_report req r
      else rq_Phase req \<in> {''fund'', ''appliance-token'', ''onboard'', ''retire'', ''reset-apps''}
        \<and> outcome_report (rq_Phase req) (rq_Confirm req) r)"

section \<open>The phases with a dry run\<close>

lemmas outcome_defs = outcome_report_def one_of_def response_of_def

lemma yields_outcomes:
  "yields (outcome_report ''fund'' (rq_Confirm req)) (fundPhase order eth lib d req)"
  "yields (outcome_report ''appliance-token'' (rq_Confirm req)) (applianceToken api parseDuration d req)"
  "yields (outcome_report ''onboard'' (rq_Confirm req)) (onboardPhase order pages oenv d req)"
  "yields (outcome_report ''retire'' (rq_Confirm req)) (retirePhase connect d req)"
  "yields (outcome_report ''reset-apps'' (rq_Confirm req)) (resetAppsPhase depth renv d req)"
  unfolding fundPhase_def applianceToken_def mintApplianceToken_def onboardPhase_def retirePhase_def applyRetire_def resetAppsPhase_def Let_def
  by (intro yields_intros yields_bindE yields_thenE yields_returnE; simp add: outcome_defs)+

section \<open>Seeding and the vault\<close>

lemma plain_report_simps [simp]:
  "plain_report p (r\<lparr>rs_DIDs := x\<rparr>) = plain_report p r" "plain_report p (r\<lparr>rs_Addresses := x\<rparr>) = plain_report p r"
  "plain_report p (r\<lparr>rs_Secrets := y\<rparr>) = plain_report p r" "plain_report p (r\<lparr>rs_Databases := l\<rparr>) = plain_report p r"
  "plain_report p (r\<lparr>rs_Created := l\<rparr>) = plain_report p r" "plain_report p (r\<lparr>rs_Initialised := b\<rparr>) = plain_report p r"
  "plain_report p (r\<lparr>rs_ApplianceKeys := l\<rparr>) = plain_report p r" "plain_report p (r\<lparr>rs_RetiredAppliances := l\<rparr>) = plain_report p r"
  "plain_report p (response_of p)"
  by (simp_all add: plain_report_def response_of_def)

text \<open>The fields the seeding loops leave alone.\<close>

definition seeding :: "string set \<Rightarrow> string set \<Rightarrow> response \<Rightarrow> bool" where
  "seeding services labels r \<longleftrightarrow> plain_report ''seed'' r \<and> dom (map_of (rs_DIDs r)) = services \<and> dom (map_of (rs_Addresses r)) = labels
     \<and> rs_Databases r = [] \<and> \<not> rs_Initialised r \<and> rs_ApplianceKeys r = [] \<and> rs_RetiredAppliances r = []"

lemma seeding_simps [simp]:
  "seeding S L (r\<lparr>rs_Created := l\<rparr>) = seeding S L r" "seeding S L (addSecret r service name arn) = seeding S L r"
  "seeding S L r \<Longrightarrow> seeding (insert k S) L (r\<lparr>rs_DIDs := AList.update k v (rs_DIDs r)\<rparr>)"
  "seeding S L r \<Longrightarrow> seeding S (insert k L) (r\<lparr>rs_Addresses := AList.update k v (rs_Addresses r)\<rparr>)"
  by (auto simp: seeding_def addSecret_def Let_def update_conv')

lemma yields_identity_report:
  assumes "seeding S L (ss_resp s)"
  shows "yields (\<lambda>s'. seeding (insert service S) L (ss_resp s')) (seed_identity env d service s)"
  unfolding seed_identity_def Let_def
  by (rule yields_bindE, intro yields_case_prod, rule yields_bindE, rule yields_bind [where P = "\<lambda>s. seeding S L (ss_resp s)"])
    (auto intro!: yields_intros yields_bindE yields_returnE yields_thenE simp: assms)

lemma yields_wallet_report:
  assumes "seeding S L (ss_resp s)"
  shows "yields (\<lambda>s'. seeding S (insert (wallet_label ws) L) (ss_resp s')) (seed_wallet env d ws s)"
  unfolding seed_wallet_def Let_def wallet_label_def
  by (rule yields_bindE, intro yields_case_prod, rule yields_bindE) (auto intro!: yields_returnE yields_thenE simp: assms)

lemma yields_seedIdentities:
  "seeding {} {} (ss_resp s) \<Longrightarrow> yields (\<lambda>s'. seeding (set identityServices) {} (ss_resp s')) (seedIdentities env d s)"
  unfolding seedIdentities_def
  by (rule yields_loop [where I = "\<lambda>ys s. seeding (set ys) {} (ss_resp s)"]) (auto intro: yields_identity_report)

lemma yields_seedWallets:
  "seeding S {} (ss_resp s) \<Longrightarrow> yields (\<lambda>s'. seeding S (wallet_label ` set wallets) (ss_resp s')) (seedWallets env d s)"
  unfolding seedWallets_def
  by (rule yields_loop [where I = "\<lambda>ys s. seeding S (wallet_label ` set ys) (ss_resp s)"]) (auto intro: yields_wallet_report)

lemma yields_seedProofs: "seeding S L resp \<Longrightarrow> yields (seeding S L) (seedProofs env d fresh resp)"
  unfolding seedProofs_def seed_proof_def Let_def
  by (intro yields_intros, rule yields_loop [where I = "\<lambda>_. seeding S L"]) (auto intro!: yields_intros yields_bindE yields_thenE yields_returnE)

lemma yields_seedRandomSecrets: "seeding S L resp \<Longrightarrow> yields (seeding S L) (seedRandomSecrets env d resp)"
  unfolding seedRandomSecrets_def seed_random_secret_def Let_def
  by (rule yields_loop [where I = "\<lambda>_. seeding S L"]) (auto intro!: yields_intros yields_bindE yields_returnE)

lemma yields_ensure_password: "seeding S L resp \<Longrightarrow> yields (\<lambda>(_, r). seeding S L r) (ensure_password env d label service resp)"
  unfolding ensure_password_def by (auto intro!: yields_intros yields_bindE yields_returnE)

lemma yields_seedDatabasePasswords:
  "seeding S L resp \<Longrightarrow> yields (\<lambda>(dbs, r). map db_Name dbs = databaseConsumers \<and> seeding S L r) (seedDatabasePasswords env d resp)"
  unfolding seedDatabasePasswords_def
  by (rule yields_loop [where I = "\<lambda>ys (dbs, r). map db_Name dbs = ys \<and> seeding S L r"])
    (auto intro!: yields_bind [OF yields_ensure_password] yields_returnE)

text \<open>Once the databases are in the response, the rest only adds to what was created.\<close>

definition seeded :: "string list \<Rightarrow> response \<Rightarrow> bool" where
  "seeded dbs r \<longleftrightarrow> plain_report ''seed'' r \<and> dom (map_of (rs_DIDs r)) = set identityServices
     \<and> dom (map_of (rs_Addresses r)) = wallet_label ` set wallets \<and> rs_Databases r = dbs
     \<and> \<not> rs_Initialised r \<and> rs_ApplianceKeys r = [] \<and> rs_RetiredAppliances r = []"

lemma seeded_simps [simp]:
  "seeded dbs (r\<lparr>rs_Created := l\<rparr>) = seeded dbs r" "seeded dbs r \<Longrightarrow> seeded (dbs @ l) (r\<lparr>rs_Databases := rs_Databases r @ l\<rparr>)"
  "seeding (set identityServices) (wallet_label ` set wallets) r \<Longrightarrow> seeded l (r\<lparr>rs_Databases := rs_Databases r @ l\<rparr>)"
  by (auto simp: seeded_def seeding_def)

lemma yields_password: "seeded dbs resp \<Longrightarrow> yields (\<lambda>(_, r). seeded dbs r) (ensure_password env d label service resp)"
  unfolding ensure_password_def by (auto intro!: yields_intros yields_bindE yields_returnE)

lemma yields_seedPandora: "seeded dbs resp \<Longrightarrow> yields (seeded dbs) (seedPandora order env d target resp)"
  unfolding seedPandora_def Let_def
  by (rule yields_bind [OF yields_password], assumption, intro yields_intros,
      rule yields_bind [OF yields_loop [where I = "\<lambda>_ (_, r). seeded dbs r"]])
    (auto intro!: yields_bind [OF yields_password] yields_intros yields_thenE yields_returnE)

lemma yields_seedPhase: "yields seed_report (seedPhase order env d)"
proof -
  have start: "seeding {} {} (ss_resp \<lparr>ss_resp = response_of ''seed'', ss_moved = [], ss_fresh = []\<rparr>)"
    by (simp add: seeding_def) (simp add: response_of_def)
  have finish: "yields seed_report (bindE (case cfg_Pandora (dp_cfg d) of
          None \<Rightarrow> returnE resp
        | Some target \<Rightarrow> bindE (seedPandora order env d target resp) (\<lambda>resp.
            returnE (resp\<lparr>rs_Databases := rs_Databases resp @ [pandoraDatabase]\<rparr>))) (\<lambda>resp. thenE m (returnE resp)))"
    if "seeded databaseConsumers resp" for resp m
  proof (rule yields_bind [where P = "\<lambda>r. \<exists>dbs \<in> {databaseConsumers, databaseConsumers @ [pandoraDatabase]}. seeded dbs r"])
    show "yields (\<lambda>r. \<exists>dbs \<in> {databaseConsumers, databaseConsumers @ [pandoraDatabase]}. seeded dbs r) (case cfg_Pandora (dp_cfg d) of
          None \<Rightarrow> returnE resp
        | Some target \<Rightarrow> bindE (seedPandora order env d target resp) (\<lambda>resp.
            returnE (resp\<lparr>rs_Databases := rs_Databases resp @ [pandoraDatabase]\<rparr>)))"
      using that by (auto intro!: yields_intros yields_bind [OF yields_seedPandora] yields_returnE)
  qed (auto intro!: yields_thenE yields_returnE simp: seeded_def seed_report_def)
  show ?thesis unfolding seedPhase_def Let_def
    by (rule yields_bind [OF yields_seedIdentities [OF start]], rule yields_bind [OF yields_seedProofs], assumption,
        rule yields_bind [OF yields_seedWallets], simp, rule yields_bind [OF yields_seedRandomSecrets], assumption,
        rule yields_bind [OF yields_seedDatabasePasswords], assumption)
      (auto intro!: yields_intros yields_thenE finish)
qed

text \<open>The vault.\<close>

definition vaulting :: "string list \<Rightarrow> string set \<Rightarrow> response \<Rightarrow> bool" where
  "vaulting keys gone r \<longleftrightarrow> plain_report ''vault'' r \<and> rs_ApplianceKeys r = keys \<and> set (rs_RetiredAppliances r) = gone
     \<and> rs_DIDs r = [] \<and> rs_Addresses r = [] \<and> rs_Secrets r = [] \<and> rs_Databases r = []"

lemma vaulting_simps [simp]:
  "vaulting K G (r\<lparr>rs_Created := l\<rparr>) = vaulting K G r" "vaulting K G (r\<lparr>rs_Initialised := b\<rparr>) = vaulting K G r"
  "vaulting K G r \<Longrightarrow> vaulting K (insert region G) (r\<lparr>rs_RetiredAppliances := rs_RetiredAppliances r @ [region]\<rparr>)"
  "vaulting K G r \<Longrightarrow> vaulting (K @ l) G (r\<lparr>rs_ApplianceKeys := rs_ApplianceKeys r @ l\<rparr>)" "vaulting [] {} (response_of ''vault'')"
  by (auto simp: vaulting_def) (auto simp: response_of_def)

lemma yields_root: "vaulting [] {} resp \<Longrightarrow> yields (\<lambda>(_, r). vaulting [] {} r) (ensureRootToken api d client resp)"
  unfolding ensureRootToken_def by (auto intro!: yields_intros yields_bindE yields_thenE yields_returnE)

lemma yields_secret_id: "vaulting [] {} resp \<Longrightarrow> yields (vaulting [] {}) (ensureHiltSecretID api d client resp)"
  unfolding ensureHiltSecretID_def by (auto intro!: yields_intros yields_bindE yields_thenE yields_returnE)

lemma yields_plan:
  "yields (\<lambda>plan. ap_Active plan = active \<and> set (ap_Remove plan) \<subseteq> set retired) (sumE (PlanApplianceKeys existing active retired))"
  unfolding yields_def sumE_def by (auto simp: PlanApplianceKeys_def Let_def returnE_def failE_def split: sum.splits if_splits)

lemma yields_reconcile:
  "vaulting [] {} resp \<Longrightarrow> yields (vault_report req) (reconcileApplianceKeys fuel api d client req resp)"
  unfolding reconcileApplianceKeys_def retire_each_def Let_def
  by (rule yields_bindE, rule yields_bind [OF yields_plan], rule yields_bindE,
      rule yields_bind [OF yields_loop [where I = "\<lambda>ys. vaulting [] (set ys)"]])
    (auto intro!: yields_thenE yields_returnE simp: vault_report_def vaulting_def)

lemma yields_vaultPhase: "yields (vault_report req) (vaultPhase fuel clk api ctx d req)"
  unfolding vaultPhase_def Let_def
  by (intro yields_if yields_failE, rule yields_bindE, rule yields_thenE, rule yields_bind [OF yields_root], simp, intro yields_intros,
      rule yields_thenE, rule yields_thenE, rule yields_bindE, rule yields_thenE, rule yields_bind [OF yields_secret_id])
    (auto intro: yields_reconcile)

section \<open>Properties\<close>


end
