(* ===== verification/HiltDb.thy ===== *)
theory HiltDb
imports Retire Appliances
begin

text \<open>
  hilt's database as the retire phase uses it: its rows, what a connection and a transaction do to them,
  and what follows for a retirement. The locale \<open>retire_stage\<close> puts it beside SSM.
\<close>

section \<open>hilt's rows\<close>

text \<open>Providers by DID, with their region; buckets by DID, with their provider; the delegations; the tenants.\<close>

record hilt_delegation =
  hd_issuer :: string
  hd_audience :: string
  hd_subject :: string

record hilt_rows =
  hr_providers :: "string \<Rightarrow> string option"
  hr_buckets :: "string \<Rightarrow> string option"
  hr_delegations :: "hilt_delegation list"
  hr_tenants :: "string set"

definition names_did :: "string set \<Rightarrow> hilt_delegation \<Rightarrow> bool" where
  "names_did D dl \<longleftrightarrow> hd_issuer dl \<in> D \<or> hd_audience dl \<in> D \<or> hd_subject dl \<in> D"

definition drop_delegations :: "string set \<Rightarrow> hilt_rows \<Rightarrow> hilt_rows" where
  "drop_delegations D h = h\<lparr>hr_delegations := filter (\<lambda>dl. \<not> names_did D dl) (hr_delegations h)\<rparr>"

definition drop_buckets :: "string \<Rightarrow> hilt_rows \<Rightarrow> hilt_rows" where
  "drop_buckets p h = h\<lparr>hr_buckets := (\<lambda>b. if hr_buckets h b = Some p then None else hr_buckets h b)\<rparr>"

definition drop_provider :: "string \<Rightarrow> hilt_rows \<Rightarrow> hilt_rows" where
  "drop_provider p h = h\<lparr>hr_providers := (hr_providers h)(p := None)\<rparr>"

definition provider_dids :: "string \<Rightarrow> hilt_rows \<Rightarrow> string set" where
  "provider_dids p h = insert p {b. hr_buckets h b = Some p}"

text \<open>What a retirement leaves: nothing of the provider, its buckets, and the delegations that name one of them.\<close>

definition without_provider :: "string \<Rightarrow> hilt_rows \<Rightarrow> hilt_rows" where
  "without_provider p h =
     h\<lparr>hr_providers := (hr_providers h)(p := None),
       hr_buckets := (\<lambda>b. if hr_buckets h b = Some p then None else hr_buckets h b),
       hr_delegations := filter (\<lambda>dl. \<not> names_did (provider_dids p h) dl) (hr_delegations h)\<rparr>"

lemma drop_all: "drop_provider p (drop_buckets p (drop_delegations (provider_dids p h) h)) = without_provider p h"
  by (cases h) (simp add: drop_provider_def drop_buckets_def drop_delegations_def without_provider_def cong: if_cong)

section \<open>Connections and transactions\<close>

text \<open>The queries of the phase, over what \<open>v\<close> shows; \<open>same\<close> is a world in which nothing changed.\<close>

definition hilt_reads :: "('w \<Rightarrow> hilt_rows) \<Rightarrow> ('w \<Rightarrow> 'w \<Rightarrow> bool) \<Rightarrow> 'w querier \<Rightarrow> bool" where
  "hilt_reads v same q \<longleftrightarrow>
     (\<forall>r w. wp (qr_QueryText q sql_region_provider (ArgText r))
        (\<lambda>p w'. p \<noteq> [] \<and> hr_providers (v w) p = Some r \<and> same w w')
        (\<lambda>e w'. same w w' \<and> (ErrNoRows \<in> set (err_deps e) \<longrightarrow> (\<forall>p. hr_providers (v w) p \<noteq> Some r))) w)
     \<and> (\<forall>p w. wp (qr_Query q sql_provider_buckets (ArgText p))
        (\<lambda>(scans, err) w'. same w w' \<and> (\<forall>bs. err = None \<longrightarrow> scan_rows scans = Inr bs \<longrightarrow> set bs = {b. hr_buckets (v w) b = Some p}))
        (\<lambda>_ w'. same w w') w)
     \<and> (\<forall>ds w. wp (qr_QueryCount q (''SELECT count(*) FROM delegation WHERE '' @ delegationPredicate) (ArgTexts ds))
        (\<lambda>n w'. same w w' \<and> n = int (length (filter (names_did (set ds)) (hr_delegations (v w))))) (\<lambda>_ w'. same w w') w)"

definition hilt_same :: "('w \<Rightarrow> hilt_rows) \<Rightarrow> ('w \<Rightarrow> hilt_rows option) \<Rightarrow> ('w \<Rightarrow> 'p) \<Rightarrow> 'w \<Rightarrow> 'w \<Rightarrow> bool" where
  "hilt_same rows work params w w' \<longleftrightarrow> rows w' = rows w \<and> work w' = work w \<and> params w' = params w"

text \<open>A statement of a transaction: it changes what the transaction sees, and nothing outside.\<close>

definition tx_does ::
  "('w \<Rightarrow> hilt_rows) \<Rightarrow> ('w \<Rightarrow> hilt_rows option) \<Rightarrow> ('w \<Rightarrow> 'p) \<Rightarrow> ('w, 'a) act \<Rightarrow> (hilt_rows \<Rightarrow> hilt_rows) \<Rightarrow> bool" where
  "tx_does rows work params m f \<longleftrightarrow>
     (\<forall>w. wp m (\<lambda>_ w'. work w' = map_option f (work w) \<and> rows w' = rows w \<and> params w' = params w)
        (\<lambda>_ w'. rows w' = rows w \<and> params w' = params w) w)"

text \<open>A transaction sees its own work; there is none to see before it begins.\<close>

definition tx_view :: "('w \<Rightarrow> hilt_rows) \<Rightarrow> ('w \<Rightarrow> hilt_rows option) \<Rightarrow> 'w \<Rightarrow> hilt_rows" where
  "tx_view rows work w = (case work w of Some h \<Rightarrow> h | None \<Rightarrow> rows w)"

definition hilt_tx :: "('w \<Rightarrow> hilt_rows) \<Rightarrow> ('w \<Rightarrow> hilt_rows option) \<Rightarrow> ('w \<Rightarrow> 'p) \<Rightarrow> 'w pgx_tx \<Rightarrow> bool" where
  "hilt_tx rows work params tx \<longleftrightarrow>
     hilt_reads (tx_view rows work) (hilt_same rows work params) (tx_querier tx)
     \<and> (\<forall>ds. tx_does rows work params (tx_Exec tx (''DELETE FROM delegation WHERE '' @ delegationPredicate) (ArgTexts ds))
          (drop_delegations (set ds)))
     \<and> (\<forall>p. tx_does rows work params (tx_Exec tx ''DELETE FROM bucket WHERE provider_id = $1'' (ArgText p)) (drop_buckets p))
     \<and> (\<forall>p. tx_does rows work params (tx_Exec tx ''DELETE FROM provider WHERE id = $1'' (ArgText p)) (drop_provider p))
     \<and> (\<forall>w h. work w = Some h \<longrightarrow> wp (tx_Commit tx) (\<lambda>_ w'. rows w' = h \<and> params w' = params w)
          (\<lambda>_ w'. (rows w' = rows w \<or> rows w' = h) \<and> params w' = params w) w)
     \<and> (\<forall>w. rows (tx_Rollback tx w) = rows w \<and> params (tx_Rollback tx w) = params w)"

definition hilt_conn :: "('w \<Rightarrow> hilt_rows) \<Rightarrow> ('w \<Rightarrow> hilt_rows option) \<Rightarrow> ('w \<Rightarrow> 'p) \<Rightarrow> 'w pgx_conn \<Rightarrow> bool" where
  "hilt_conn rows work params conn \<longleftrightarrow>
     hilt_reads rows (hilt_same rows work params) (px_querier conn)
     \<and> (\<forall>w. wp (px_Begin conn)
          (\<lambda>tx w'. hilt_tx rows work params tx \<and> work w' = Some (rows w) \<and> rows w' = rows w \<and> params w' = params w)
          (\<lambda>_ w'. rows w' = rows w \<and> params w' = params w) w)
     \<and> (\<forall>w. rows (px_Close conn w) = rows w \<and> params (px_Close conn w) = params w)"

lemma hilt_readsD:
  assumes "hilt_reads v same q"
  shows "wp (qr_QueryText q sql_region_provider (ArgText r))
        (\<lambda>p w'. p \<noteq> [] \<and> hr_providers (v w) p = Some r \<and> same w w')
        (\<lambda>e w'. same w w' \<and> (ErrNoRows \<in> set (err_deps e) \<longrightarrow> (\<forall>p. hr_providers (v w) p \<noteq> Some r))) w"
    and "wp (qr_Query q sql_provider_buckets (ArgText p))
        (\<lambda>(scans, err) w'. same w w' \<and> (\<forall>bs. err = None \<longrightarrow> scan_rows scans = Inr bs \<longrightarrow> set bs = {b. hr_buckets (v w) b = Some p}))
        (\<lambda>_ w'. same w w') w"
    and "wp (qr_QueryCount q (''SELECT count(*) FROM delegation WHERE '' @ delegationPredicate) (ArgTexts ds))
        (\<lambda>n w'. same w w' \<and> n = int (length (filter (names_did (set ds)) (hr_delegations (v w))))) (\<lambda>_ w'. same w w') w"
  using assms unfolding hilt_reads_def by blast+

lemma hilt_same_order: "world_order (hilt_same rows work params)"
  by (simp add: world_order_def hilt_same_def reflp_def transp_def)

lemma wp_readRegionDIDs:
  assumes q: "hilt_reads v (hilt_same rows work params) q" and v: "\<And>w'. hilt_same rows work params w w' \<Longrightarrow> v w' = v w"
  shows "wp (readRegionDIDs q region)
     (\<lambda>found w'. hilt_same rows work params w w' \<and> (case found of
          None \<Rightarrow> \<forall>p. hr_providers (v w) p \<noteq> Some region
        | Some dids \<Rightarrow> rd_provider dids \<noteq> [] \<and> hr_providers (v w) (rd_provider dids) = Some region
            \<and> set (rd_all dids) = provider_dids (rd_provider dids) (v w)))
     (\<lambda>_ w'. hilt_same rows work params w w') w"
  unfolding readRegionDIDs_def wp_bindE [of "tryE _"] wp_tryE
proof (rule wp_weaken [OF hilt_readsD(1) [OF q]], goal_cases)
  case (1 p w1)
  then have same: "hilt_same rows work params w w1" by blast
  note trans = hilt_same_order [of rows work params, unfolded world_order_def, THEN conjunct2, THEN transpD, OF same]
  show ?case unfolding sum.case Let_def
  proof (rule wp_bind_mapErr [OF hilt_readsD(2) [OF q]], goal_cases)
    case (2 res w2)
    obtain scans err where res: "res = (scans, err)" by (cases res)
    have w2: "hilt_same rows work params w w2" using trans 2 by (simp add: res)
    have bs: "err = None \<Longrightarrow> scan_rows scans = Inr bs \<Longrightarrow> set bs = {b. hr_buckets (v w) b = Some p}" for bs
      using 2 v [OF same] by (simp add: res)
    show ?case unfolding res prod.case
      by (rule wp_bind_sumI) (use w2 bs 1 in \<open>auto simp: wp_simps provider_dids_def rd_all_def split: option.split\<close>)
  qed (use trans in auto)
qed (auto simp: wp_simps)

section \<open>A retirement\<close>

text \<open>The rows before and after: one provider of the region gone with what hangs on it, or none there and nothing done.\<close>

definition region_retired :: "string \<Rightarrow> hilt_rows \<Rightarrow> hilt_rows \<Rightarrow> bool" where
  "region_retired region h h' \<longleftrightarrow>
     (\<exists>p. hr_providers h p = Some region \<and> h' = without_provider p h)
     \<or> (\<forall>p. hr_providers h p \<noteq> Some region) \<and> h' = h"

text \<open>The two parameters that hold the region's delegation.\<close>

definition proof_names :: "'v deps \<Rightarrow> string \<Rightarrow> string set" where
  "proof_names d region = Path (dp_store d) (applianceService region) ` set proofParameters"

locale retire_stage = ssm: ssm_service papi params pages
  for papi :: "'w ssm_api" and params :: "'w \<Rightarrow> string \<Rightarrow> string option" and pages +
  fixes connect :: "'w pgx_Connect"
    and rows :: "'w \<Rightarrow> hilt_rows"
    and work :: "'w \<Rightarrow> hilt_rows option"
    and d :: "'w deps"
  assumes client: "ssm_client (dp_store d) = papi"
    and connects: "wp (connect dsn) (\<lambda>conn w'. hilt_conn rows work params conn \<and> rows w' = rows w \<and> params w' = params w)
      (\<lambda>_ w'. rows w' = rows w \<and> params w' = params w) w"
    and get_apart: "keeps (\<lambda>w w'. rows w' = rows w) (GetParameter papi p dec)"
    and delete_apart: "keeps (\<lambda>w w'. rows w' = rows w) (DeleteParameters papi ns)"
begin

abbreviation same :: "'w \<Rightarrow> 'w \<Rightarrow> bool" where
  "same w w' \<equiv> rows w' = rows w \<and> params w' = params w"

lemma wp_statement:
  assumes "tx_does rows work params m f" "work w = Some h"
  shows "wp m (\<lambda>_ w'. work w' = Some (f h) \<and> same w w') (\<lambda>_ w'. same w w') w"
proof -
  from assms(1) have "wp m (\<lambda>_ w'. work w' = map_option f (work w) \<and> rows w' = rows w \<and> params w' = params w)
      (\<lambda>_ w'. rows w' = rows w \<and> params w' = params w) w" unfolding tx_does_def by blast
  then show ?thesis by (rule wp_weaken) (auto simp: assms(2))
qed

lemma wp_delete_rows:
  assumes tx: "hilt_tx rows work params tx" and w: "work w = Some h"
    and dids: "set (rd_all dids) = provider_dids (rd_provider dids) h"
  shows "wp (delete_rows tx region (regionDeletes dids))
     (\<lambda>_ w'. work w' = Some (without_provider (rd_provider dids) h) \<and> same w w') (\<lambda>_ w'. same w w') w"
proof -
  let ?p = "rd_provider dids"
  have stmts: "tx_does rows work params (tx_Exec tx (''DELETE FROM delegation WHERE '' @ delegationPredicate) (ArgTexts ds)) (drop_delegations (set ds))"
    "tx_does rows work params (tx_Exec tx ''DELETE FROM bucket WHERE provider_id = $1'' (ArgText q)) (drop_buckets q)"
    "tx_does rows work params (tx_Exec tx ''DELETE FROM provider WHERE id = $1'' (ArgText q)) (drop_provider q)" for ds q
    using tx unfolding hilt_tx_def by blast+
  show ?thesis
    unfolding delete_rows_def regionDeletes_def foldE.simps regionDelete.select_convs bindE_assoc bindE_returnE
  proof (rule wp_bind_mapErr [OF wp_statement [OF stmts(1) w]], goal_cases)
    case (2 n1 w1)
    show ?case
    proof (rule wp_bind_mapErr [OF wp_statement [OF stmts(2) 2 [THEN conjunct1]]], goal_cases)
      case (2 n2 w2)
      show ?case
        by (rule wp_bind_mapErr [OF wp_statement [OF stmts(3) 2 [THEN conjunct1]]])
          (use 2 \<open>_ \<and> same w w1\<close> in \<open>auto simp: wp_returnE dids drop_all\<close>)
    qed (use 2 in auto)
  qed auto
qed

lemma wp_deleteRegionRows:
  "wp (deleteRegionRows connect dsn region)
     (\<lambda>_ w'. (\<exists>p. hr_providers (rows w) p = Some region \<and> rows w' = without_provider p (rows w)) \<and> params w' = params w)
     (\<lambda>_ w'. (rows w' = rows w \<or> (\<exists>p. hr_providers (rows w) p = Some region \<and> rows w' = without_provider p (rows w))) \<and> params w' = params w) w"
    (is "wp _ ?Q ?E w")
  unfolding deleteRegionRows_def
proof (rule wp_bind_mapErr [OF connects], goal_cases)
  case (2 conn w1)
  then have begin_tx: "wp (px_Begin conn)
          (\<lambda>tx w'. hilt_tx rows work params tx \<and> work w' = Some (rows v) \<and> rows w' = rows v \<and> params w' = params v)
          (\<lambda>_ w'. rows w' = rows v \<and> params w' = params v) v"
    and close: "same v (px_Close conn v)" for v
    unfolding hilt_conn_def by blast+
  show ?case unfolding wp_deferE
  proof (rule wp_bind_mapErr [OF begin_tx], goal_cases)
    case (2 tx w2)
    then have tx: "hilt_tx rows work params tx" and w2: "work w2 = Some (rows w)" "same w w2"
      using \<open>hilt_conn rows work params conn \<and> same w w1\<close> by auto
    from tx have rollback: "same v (tx_Rollback tx v)" and q: "hilt_reads (tx_view rows work) (hilt_same rows work params) (tx_querier tx)"
      and commit: "work v = Some h \<Longrightarrow> wp (tx_Commit tx) (\<lambda>_ w'. rows w' = h \<and> params w' = params v)
          (\<lambda>_ w'. (rows w' = rows v \<or> rows w' = h) \<and> params w' = params v) v" for v h
      unfolding hilt_tx_def by blast+
    show ?case unfolding wp_deferE
    proof (rule wp_bindI [OF wp_readRegionDIDs [OF q]], goal_cases)
      case (2 found w3)
      then have w3: "work w3 = Some (rows w)" "same w w3" using w2 by (auto simp: hilt_same_def)
      have view: "tx_view rows work w2 = rows w" using w2 by (simp add: tx_view_def)
      show ?case
      proof (cases found)
        case None
        then show ?thesis using w3 rollback close by (simp add: wp_failE)
      next
        case (Some dids)
        have p: "hr_providers (rows w) (rd_provider dids) = Some region" "set (rd_all dids) = provider_dids (rd_provider dids) (rows w)"
          using 2 view Some by simp_all
        show ?thesis unfolding Some option.case
        proof (rule wp_bindI [OF wp_delete_rows [OF tx w3(1) p(2)]], goal_cases)
          case (1 deleted w4)
          show ?case
            by (rule wp_then_mapErr [OF commit [OF 1 [THEN conjunct1]]])
              (use 1 w3 p(1) rollback close in \<open>auto simp: wp_returnE\<close>)
        qed (use w3 rollback close in auto)
      qed
    qed (use w2 rollback close in \<open>auto simp: hilt_same_def tx_view_def\<close>)
  qed (use 2 close in auto)
qed auto

lemma wp_lookup:
  "wp (LookupPublic (dp_store d) service name) (\<lambda>v w'. v = params w (Path (dp_store d) service name) \<and> same w w')
     (\<lambda>_ w'. same w w') w"
proof -
  have "keeps (\<lambda>w w'. rows w' = rows w) (LookupPublic (dp_store d) service name)"
    unfolding LookupPublic_def by (rule keeps_ssm_get) (auto simp: client get_apart)
  moreover have "wp (LookupPublic (dp_store d) service name)
      (\<lambda>v w'. v = params w (Path (dp_store d) service name) \<and> params w' = params w) (\<lambda>_ w'. params w' = params w) w"
    unfolding LookupPublic_def by (rule ssm.wp_ssm_get_frame [OF client]) auto
  ultimately show ?thesis by (rule wp_weaken [OF wp_keeps]) auto
qed

lemma wp_secret: "wp (GetSecret (dp_store d) service name) (\<lambda>_ w'. same w w') (\<lambda>_ w'. same w w') w"
proof -
  have "keeps (\<lambda>w w'. rows w' = rows w) (GetSecret (dp_store d) service name)"
    unfolding GetSecret_def by (auto intro!: keeps_intros keeps_ssm_get simp: client get_apart)
  moreover have "wp (GetSecret (dp_store d) service name) (\<lambda>_ w'. params w' = params w) (\<lambda>_ w'. params w' = params w) w"
    unfolding GetSecret_def by (intro wp_bindI ssm.wp_ssm_get_frame [OF client]) (auto simp: wp_simps split: option.split)
  ultimately show ?thesis by (rule wp_weaken [OF wp_keeps]) auto
qed

lemma wp_listed:
  "wp (foldE (\<lambda>name ps. bindE (LookupPublic (dp_store d) service name) (\<lambda>found.
        returnE (case found of None \<Rightarrow> ps | Some _ \<Rightarrow> ps @ [Path (dp_store d) service name]))) names acc)
     (\<lambda>ps w'. ps = acc @ filter (\<lambda>p. params w p \<noteq> None) (map (Path (dp_store d) service) names) \<and> same w w')
     (\<lambda>_ w'. same w w') w"
proof (induction names arbitrary: acc w)
  case (Cons n names)
  show ?case unfolding foldE.simps bindE_assoc bindE_returnE
  proof (rule wp_bindI [OF wp_lookup], goal_cases)
    case (1 v w1)
    then show ?case by (intro wp_weaken [OF Cons.IH]) (auto split: option.splits)
  qed simp
qed (simp add: wp_returnE)

lemma wp_planRetire:
  "wp (planRetire connect d dsn region)
     (\<lambda>plan w'. same w w' \<and> rp_Region plan = region
        \<and> (rp_ProviderDID plan = [] \<longleftrightarrow> (\<forall>p. hr_providers (rows w) p \<noteq> Some region))
        \<and> rp_Parameters plan = filter (\<lambda>p. params w p \<noteq> None) (map (Path (dp_store d) (applianceService region)) proofParameters))
     (\<lambda>_ w'. same w w') w"
  unfolding planRetire_def Let_def
proof (rule wp_bindI [OF wp_listed], goal_cases)
  case (1 ps w1)
  let ?ps = "filter (\<lambda>p. params w p \<noteq> None) (map (Path (dp_store d) (applianceService region)) proofParameters)"
  have ps: "ps = ?ps" and w1: "same w w1" using 1 by simp_all
  show ?case
  proof (rule wp_bind_mapErr [OF connects], goal_cases)
    case (2 conn w2)
    then have q: "hilt_reads rows (hilt_same rows work params) (px_querier conn)" and close: "same v (px_Close conn v)" for v
      unfolding hilt_conn_def by blast+
    have w2: "same w w2" using 2 w1 by simp
    show ?case unfolding wp_deferE
    proof (rule wp_bindI [OF wp_readRegionDIDs [OF q]], goal_cases)
      case (2 found w3)
      then have w3: "same w w3" using w2 by (simp add: hilt_same_def)
      show ?case
      proof (cases found)
        case None
        then show ?thesis using 2 w2 w3 close ps by (simp add: wp_returnE)
      next
        case (Some dids)
        show ?thesis unfolding Some option.case countDelegations_def
          by (rule wp_bind_mapErr [OF hilt_readsD(3) [OF q]])
            (use 2 w2 w3 close ps Some in \<open>auto simp: wp_returnE hilt_same_def\<close>)
      qed
    qed (use w2 close in \<open>auto simp: hilt_same_def\<close>)
  qed (use w1 in auto)
qed simp

lemma wp_delete_proofs:
  "wp (Delete (dp_store d) (applianceService region) proofParameters)
     (\<lambda>_ w'. params w' = params w |` (- proof_names d region) \<and> rows w' = rows w)
     (\<lambda>_ w'. (\<exists>S \<subseteq> proof_names d region. params w' = params w |` (- S)) \<and> rows w' = rows w) w"
proof -
  have "keeps (\<lambda>w w'. rows w' = rows w) (Delete (dp_store d) (applianceService region) proofParameters)"
    by (rule keeps_Delete) (auto simp: client get_apart delete_apart)
  moreover have "wp (Delete (dp_store d) (applianceService region) proofParameters)
     (\<lambda>_ w'. params w' = params w |` (- proof_names d region)) (\<lambda>_ w'. \<exists>S \<subseteq> proof_names d region. params w' = params w |` (- S)) w"
    by (rule ssm.wp_Delete [OF client]) (auto simp: proof_names_def)
  ultimately show ?thesis by (rule wp_weaken [OF wp_keeps]) auto
qed

lemma wp_retirePhase:
  "wp (retirePhase connect d req)
     (\<lambda>_ w'. if rq_Confirm req
        then region_retired (rq_Region req) (rows w) (rows w') \<and> params w' = params w |` (- proof_names d (rq_Region req))
        else same w w')
     (\<lambda>_ w'. same w w' \<or> rq_Confirm req \<and> region_retired (rq_Region req) (rows w) (rows w')
        \<and> (\<exists>S \<subseteq> proof_names d (rq_Region req). params w' = params w |` (- S))) w"
    (is "wp _ ?Q ?E w")
proof -
  let ?r = "rq_Region req"
  have same_retired: "region_retired ?r (rows w) (rows w) \<Longrightarrow> same w w' \<Longrightarrow> ?E e w'" for e w' by blast
  have applied: "wp (applyRetire connect d dsn plan) ?Q ?E w1"
    if confirm: "rq_Confirm req" and w1: "same w w1" and r: "rp_Region plan = ?r"
      and p: "rp_ProviderDID plan = [] \<longleftrightarrow> (\<forall>p. hr_providers (rows w) p \<noteq> Some ?r)" for dsn plan w1
  proof -
    have gone: "wp (if rp_ProviderDID plan \<noteq> [] then deleteRegionRows connect dsn (rp_Region plan) else returnE [])
        (\<lambda>_ w'. region_retired ?r (rows w) (rows w') \<and> params w' = params w)
        (\<lambda>_ w'. (rows w' = rows w \<or> region_retired ?r (rows w) (rows w')) \<and> params w' = params w) w1"
      by (rule wp_ifI, rule wp_weaken [OF wp_deleteRegionRows])
        (use w1 r p in \<open>auto simp: region_retired_def wp_returnE\<close>)
    show ?thesis unfolding applyRetire_def
    proof (rule wp_bindI [OF gone], goal_cases)
      case (1 deleted w2)
      show ?case unfolding r
        by (rule wp_bindI [OF wp_delete_proofs]) (use 1 confirm in \<open>auto simp: wp_returnE\<close>)
    next
      case (2 e w2)
      have "params w |` (- {}) = params w" by simp
      then show ?case using 2 confirm by (metis empty_subsetI)
    qed
  qed
  show ?thesis unfolding retirePhase_def
  proof (rule wp_ifI, simp add: wp_failE, rule wp_bind_mapErr [OF wp_secret], simp, goal_cases)
    case (1 dsn w1)
    then have w1: "same w w1" by blast
    show ?case
    proof (rule wp_bindI [OF wp_planRetire], goal_cases)
      case (1 plan w2)
      then have plan: "same w w2" "rp_Region plan = ?r"
        "rp_ProviderDID plan = [] \<longleftrightarrow> (\<forall>p. hr_providers (rows w) p \<noteq> Some ?r)"
        "rp_Parameters plan = filter (\<lambda>p. params w p \<noteq> None) (map (Path (dp_store d) (applianceService ?r)) proofParameters)"
        using w1 by auto
      have empty: "params w |` (- proof_names d ?r) = params w" "\<forall>p. hr_providers (rows w) p \<noteq> Some ?r" if "rp_Empty plan"
      proof -
        from that plan(4) have "params w p = None" if "p \<in> proof_names d ?r" for p
          using that by (auto simp: rp_Empty_def proof_names_def filter_empty_conv)
        then show "params w |` (- proof_names d ?r) = params w" by (auto simp: restrict_map_def fun_eq_iff)
        show "\<forall>p. hr_providers (rows w) p \<noteq> Some ?r" using that plan(3) by (simp add: rp_Empty_def)
      qed
      show ?case
      proof (rule wp_ifI, simp add: wp_returnE plan(1), rule wp_ifI)
        assume "\<not> \<not> rq_Confirm req" "rp_Empty plan"
        then show "wp (returnE ((response_of ''retire'')\<lparr>rs_RetireResult := Some \<lparr>rr_Region = ?r, rr_ProviderDID = [],
            rr_Rows = [], rr_Parameters = []\<rparr>\<rparr>)) ?Q ?E w2"
          using empty plan(1) by (simp add: wp_returnE region_retired_def)
      next
        assume "\<not> \<not> rq_Confirm req"
        then show "wp (applyRetire connect d dsn plan) ?Q ?E w2" using applied plan(1-3) by blast
      qed
    qed (use w1 in auto)
  qed
qed

end

section \<open>hilt's database in memory\<close>

text \<open>Its tables, what a transaction has made of them, and the region's SSM beside it.\<close>

record hilt_tables =
  ht_providers :: "(string, string) go_map"
  ht_buckets :: "(string, string) go_map"
  ht_delegations :: "hilt_delegation list"
  ht_tenants :: "string list"

record fake_hilt =
  fh_tables :: hilt_tables
  fh_work :: "hilt_tables option"

definition rows_of :: "hilt_tables \<Rightarrow> hilt_rows" where
  "rows_of t =
     \<lparr>hr_providers = map_of (ht_providers t), hr_buckets = map_of (ht_buckets t),
      hr_delegations = ht_delegations t, hr_tenants = set (ht_tenants t)\<rparr>"

definition fake_rows :: "fake_ssm \<times> fake_hilt \<Rightarrow> hilt_rows" where
  "fake_rows w = rows_of (fh_tables (snd w))"

definition fake_work :: "fake_ssm \<times> fake_hilt \<Rightarrow> hilt_rows option" where
  "fake_work w = map_option rows_of (fh_work (snd w))"

definition bad_query :: go_error where
  "bad_query = Dep Untyped ''syntax error''"

definition fake_hilt_querier ::
  "(fake_ssm \<times> fake_hilt \<Rightarrow> hilt_tables) \<Rightarrow> (fake_ssm \<times> fake_hilt) querier" where
  "fake_hilt_querier tables =
     \<lparr>qr_QueryText = (\<lambda>sql a w. (case a of
          ArgText r \<Rightarrow>
            (case find (\<lambda>p. map_of (ht_providers (tables w)) p = Some r) (map_keys (ht_providers (tables w))) of
               None \<Rightarrow> Fail (Dep ErrNoRows ''no rows in result set'')
             | Some p \<Rightarrow> if p = [] then Fail bad_query else Ok p)
        | _ \<Rightarrow> Fail bad_query, w)),
      qr_QueryCount = (\<lambda>sql a w. (case a of
          ArgTexts ds \<Rightarrow> Ok (int (length (filter (names_did (set ds)) (ht_delegations (tables w)))))
        | _ \<Rightarrow> Fail bad_query, w)),
      qr_Query = (\<lambda>sql a w. (case a of
          ArgText p \<Rightarrow> Ok (map Inr (filter (\<lambda>b. map_of (ht_buckets (tables w)) b = Some p) (map_keys (ht_buckets (tables w)))), None)
        | _ \<Rightarrow> Fail bad_query, w))\<rparr>"

definition fake_delete :: "string \<Rightarrow> pg_arg \<Rightarrow> hilt_tables \<Rightarrow> (int \<times> hilt_tables) option" where
  "fake_delete sql a t =
     (case a of
        ArgTexts ds \<Rightarrow>
          if sql = ''DELETE FROM delegation WHERE '' @ delegationPredicate then
            Some (int (length (filter (names_did (set ds)) (ht_delegations t))),
              t\<lparr>ht_delegations := filter (\<lambda>dl. \<not> names_did (set ds) dl) (ht_delegations t)\<rparr>)
          else None
      | ArgText p \<Rightarrow>
          if sql = ''DELETE FROM bucket WHERE provider_id = $1'' then
            Some (int (length (filter (\<lambda>b. map_of (ht_buckets t) b = Some p) (map_keys (ht_buckets t)))),
              t\<lparr>ht_buckets := map (\<lambda>b. (b, the (map_of (ht_buckets t) b)))
                 (filter (\<lambda>b. map_of (ht_buckets t) b \<noteq> Some p) (map_keys (ht_buckets t)))\<rparr>)
          else if sql = ''DELETE FROM provider WHERE id = $1'' then
            if list_ex (\<lambda>b. map_of (ht_buckets t) b = Some p) (map_keys (ht_buckets t)) then None
            else Some (1, t\<lparr>ht_providers := AList.delete p (ht_providers t)\<rparr>)
          else None)"

definition fake_hilt_tx :: "(fake_ssm \<times> fake_hilt) pgx_tx" where
  "fake_hilt_tx =
     \<lparr>tx_querier = fake_hilt_querier (\<lambda>w. case fh_work (snd w) of Some t \<Rightarrow> t | None \<Rightarrow> fh_tables (snd w)),
      tx_Exec = (\<lambda>sql a (f, h). case fh_work h of
          None \<Rightarrow> (Fail bad_query, (f, h))
        | Some t \<Rightarrow> (case fake_delete sql a t of
              None \<Rightarrow> (Fail bad_query, (f, h))
            | Some (n, t') \<Rightarrow> (Ok n, (f, h\<lparr>fh_work := Some t'\<rparr>)))),
      tx_Commit = (\<lambda>(f, h). case fh_work h of
          None \<Rightarrow> (Fail bad_query, (f, h)) | Some t \<Rightarrow> (Ok (), (f, \<lparr>fh_tables = t, fh_work = None\<rparr>))),
      tx_Rollback = (\<lambda>(f, h). (f, h\<lparr>fh_work := None\<rparr>))\<rparr>"

definition fake_hilt_conn :: "(fake_ssm \<times> fake_hilt) pgx_conn" where
  "fake_hilt_conn =
     \<lparr>px_querier = fake_hilt_querier (\<lambda>w. fh_tables (snd w)),
      px_db = \<lparr>pg_Exec = (\<lambda>_. failE bad_query), pg_QueryBool = (\<lambda>_ _. failE bad_query), pg_QueryText = (\<lambda>_ _. failE bad_query),
        pg_Sanitize = (\<lambda>n. n)\<rparr>,
      px_Begin = (\<lambda>(f, h). (Ok fake_hilt_tx, (f, h\<lparr>fh_work := Some (fh_tables h)\<rparr>))), px_Close = (\<lambda>w. w)\<rparr>"

lemma map_of_kept:
  "map_of (map (\<lambda>b. (b, the (map_of m b))) (filter (\<lambda>b. map_of m b \<noteq> Some p) (map_keys m)))
     = (\<lambda>b. if map_of m b = Some p then None else map_of m b)"
proof -
  have "map_of (map (\<lambda>b. (b, the (map_of m b))) (filter P xs)) = (\<lambda>b. if b \<in> set xs \<and> P b then Some (the (map_of m b)) else None)"
    for P xs by (induction xs) auto
  then show ?thesis by (auto simp: fun_eq_iff domIff)
qed

lemma scan_rows_map [simp]: "scan_rows (map Inr xs) = Inr xs"
  by (induction xs) simp_all

lemma fake_delete_view:
  "fake_delete (''DELETE FROM delegation WHERE '' @ delegationPredicate) (ArgTexts ds) t = Some (n, t')
     \<Longrightarrow> rows_of t' = drop_delegations (set ds) (rows_of t)"
  "fake_delete ''DELETE FROM bucket WHERE provider_id = $1'' (ArgText p) t = Some (n, t')
     \<Longrightarrow> rows_of t' = drop_buckets p (rows_of t)"
  "fake_delete ''DELETE FROM provider WHERE id = $1'' (ArgText p) t = Some (n, t')
     \<Longrightarrow> rows_of t' = drop_provider p (rows_of t)"
  by (auto simp: fake_delete_def rows_of_def drop_delegations_def drop_buckets_def drop_provider_def map_of_kept
      delete_conv' split: if_splits)

lemma fake_hilt_reads:
  assumes "\<And>w. v w = rows_of (tables w)"
  shows "hilt_reads v (hilt_same fake_rows fake_work params) (fake_hilt_querier tables)"
  by (auto simp: hilt_reads_def hilt_same_def wp_def fake_hilt_querier_def assms rows_of_def bad_query_def find_Some_iff
      find_None_iff split: option.split)

lemma fake_tx_does:
  assumes "\<And>t n t'. fake_delete sql a t = Some (n, t') \<Longrightarrow> rows_of t' = f (rows_of t)"
  shows "tx_does fake_rows fake_work (\<lambda>w. fake_held (fst w)) (tx_Exec fake_hilt_tx sql a) f"
  using assms by (auto simp: tx_does_def wp_def fake_hilt_tx_def fake_rows_def fake_work_def split: option.split)

lemma fake_tx_hilt: "hilt_tx fake_rows fake_work (\<lambda>w. fake_held (fst w)) fake_hilt_tx"
proof -
  have "hilt_reads (tx_view fake_rows fake_work) (hilt_same fake_rows fake_work (\<lambda>w. fake_held (fst w))) (tx_querier fake_hilt_tx)"
    unfolding fake_hilt_tx_def pgx_tx.select_convs
    by (rule fake_hilt_reads) (simp add: tx_view_def fake_work_def fake_rows_def split: option.split)
  then show ?thesis unfolding hilt_tx_def
    by (intro conjI allI impI fake_tx_does fake_delete_view)
      (auto simp: fake_hilt_tx_def fake_rows_def fake_work_def wp_def split: option.splits)
qed

lemma fake_conn_hilt: "hilt_conn fake_rows fake_work (\<lambda>w. fake_held (fst w)) fake_hilt_conn"
proof -
  have "hilt_reads fake_rows (hilt_same fake_rows fake_work (\<lambda>w. fake_held (fst w))) (px_querier fake_hilt_conn)"
    unfolding fake_hilt_conn_def pgx_conn.select_convs by (rule fake_hilt_reads) (simp add: fake_rows_def)
  then show ?thesis
    by (auto simp: hilt_conn_def fake_hilt_conn_def wp_def fake_tx_hilt fake_rows_def fake_work_def)
qed

definition hilt_deps :: "(fake_ssm \<times> fake_hilt) deps" where
  "hilt_deps =
     \<lparr>dp_cfg = test_config, dp_store = \<lparr>ssm_client = fst_ssm_api fake_ssm_api, ssm_stage = ''dev''\<rparr>,
      dp_keys = \<lparr>sec_client = no_secrets, sec_stage = ''dev''\<rparr>, dp_secrets = no_secrets\<rparr>"

lemma keeps_on_fst_rows: "keeps (\<lambda>w w'. fake_rows w' = fake_rows w) (on_fst m)"
  by (simp add: keeps_def on_fst_def Let_def case_prod_beta fake_rows_def)

interpretation fake_retire: retire_stage "fst_ssm_api fake_ssm_api" "\<lambda>w. fake_held (fst w)" fake_pages
    "\<lambda>_. returnE fake_hilt_conn" fake_rows fake_work hilt_deps
proof -
  have "retire_stage_axioms (fst_ssm_api fake_ssm_api) (\<lambda>w. fake_held (fst w)) (\<lambda>_. returnE fake_hilt_conn) fake_rows fake_work hilt_deps"
    by unfold_locales (simp_all add: hilt_deps_def wp_returnE fake_conn_hilt keeps_on_fst_rows)
  with fst_ssm_service show "retire_stage (fst_ssm_api fake_ssm_api) (\<lambda>w. fake_held (fst w)) fake_pages
    (\<lambda>_. returnE fake_hilt_conn) fake_rows fake_work hilt_deps"
    by (intro retire_stage.intro)
qed

section \<open>Properties\<close>

text \<open>
  C2. A retirement takes the whole identity of a region and nothing else. A confirmed run that succeeds
  leaves in hilt's database neither the region's provider, nor its buckets, nor a delegation that names
  one of them, with every other row and every tenant as before, and in SSM neither half of the stored
  delegation, so that the next onboarding issues a new one, with every other parameter as before, the
  accessor of the unseal token among them. hilt's rows go all or none, and before the delegation:
  a run that fails has changed nothing, or it has removed the rows (or found none) and at most
  some of the two parameters. An unconfirmed run changes nothing.
\<close>

theorem retire_outcome:
  assumes "retire_stage papi params pages connect rows work d"
  shows "wp (retirePhase connect d req)
     (\<lambda>_ w'. if rq_Confirm req
        then region_retired (rq_Region req) (rows w) (rows w') \<and> params w' = params w |` (- proof_names d (rq_Region req))
        else rows w' = rows w \<and> params w' = params w)
     (\<lambda>_ w'. (rows w' = rows w \<and> params w' = params w) \<or> rq_Confirm req \<and> region_retired (rq_Region req) (rows w) (rows w')
        \<and> (\<exists>S \<subseteq> proof_names d (rq_Region req). params w' = params w |` (- S))) w"
  using assms by (rule retire_stage.wp_retirePhase)

definition west_world :: "fake_ssm \<times> fake_hilt" where
  "west_world =
     (fake_with [(''/forge-central/dev/hilt/postgres-dsn'', ''dsn''),
        (Path (dp_store hilt_deps) (applianceService ''west'') ''hilt-ingot-s3-proof'', ''proof'')],
      \<lparr>fh_tables = \<lparr>ht_providers = [(''did:web:w'', ''west''), (''did:web:e'', ''east'')],
         ht_buckets = [(''b1'', ''did:web:w''), (''b2'', ''did:web:e'')],
         ht_delegations = [\<lparr>hd_issuer = ''t'', hd_audience = ''k'', hd_subject = ''b1''\<rparr>,
           \<lparr>hd_issuer = ''t'', hd_audience = ''k'', hd_subject = ''b2''\<rparr>],
         ht_tenants = [''t'']\<rparr>, fh_work = None\<rparr>)"

definition confirmed_retire :: provision_request where
  "confirmed_retire = (event_of ''retire'')\<lparr>rq_Region := ''west'', rq_Confirm := True\<rparr>"

theorem retire_outcome_witness:
  "wp (retirePhase (\<lambda>_. returnE fake_hilt_conn) hilt_deps confirmed_retire)
     (\<lambda>_ w'. region_retired ''west'' (fake_rows west_world) (fake_rows w')
        \<and> fake_held (fst w') = fake_held (fst west_world) |` (- proof_names hilt_deps ''west''))
     (\<lambda>_ _. True) west_world"
  by (rule wp_weaken [OF retire_outcome [OF fake_retire.retire_stage_axioms]])
    (simp_all add: confirmed_retire_def event_of_def)

end
