(* ===== verification/HiltSecrets.thy ===== *)
theory HiltSecrets
imports BaoServer
begin

text \<open>
  hilt's tenant secrets in OpenBao's key-value store: what a listing of a folder answers, and that the
  walk of \<open>internal/vaultinit/hiltsecrets.go\<close> finds every secret once.
\<close>

section \<open>Paths and folders\<close>

definition slashes :: "string \<Rightarrow> nat" where
  "slashes s = length (filter (\<lambda>c. c = CHR ''/'') s)"

definition below :: "string set \<Rightarrow> string \<Rightarrow> string set" where
  "below S folder = {p \<in> S. has_prefix p folder}"

text \<open>The entries a listing of a folder shows: the next segment of each path below it.\<close>

definition entries :: "string set \<Rightarrow> string \<Rightarrow> string set" where
  "entries S folder = {next_segment t | t. folder @ t \<in> S}"

definition lists_folder :: "bao_secret option \<Rightarrow> string set \<Rightarrow> bool" where
  "lists_folder resp E \<longleftrightarrow>
     (case resp of
        None \<Rightarrow> E = {}
      | Some r \<Rightarrow>
          (if sc_Data r = None then E = {}
           else \<exists>names. data_list r ''keys'' = Some (map JStr names) \<and> set names = E \<and> distinct names))"

lemma contains_append: "contains t u \<Longrightarrow> contains (f @ t) u"
  unfolding sublist_def by (metis append.assoc)

lemma next_segment_cases:
  assumes "kv_path t"
  obtains (leaf) "next_segment t = t" "CHR ''/'' \<notin> set t" "t \<noteq> []"
  | (dir) a s where "t = a @ ''/'' @ s" "next_segment t = a @ ''/''" "CHR ''/'' \<notin> set a" "a \<noteq> []" "kv_path s"
proof (cases "CHR ''/'' \<in> set t")
  case False
  then have "takeWhile (\<lambda>c. c \<noteq> CHR ''/'') t = t" by (auto simp: takeWhile_eq_all_conv)
  then show ?thesis using leaf False assms by (auto simp: next_segment_def kv_path_def)
next
  case True
  then obtain a s where t: "t = a @ CHR ''/'' # s" and a: "CHR ''/'' \<notin> set a"
    by (blast dest: split_list_first)
  have "takeWhile (\<lambda>c. c \<noteq> CHR ''/'') t = a" unfolding t by (subst takeWhile_append2) (use a in auto)
  then have seg: "next_segment t = a @ ''/''" using True by (simp add: next_segment_def)
  have "a \<noteq> []" using assms by (auto simp: t kv_path_def)
  moreover have "kv_path s"
  proof -
    have s: "s \<noteq> []" using assms by (auto simp: t kv_path_def)
    have "hd s \<noteq> CHR ''/''"
    proof
      assume "hd s = CHR ''/''"
      then have "t = a @ ''//'' @ tl s" using s by (cases s) (simp_all add: t)
      then show False using assms by (auto simp: kv_path_def sublist_def)
    qed
    moreover have "\<not> contains s ''//''"
    proof -
      have "\<not> contains ((a @ ''/'') @ s) ''//''" using assms by (simp add: t kv_path_def)
      then show ?thesis by (metis contains_append)
    qed
    ultimately show ?thesis using assms s by (simp add: t kv_path_def)
  qed
  ultimately show ?thesis using dir [of a s] t a seg by simp
qed

lemma kv_path_below:
  assumes "kv_path (f @ t)" "f \<noteq> []" "last f = CHR ''/''"
  shows "kv_path t"
proof -
  have t: "t \<noteq> []" using assms by (auto simp: kv_path_def)
  have "hd t \<noteq> CHR ''/''"
  proof
    assume "hd t = CHR ''/''"
    then have "f @ t = butlast f @ ''//'' @ tl t" using assms(2,3) t
      by (metis append.assoc append_Cons append_Nil append_butlast_last_id list.collapse)
    then show False using assms(1) by (metis kv_path_def sublist_appendI)
  qed
  moreover have "\<not> contains t ''//''"
    using assms(1) unfolding kv_path_def by (metis contains_append)
  ultimately show ?thesis using assms(1) t by (simp add: kv_path_def)
qed

text \<open>What the walk collects of one entry.\<close>

definition covers :: "string set \<Rightarrow> string \<Rightarrow> string \<Rightarrow> string set" where
  "covers S folder e = (if has_suffix e ''/'' then below S (folder @ e) else {folder @ e})"

lemma not_suffix_slash: "CHR ''/'' \<notin> set t \<Longrightarrow> \<not> has_suffix t ''/''"
  by (auto simp: suffix_def)

lemma covers_next:
  assumes "folder @ t \<in> S" "kv_path t"
  shows "folder @ t \<in> covers S folder (next_segment t)"
  using assms(2)
  by (cases rule: next_segment_cases) (use assms(1) in \<open>auto simp: covers_def not_suffix_slash below_def suffix_def\<close>)

lemma covers_determines:
  assumes kv: "\<And>t. folder @ t \<in> S \<Longrightarrow> kv_path t" and e: "e \<in> entries S folder" and p: "p \<in> covers S folder e"
  obtains t where "p = folder @ t" "p \<in> S" "next_segment t = e"
proof -
  obtain t0 where t0: "folder @ t0 \<in> S" "e = next_segment t0" using e by (auto simp: entries_def)
  from kv [OF t0(1)] show ?thesis
  proof (cases rule: next_segment_cases)
    case leaf
    then have "p = folder @ t0" using p t0(2) by (simp add: covers_def not_suffix_slash)
    then show ?thesis using that t0 by blast
  next
    case (dir a s)
    then have ea: "e = a @ ''/''" using t0(2) by simp
    then have "p \<in> S" "has_prefix p (folder @ a @ ''/'')" using p ea by (auto simp: covers_def below_def suffix_def)
    then obtain u where u: "p = folder @ (a @ ''/'' @ u)" by (auto simp: prefix_def)
    have "takeWhile (\<lambda>c. c \<noteq> CHR ''/'') (a @ ''/'' @ u) = a" by (subst takeWhile_append2) (use dir(3) in auto)
    then have "next_segment (a @ ''/'' @ u) = e" using ea by (simp add: next_segment_def)
    then show ?thesis using that u \<open>p \<in> S\<close> by blast
  qed
qed

lemma below_covers:
  assumes "\<And>t. folder @ t \<in> S \<Longrightarrow> kv_path t"
  shows "below S folder = \<Union> (covers S folder ` entries S folder)"
proof (intro equalityI subsetI)
  fix p assume "p \<in> below S folder"
  then obtain t where "p = folder @ t" "folder @ t \<in> S" by (auto simp: below_def prefix_def)
  then show "p \<in> \<Union> (covers S folder ` entries S folder)"
    using covers_next [of folder t S] assms by (auto simp: entries_def)
next
  fix p assume "p \<in> \<Union> (covers S folder ` entries S folder)"
  then obtain e where "e \<in> entries S folder" "p \<in> covers S folder e" by blast
  then obtain t where "p = folder @ t" "p \<in> S" using covers_determines [OF assms] by metis
  then show "p \<in> below S folder" by (simp add: below_def)
qed

lemma covers_disjoint:
  assumes "\<And>t. folder @ t \<in> S \<Longrightarrow> kv_path t" "e \<in> entries S folder" "e' \<in> entries S folder" "e \<noteq> e'"
  shows "covers S folder e \<inter> covers S folder e' = {}"
proof -
  have "e = e'" if p1: "p \<in> covers S folder e" and p2: "p \<in> covers S folder e'" for p
  proof -
    obtain t where t: "p = folder @ t" "next_segment t = e" using covers_determines [OF assms(1,2) p1] by metis
    obtain u where u: "p = folder @ u" "next_segment u = e'" using covers_determines [OF assms(1,3) p2] by metis
    show ?thesis using t u by simp
  qed
  then show ?thesis using assms(4) by blast
qed

section \<open>The walk\<close>

locale tenant_secrets =
  fixes api :: "'w bao_api" and held :: "'w \<Rightarrow> string set" and rest :: "'w \<Rightarrow> 'r"
  assumes lists: "wp (bao_List api c (HiltMount @ ''/metadata/'' @ folder))
      (\<lambda>resp w'. lists_folder resp (entries (held w) folder) \<and> held w' = held w \<and> rest w' = rest w)
      (\<lambda>_ w'. held w' = held w \<and> rest w' = rest w) w"
    and paths: "p \<in> held w \<Longrightarrow> kv_path p"
    and destroy: "wp (bao_DeleteMetadata api c HiltMount p)
      (\<lambda>_ w'. held w' = held w - {p} \<and> rest w' = rest w)
      (\<lambda>_ w'. (held w' = held w \<or> held w' = held w - {p}) \<and> rest w' = rest w) w"
begin

lemma wp_listHiltSecrets:
  assumes "folder \<noteq> []" "last folder = CHR ''/''" "0 < depth" "\<And>t. folder @ t \<in> held w \<Longrightarrow> slashes t < depth"
  shows "wp (listHiltSecrets depth api c folder)
     (\<lambda>ps w'. set ps = below (held w) folder \<and> distinct ps \<and> held w' = held w \<and> rest w' = rest w)
     (\<lambda>_ w'. held w' = held w \<and> rest w' = rest w) w"
  using assms
proof (induction depth arbitrary: folder w)
  case (Suc depth)
  let ?S = "held w"
  have kv: "kv_path t" if "folder @ t \<in> ?S" for t
    using kv_path_below [OF paths [OF that]] Suc.prems(1,2) by blast
  have loop: "wp (foldE (\<lambda>raw ps.
        case raw of
          JStr key \<Rightarrow>
            if key = [] then failE (e1 raw)
            else if has_suffix key ''/'' then
              bindE (listHiltSecrets depth api c (folder @ key)) (\<lambda>nested. returnE (ps @ nested))
            else returnE (ps @ [folder @ key])
        | _ \<Rightarrow> failE (e2 raw)) (map JStr names) acc)
      (\<lambda>ps w'. set ps = set acc \<union> \<Union> (covers ?S folder ` set names) \<and> distinct ps \<and> held w' = ?S \<and> rest w' = rest w)
      (\<lambda>_ w'. held w' = ?S \<and> rest w' = rest w) w1"
    if "set names \<subseteq> entries ?S folder" "distinct names" "distinct acc"
      "set acc \<inter> \<Union> (covers ?S folder ` set names) = {}" "held w1 = ?S" "rest w1 = rest w" for names acc w1 e1 e2
    using that
  proof (induction names arbitrary: acc w1)
    case (Cons key names)
    have key: "key \<in> entries ?S folder" and names: "set names \<subseteq> entries ?S folder" "distinct names"
      using Cons.prems by simp_all
    have apart: "covers ?S folder key \<inter> \<Union> (covers ?S folder ` set names) = {}"
      using covers_disjoint [OF kv key] names Cons.prems(2) by fastforce
    have one: "wp (if key = [] then failE (e1 (JStr key))
          else if has_suffix key ''/'' then
            bindE (listHiltSecrets depth api c (folder @ key)) (\<lambda>nested. returnE (acc @ nested))
          else returnE (acc @ [folder @ key]))
        (\<lambda>ps w'. set ps = set acc \<union> covers ?S folder key \<and> distinct ps \<and> held w' = ?S \<and> rest w' = rest w)
        (\<lambda>_ w'. held w' = ?S \<and> rest w' = rest w) w1"
    proof (rule wp_ifI, simp add: wp_failE Cons.prems, rule wp_ifI)
      assume dir: "has_suffix key ''/''"
      obtain t where t: "folder @ t \<in> ?S" "key = next_segment t" using key by (auto simp: entries_def)
      have deep: "1 \<le> slashes t"
        using kv [OF t(1)] by (cases rule: next_segment_cases) (use dir t(2) in \<open>auto simp: not_suffix_slash slashes_def\<close>)
      have sub: "0 < depth" "last (folder @ key) = CHR ''/''" "folder @ key \<noteq> []"
        using deep Suc.prems(4) [OF t(1)] dir by (auto simp: suffix_def)
      have shallow: "slashes u < depth" if "(folder @ key) @ u \<in> held w1" for u
        using Suc.prems(4) [of "key @ u"] that dir Cons.prems(5) by (auto simp: suffix_def slashes_def)
      have "wp (listHiltSecrets depth api c (folder @ key))
        (\<lambda>nested w'. set nested = covers ?S folder key \<and> distinct nested \<and> held w' = ?S \<and> rest w' = rest w)
        (\<lambda>_ w'. held w' = ?S \<and> rest w' = rest w) w1"
        by (rule wp_weaken [OF Suc.IH [OF sub(3,2,1) shallow]])
          (use dir Cons.prems(5,6) in \<open>auto simp: covers_def\<close>)
      then show "wp (bindE (listHiltSecrets depth api c (folder @ key)) (\<lambda>nested. returnE (acc @ nested)))
        (\<lambda>ps w'. set ps = set acc \<union> covers ?S folder key \<and> distinct ps \<and> held w' = ?S \<and> rest w' = rest w)
        (\<lambda>_ w'. held w' = ?S \<and> rest w' = rest w) w1"
        by (rule wp_bindI) (use Cons.prems(3,4) in \<open>auto simp: wp_returnE\<close>)
    next
      assume "\<not> has_suffix key ''/''"
      then show "wp (returnE (acc @ [folder @ key]))
        (\<lambda>ps w'. set ps = set acc \<union> covers ?S folder key \<and> distinct ps \<and> held w' = ?S \<and> rest w' = rest w)
        (\<lambda>_ w'. held w' = ?S \<and> rest w' = rest w) w1"
        using Cons.prems by (auto simp: wp_returnE covers_def)
    qed
    show ?case unfolding list.map foldE.simps json.case
      by (rule wp_bindI [OF one], rule wp_weaken [OF Cons.IH [OF names]])
        (use Cons.prems(4) apart in auto)
  qed (simp add: wp_returnE)
  show ?case unfolding listHiltSecrets.simps
  proof (rule wp_bind_mapErr [OF lists], goal_cases)
    case (2 resp w1)
    then have same: "held w1 = ?S" "rest w1 = rest w" and listed: "lists_folder resp (entries ?S folder)" by blast+
    have all: "below ?S folder = \<Union> (covers ?S folder ` entries ?S folder)" by (rule below_covers [OF kv])
    show ?case
    proof (cases "resp = None \<or> sc_Data (the resp) = None")
      case True
      then have "entries ?S folder = {}" using listed by (cases resp) (auto simp: lists_folder_def)
      then have "below ?S folder = {}" using all by simp
      then show ?thesis using True same by (auto simp: wp_returnE split: option.split)
    next
      case False
      then obtain r data where r: "resp = Some r" "sc_Data r = Some data" by auto
      then obtain names where names: "data_list r ''keys'' = Some (map JStr names)" "set names = entries ?S folder" "distinct names"
        using listed by (auto simp: lists_folder_def)
      show ?thesis unfolding r(1) option.case r(2) names(1)
        by (rule wp_weaken [OF loop [of names "[]"]]) (use names same all in auto)
    qed
  qed simp
qed simp

lemma wp_ListHiltSecrets:
  assumes "0 < depth" "\<And>t. hiltSecretsRoot @ t \<in> held w \<Longrightarrow> slashes t < depth"
  shows "wp (ListHiltSecrets depth api c)
     (\<lambda>ps w'. set ps = below (held w) hiltSecretsRoot \<and> distinct ps \<and> held w' = held w \<and> rest w' = rest w)
     (\<lambda>_ w'. held w' = held w \<and> rest w' = rest w) w"
  unfolding ListHiltSecrets_def by (rule wp_listHiltSecrets) (use assms in \<open>auto simp: hiltSecretsRoot_def\<close>)

lemma wp_DestroyHiltSecret:
  "wp (DestroyHiltSecret api c p)
     (\<lambda>_ w'. p \<in> below UNIV hiltSecretsRoot \<and> held w' = held w - {p} \<and> rest w' = rest w)
     (\<lambda>_ w'. (held w' = held w \<or> p \<in> below UNIV hiltSecretsRoot \<and> held w' = held w - {p}) \<and> rest w' = rest w) w"
  unfolding DestroyHiltSecret_def
  by (rule wp_ifI, simp add: wp_failE, simp only: wp_mapErr, rule wp_weaken [OF destroy]) (auto simp: below_def)

end

section \<open>The in-memory OpenBao\<close>

definition fake_tenant_secrets :: "fake_bao \<Rightarrow> string set" where
  "fake_tenant_secrets w = {p \<in> set (fb_secrets w). kv_path p}"

definition fake_rest :: "fake_bao \<Rightarrow> fake_bao" where
  "fake_rest w = w\<lparr>fb_secrets := []\<rparr>"

lemma metadata_cut: "cut_prefix (HiltMount @ ''/metadata/'' @ folder) (HiltMount @ ''/metadata/'') = Some folder"
  by simp

lemma set_folder_entries: "set (folder_entries (filter kv_path ps) folder) = entries {p \<in> set ps. kv_path p} folder"
  by (force simp: folder_entries_def entries_def map_filter_def cut_prefix_def prefix_def)

interpretation fake_tenants: tenant_secrets "fake_bao_api ready" fake_tenant_secrets fake_rest
proof (unfold_locales, goal_cases)
  case (1 c folder w)
  have "fake_List (HiltMount @ ''/metadata/'' @ folder) w
      = (let names = folder_entries (filter kv_path (fb_secrets w)) folder in (Ok (if names = [] then None else Some (bao_keys_entry names)), w))"
    unfolding fake_List_def metadata_cut option.case by (simp add: HiltMount_def)
  moreover have "lists_folder (if names = [] then None else Some (bao_keys_entry names)) (entries (fake_tenant_secrets w) folder)"
    if "names = folder_entries (filter kv_path (fb_secrets w)) folder" for names
  proof -
    have "set names = entries (fake_tenant_secrets w) folder" "distinct names"
      unfolding that by (simp add: set_folder_entries fake_tenant_secrets_def) (simp add: folder_entries_def)
    then show ?thesis by (auto simp: lists_folder_def bao_keys_entry_def data_list_def JStrs_def)
  qed
  ultimately show ?case by (simp add: wp_def fake_bao_api_def Let_def)
next
  case (2 p w)
  then show ?case by (simp add: fake_tenant_secrets_def)
next
  case (3 c p w)
  then show ?case by (auto simp: wp_def fake_bao_api_def fake_tenant_secrets_def fake_rest_def)
qed

section \<open>Properties\<close>

text \<open>
  C17. The walk over hilt's secrets ends and misses none: given fuel for the nesting of its folders, it
  answers with the path of every secret under \<open>tenant/\<close>, each once and no other, or it fails. It changes nothing.
\<close>

theorem ListHiltSecrets_complete:
  assumes "tenant_secrets api held rest" "0 < depth" "\<And>t. hiltSecretsRoot @ t \<in> held w \<Longrightarrow> slashes t < depth"
  shows "wp (ListHiltSecrets depth api c)
     (\<lambda>ps w'. set ps = {p \<in> held w. has_prefix p hiltSecretsRoot} \<and> distinct ps \<and> held w' = held w \<and> rest w' = rest w)
     (\<lambda>_ w'. held w' = held w \<and> rest w' = rest w) w"
  using tenant_secrets.wp_ListHiltSecrets [OF assms] unfolding below_def .

definition secrets_bao :: fake_bao where
  "secrets_bao = test_bao\<lparr>fb_secrets := [''tenant/a/key'', ''tenant/a/deep/er'', ''tenant/b'', ''other/x'']\<rparr>"

theorem ListHiltSecrets_complete_witness:
  "wp (ListHiltSecrets 3 (fake_bao_api 0) test_client)
     (\<lambda>ps w'. set ps = {p \<in> fake_tenant_secrets secrets_bao. has_prefix p hiltSecretsRoot} \<and> distinct ps
        \<and> fake_tenant_secrets w' = fake_tenant_secrets secrets_bao \<and> fake_rest w' = fake_rest secrets_bao)
     (\<lambda>_ w'. fake_tenant_secrets w' = fake_tenant_secrets secrets_bao \<and> fake_rest w' = fake_rest secrets_bao) secrets_bao"
proof (rule ListHiltSecrets_complete [OF fake_tenants.tenant_secrets_axioms])
  fix t assume "hiltSecretsRoot @ t \<in> fake_tenant_secrets secrets_bao"
  then have "hiltSecretsRoot @ t \<in> set [''tenant/a/key'', ''tenant/a/deep/er'', ''tenant/b'', ''other/x'']"
    by (simp add: fake_tenant_secrets_def secrets_bao_def)
  then have "t \<in> set [''a/key'', ''a/deep/er'', ''b'']" by (auto simp: hiltSecretsRoot_def)
  then show "slashes t < 3" by (auto simp: slashes_def)
qed simp

end
