(* ===== verification/ResetStage.thy ===== *)
theory ResetStage
imports ResetApps HiltDb HiltSecrets
begin

text \<open>
  What a confirmed reset of the apps leaves, on Postgres, OpenBao and SSM together (\<open>reset_stage\<close>).
\<close>

section \<open>Databases made anew\<close>

definition same_outside :: "string set \<Rightarrow> pg_state \<Rightarrow> pg_state \<Rightarrow> bool" where
  "same_outside N s s' \<longleftrightarrow> (\<forall>n. n \<notin> N \<longrightarrow> pg_dbs s' n = pg_dbs s n \<and> pg_roles s' n = pg_roles s n)"

lemma same_outside_refl [simp]: "same_outside N s s"
  by (simp add: same_outside_def)

lemma same_outside_trans: "same_outside M s s1 \<Longrightarrow> same_outside N s1 s' \<Longrightarrow> same_outside (M \<union> N) s s'"
  by (simp add: same_outside_def)

text \<open>A database its own role owns, which logs in with the password SSM holds for it.\<close>

definition app_fresh :: "'w deps \<Rightarrow> ssm_table \<Rightarrow> pg_state \<Rightarrow> string \<Rightarrow> bool" where
  "app_fresh d T s n \<longleftrightarrow> pg_dbs s n = Some n
     \<and> (\<exists>p. T (Path (dp_store d) n ''postgres-password'') = Some p \<and> role_ready s n p)"

lemma app_fresh_outside: "app_fresh d T s n \<Longrightarrow> same_outside N s s' \<Longrightarrow> n \<notin> N \<Longrightarrow> app_fresh d T s' n"
  by (simp add: app_fresh_def same_outside_def role_ready_def)

definition owners_named :: "pg_state \<Rightarrow> bool" where
  "owners_named s \<longleftrightarrow> (\<forall>n owner. pg_dbs s n = Some owner \<longrightarrow> pg_name owner)"

definition app_database :: "string \<Rightarrow> string \<Rightarrow> database" where
  "app_database n p = \<lparr>db_Name = n, db_Owner = [], db_Password = p, db_LoginRoles = []\<rparr>"

lemma app_database_simps [simp]:
  "db_Name (app_database n p) = n" "OwnerRole (app_database n p) = n" "roles_of (app_database n p) = [n]"
  "database_ready s (app_database n p) \<longleftrightarrow> pg_dbs s n \<noteq> None \<and> role_ready s n p"
  by (auto simp: app_database_def OwnerRole_def roles_of_def database_ready_def)

lemma owner_of_app: "owner_of [app_database n p] m = (if m = n then {n} else {})"
  by (auto simp: owner_of_def)

text \<open>Dropping a database and making it again, on the server alone.\<close>

lemma pg_grows_app:
  assumes "pg_grows {n} (owner_of [app_database n p]) s s'"
  shows "same_outside {n} s s'" "pg_dbs s n = None \<Longrightarrow> pg_dbs s' n \<in> {None, Some n}"
proof -
  have grows: "pg_dbs s \<subseteq>\<^sub>m pg_dbs s'" "pg_roles s' m = pg_roles s m \<or> m = n"
    "pg_dbs s' m = Some own \<Longrightarrow> pg_dbs s m \<noteq> None \<or> own \<in> (if m = n then {n} else {})" for m own
    using assms unfolding pg_grows_def owner_of_app by (auto split: if_splits)
  have "pg_dbs s' m = pg_dbs s m" if "m \<noteq> n" for m
    using grows(1) grows(3) [of m] that by (cases "pg_dbs s m"; cases "pg_dbs s' m") (auto simp: map_le_def dom_def)
  then show "same_outside {n} s s'" using grows(2) by (auto simp: same_outside_def)
  show "pg_dbs s' n \<in> {None, Some n}" if "pg_dbs s n = None"
    using grows(3) [of n] that by (cases "pg_dbs s' n") auto
qed

lemma wp_drop_and_make:
  assumes conn: "pg_server conn st" and n: "pg_name n" and owners: "owners_named (st w)"
  shows "wp (bindE (dbinit_Drop conn n) (\<lambda>dropped. thenE (dbinit_Ensure conn [app_database n p]) (returnE (f dropped))))
     (\<lambda>r w'. r = f (pg_dbs (st w) n \<noteq> None) \<and> same_outside {n} (st w) (st w') \<and> pg_dbs (st w') n = Some n \<and> role_ready (st w') n p)
     (\<lambda>_ w'. same_outside {n} (st w) (st w')) w"
proof (rule wp_bindI [OF pg_server.wp_Drop [OF conn n]], goal_cases)
  case (2 dropped w1)
  then have w1: "pg_dbs (st w1) = (pg_dbs (st w))(n := None)" "dropped \<longleftrightarrow> pg_dbs (st w) n \<noteq> None" "pg_roles (st w1) = pg_roles (st w)"
    by simp_all
  then have one: "same_outside {n} (st w) (st w1)" by (simp add: same_outside_def)
  have more: "same_outside {n} (st w) (st w2)" if "pg_grows {n} (owner_of [app_database n p]) (st w1) (st w2)" for w2
    using same_outside_trans [OF one pg_grows_app(1) [OF that]] by simp
  have Ensure: "wp (dbinit_Ensure conn [app_database n p])
      (\<lambda>_ w'. pg_dbs (st w') n \<noteq> None \<and> role_ready (st w') n p \<and> pg_grows {n} (owner_of [app_database n p]) (st w1) (st w'))
      (\<lambda>_ w'. pg_grows {n} (owner_of [app_database n p]) (st w1) (st w')) w1"
    by (rule wp_weaken [OF pg_server.wp_Ensure [OF conn]]) (use n in auto)
  show ?case
  proof (rule wp_thenI [OF Ensure], goal_cases)
    case (1 _ w2)
    then have "pg_dbs (st w2) n = Some n" using pg_grows_app(2) [of n p "st w1" "st w2"] w1(1) by auto
    then show ?case using 1 more w1(2) by (simp add: wp_returnE)
  qed (use more in blast)
qed (use owners in \<open>auto simp: owners_named_def same_outside_def\<close>)

section \<open>The stage\<close>

definition reset_same ::
  "('w \<Rightarrow> pg_state) \<Rightarrow> ('w \<Rightarrow> ssm_table) \<Rightarrow> ('w \<Rightarrow> string set) \<Rightarrow> 'w \<Rightarrow> 'w \<Rightarrow> bool" where
  "reset_same pgs params held w w' \<longleftrightarrow> pgs w' = pgs w \<and> params w' = params w \<and> held w' = held w"

text \<open>A connection as the master user: a server, whose statements leave OpenBao and SSM alone.\<close>

definition reset_conn ::
  "('w \<Rightarrow> pg_state) \<Rightarrow> ('w \<Rightarrow> ssm_table) \<Rightarrow> ('w \<Rightarrow> string set) \<Rightarrow> 'w pgx_conn \<Rightarrow> bool" where
  "reset_conn pgs params held conn \<longleftrightarrow> pg_server (px_db conn) pgs
     \<and> (\<forall>sql. keeps (\<lambda>w w'. params w' = params w \<and> held w' = held w) (pg_Exec (px_db conn) sql))
     \<and> (\<forall>sql n. keeps (\<lambda>w w'. params w' = params w \<and> held w' = held w) (pg_QueryBool (px_db conn) sql n))
     \<and> (\<forall>sql n. keeps (\<lambda>w w'. params w' = params w \<and> held w' = held w) (pg_QueryText (px_db conn) sql n))
     \<and> (\<forall>w. reset_same pgs params held w (px_Close conn w))"

lemma app_names: "n \<in> set appDatabases \<Longrightarrow> pg_name n" "distinct appDatabases"
  by (auto simp: appDatabases_def pg_name_def)

lemma owners_named_app:
  "owners_named s \<Longrightarrow> same_outside {n} s s' \<Longrightarrow> pg_dbs s' n = Some n \<Longrightarrow> pg_name n \<Longrightarrow> owners_named s'"
  unfolding owners_named_def same_outside_def by (metis option.inject singletonD)

text \<open>A run that fails has at most one database missing.\<close>

definition one_missing :: "pg_state \<Rightarrow> pg_state \<Rightarrow> bool" where
  "one_missing s s' \<longleftrightarrow> (\<exists>n. \<forall>m. m \<noteq> n \<longrightarrow> pg_dbs s m \<noteq> None \<longrightarrow> pg_dbs s' m \<noteq> None)"

lemma one_missing_app: "same_outside {n} s s' \<Longrightarrow> one_missing s s'"
  unfolding one_missing_def same_outside_def by (metis singletonD)

text \<open>Fuel for the nesting of hilt's folders.\<close>

definition deep_enough :: "nat \<Rightarrow> string set \<Rightarrow> bool" where
  "deep_enough depth H \<longleftrightarrow> 0 < depth \<and> (\<forall>t. hiltSecretsRoot @ t \<in> H \<longrightarrow> slashes t < depth)"

text \<open>What a confirmed run has done once it is over, and what a failed one may have done.\<close>

definition apps_reset :: "'w deps \<Rightarrow> ssm_table \<Rightarrow> pg_state \<Rightarrow> pg_state \<Rightarrow> bool" where
  "apps_reset d T s s' \<longleftrightarrow> same_outside (set appDatabases) s s' \<and> (\<forall>n \<in> set appDatabases. app_fresh d T s' n)"

definition reset_undone ::
  "'w deps \<Rightarrow> ssm_table \<Rightarrow> pg_state \<Rightarrow> string set \<Rightarrow> pg_state \<Rightarrow> string set \<Rightarrow> bool" where
  "reset_undone d T s H s' H' \<longleftrightarrow>
     same_outside (set appDatabases) s s' \<and> one_missing s s'
     \<and> (H' = H \<or> apps_reset d T s s' \<and> (\<exists>S \<subseteq> below H hiltSecretsRoot. H' = H - S))"

definition existing_apps :: "pg_state \<Rightarrow> string list" where
  "existing_apps s = filter (\<lambda>n. pg_dbs s n \<noteq> None) appDatabases"

definition reset_plan_of :: "string \<Rightarrow> pg_state \<Rightarrow> string set \<Rightarrow> reset_apps_plan" where
  "reset_plan_of stage s H =
     \<lparr>rap_Stage = stage, rap_Databases = existing_apps s, rap_HiltSecrets = int (card (below H hiltSecretsRoot))\<rparr>"

definition reset_result_of :: "string \<Rightarrow> pg_state \<Rightarrow> string set \<Rightarrow> reset_apps_result" where
  "reset_result_of stage s H =
     \<lparr>rar_Stage = stage, rar_Dropped = existing_apps s, rar_Recreated = appDatabases,
      rar_HiltSecretsDestroyed = int (card (below H hiltSecretsRoot))\<rparr>"

lemma apps_reset_one_missing:
  assumes "apps_reset d T s s'"
  shows "one_missing s s'"
proof -
  have "pg_dbs s' m \<noteq> None" if "pg_dbs s m \<noteq> None" for m
    using assms that by (cases "m \<in> set appDatabases") (auto simp: apps_reset_def app_fresh_def same_outside_def)
  then show ?thesis by (auto simp: one_missing_def)
qed

locale reset_stage = ssm: ssm_service papi params pages + tenants: tenant_secrets api held "\<lambda>w. (pgs w, params w)"
  + waits: bao_waits clk api health
  for papi :: "'w ssm_api" and params :: "'w \<Rightarrow> ssm_table" and pages
    and api :: "'w bao_api" and held :: "'w \<Rightarrow> string set" and pgs :: "'w \<Rightarrow> pg_state" and clk health +
  fixes connect :: "'w pgx_Connect"
    and d :: "'w deps"
  assumes client: "ssm_client (dp_store d) = papi"
    and connects: "wp (connect dsn) (\<lambda>conn w'. reset_conn pgs params held conn \<and> reset_same pgs params held w w')
      (\<lambda>_ w'. reset_same pgs params held w w') w"
    and get_apart: "keeps (\<lambda>w w'. pgs w' = pgs w \<and> held w' = held w) (GetParameter papi p dec)"
    and secret: "wp (GetSecretValue (dp_secrets d) arn) (\<lambda>_ w'. reset_same pgs params held w w')
      (\<lambda>_ w'. reset_same pgs params held w w') w"
    and new_client: "wp (bao_NewClient api addr) (\<lambda>_ w'. reset_same pgs params held w w') (\<lambda>_ w'. reset_same pgs params held w w') w"
    and polls_apart: "keeps (reset_same pgs params held) (bao_SealStatus api c)"
    and sleep_apart: "reset_same pgs params held w (ck_Sleep clk n w)"
begin

abbreviation same :: "'w \<Rightarrow> 'w \<Rightarrow> bool" where
  "same \<equiv> reset_same pgs params held"

abbreviation db_only :: "'w \<Rightarrow> 'w \<Rightarrow> bool" where
  "db_only w w' \<equiv> params w' = params w \<and> held w' = held w"

lemma orders: "world_order same" "world_order db_only"
  by (auto simp: world_order_def reset_same_def intro!: reflpI transpI)

lemma same_trans: "same w w1 \<Longrightarrow> same w1 w2 \<Longrightarrow> same w w2"
  by (simp add: reset_same_def)

lemma wp_secret:
  "wp (GetSecret (dp_store d) service name) (\<lambda>v w'. params w (Path (dp_store d) service name) = Some v \<and> same w w')
     (\<lambda>_ w'. same w w') w"
proof -
  have "keeps (\<lambda>w w'. pgs w' = pgs w \<and> held w' = held w) (GetSecret (dp_store d) service name)"
    unfolding GetSecret_def by (auto intro!: keeps_intros keeps_ssm_get simp: client get_apart world_order_def reflp_def transp_def)
  moreover have "wp (GetSecret (dp_store d) service name)
      (\<lambda>v w'. params w (Path (dp_store d) service name) = Some v \<and> params w' = params w) (\<lambda>_ w'. params w' = params w) w"
    unfolding GetSecret_def by (intro wp_bindI ssm.wp_ssm_get_frame [OF client]) (auto simp: wp_simps split: option.split)
  ultimately show ?thesis by (rule wp_weaken [OF wp_keeps]) (auto simp: reset_same_def)
qed

lemma wp_connectAsMaster:
  "wp (connectAsMaster connect d target) (\<lambda>conn w'. reset_conn pgs params held conn \<and> same w w') (\<lambda>_ w'. same w w') w"
proof -
  have "wp (masterCredentials d arn) (\<lambda>_ w'. same w w') (\<lambda>_ w'. same w w') w" for arn
    unfolding masterCredentials_def
    by (rule wp_bind_mapErr [OF secret]) (auto simp: wp_simps Let_def split: prod.split sum.split)
  then show ?thesis unfolding connectAsMaster_def Let_def
    by (rule wp_bindI) (auto simp: wp_mapErr intro!: wp_weaken [OF connects] dest: same_trans split: prod.split)
qed

lemma wp_openBaoAsRoot:
  assumes "re_bao env = api" "re_clock env = clk"
  shows "wp (openBaoAsRoot env d) (\<lambda>_ w'. same w w') (\<lambda>_ w'. same w w') w"
proof -
  have select: "keeps same (select_after clk ctx n)" for ctx n
    by (simp add: keeps_def select_after_def sleep_apart split: option.split)
  have "keeps same (WaitForUnsealed fuel clk api ctx c)" for fuel ctx c
    by (induction fuel) (auto intro!: keeps_intros orders polls_apart select simp: Let_def)
  then have "keeps same (wait_unsealed clk api (re_ctx env) budget c)" for budget c
    by (simp add: keeps_def wait_unsealed_def)
  from wp_keeps [OF this wp_wait_unsealed [OF waits.wp_wait [OF waits.wait_unsealed_fuel]]]
  have wait: "wp (wait_unsealed clk api (re_ctx env) budget c) (\<lambda>_ w'. same w w') (\<lambda>_ w'. same w w') w" for budget c w
    by (rule wp_weaken) auto
  show ?thesis unfolding openBaoAsRoot_def assms
  proof (rule wp_bind_mapErr [OF new_client], simp, goal_cases)
    case (1 c w1)
    show ?case
    proof (rule wp_thenI [OF wait], goal_cases)
      case (1 _ w2)
      then have w2: "same w w2" using \<open>same w w1\<close> same_trans by blast
      show ?case by (rule wp_bind_mapErr [OF wp_secret]) (use w2 same_trans in \<open>auto simp: wp_returnE\<close>)
    qed (use 1 same_trans in blast)
  qed
qed

lemma wp_reset_database:
  assumes conn: "reset_conn pgs params held conn" and n: "n \<in> set appDatabases" and owners: "owners_named (pgs w)"
  shows "wp (reset_database d (px_db conn) n result)
     (\<lambda>r w'. r = result\<lparr>rar_Dropped := rar_Dropped result @ filter (\<lambda>n. pg_dbs (pgs w) n \<noteq> None) [n],
          rar_Recreated := rar_Recreated result @ [n]\<rparr>
        \<and> same_outside {n} (pgs w) (pgs w') \<and> app_fresh d (params w) (pgs w') n \<and> db_only w w')
     (\<lambda>_ w'. same_outside {n} (pgs w) (pgs w') \<and> db_only w w') w"
  unfolding reset_database_def
proof (rule wp_bind_mapErr [OF wp_secret], simp add: reset_same_def, goal_cases)
  case (1 p w1)
  then have w1: "pgs w1 = pgs w" "db_only w w1" and p: "params w (Path (dp_store d) n ''postgres-password'') = Some p"
    unfolding reset_same_def by blast+
  from conn have server: "pg_server (px_db conn) pgs"
    and apart: "keeps db_only (pg_Exec (px_db conn) sql)" "keeps db_only (pg_QueryBool (px_db conn) sql m)"
      "keeps db_only (pg_QueryText (px_db conn) sql m)" for sql m unfolding reset_conn_def by blast+
  let ?f = "\<lambda>dropped. (if dropped then result\<lparr>rar_Dropped := rar_Dropped result @ [n]\<rparr> else result)
      \<lparr>rar_Recreated := rar_Recreated (if dropped then result\<lparr>rar_Dropped := rar_Dropped result @ [n]\<rparr> else result) @ [n]\<rparr>"
  have keeps: "keeps db_only (bindE (dbinit_Drop (px_db conn) n) (\<lambda>dropped.
      thenE (dbinit_Ensure (px_db conn) dbs) (returnE (?f dropped))))" for dbs
    by (intro keeps_intros orders keeps_dbinit apart)
  show ?case unfolding Let_def app_database_def [symmetric]
    by (rule wp_weaken [OF wp_keeps [OF keeps wp_drop_and_make [OF server app_names(1) [OF n]]]])
      (use w1 p owners in \<open>auto simp: app_fresh_def\<close>)
qed

lemma wp_reset_databases:
  assumes conn: "reset_conn pgs params held conn" and names: "set names \<subseteq> set appDatabases" "distinct names"
    and owners: "owners_named (pgs w)"
  shows "wp (foldE (reset_database d (px_db conn)) names result)
     (\<lambda>r w'. r = result\<lparr>rar_Dropped := rar_Dropped result @ filter (\<lambda>n. pg_dbs (pgs w) n \<noteq> None) names,
          rar_Recreated := rar_Recreated result @ names\<rparr>
        \<and> same_outside (set names) (pgs w) (pgs w') \<and> (\<forall>n \<in> set names. app_fresh d (params w) (pgs w') n) \<and> db_only w w')
     (\<lambda>_ w'. same_outside (set names) (pgs w) (pgs w') \<and> one_missing (pgs w) (pgs w') \<and> db_only w w') w"
  using names owners
proof (induction names arbitrary: result w)
  case (Cons n names)
  have n: "n \<in> set appDatabases" and new: "n \<notin> set names" using Cons.prems by auto
  show ?case unfolding foldE.simps
  proof (rule wp_bindI [OF wp_reset_database [OF conn n Cons.prems(3)]], goal_cases)
    case (1 r w1)
    then have one: "same_outside {n} (pgs w) (pgs w1)" and fresh: "app_fresh d (params w) (pgs w1) n" and only: "db_only w w1"
      by blast+
    have owners1: "owners_named (pgs w1)"
      using owners_named_app [OF Cons.prems(3) one _ app_names(1) [OF n]] fresh by (simp add: app_fresh_def)
    have rest: "filter (\<lambda>n. pg_dbs (pgs w1) n \<noteq> None) names = filter (\<lambda>n. pg_dbs (pgs w) n \<noteq> None) names"
      using one new by (intro filter_cong) (auto simp: same_outside_def)
    have missing: "one_missing (pgs w) (pgs w2)" if "one_missing (pgs w1) (pgs w2)" for w2
    proof -
      from that obtain k where k: "\<And>m. m \<noteq> k \<Longrightarrow> pg_dbs (pgs w1) m \<noteq> None \<Longrightarrow> pg_dbs (pgs w2) m \<noteq> None"
        unfolding one_missing_def by blast
      have "pg_dbs (pgs w1) m \<noteq> None" if "pg_dbs (pgs w) m \<noteq> None" for m
        using that one fresh by (cases "m = n") (auto simp: same_outside_def app_fresh_def)
      then show ?thesis unfolding one_missing_def using k by blast
    qed
    show ?case
      by (rule wp_weaken [OF Cons.IH [OF _ _ owners1]])
        (use Cons.prems 1 rest only fresh missing new same_outside_trans [OF one] in \<open>auto intro: app_fresh_outside\<close>)
  qed (auto simp: same_outside_def intro: one_missing_app)
qed (simp add: wp_returnE)

lemma wp_list:
  assumes "deep_enough depth (held w)"
  shows "wp (ListHiltSecrets depth api c)
     (\<lambda>ps w'. set ps = below (held w) hiltSecretsRoot \<and> int (length ps) = int (card (below (held w) hiltSecretsRoot)) \<and> same w w')
     (\<lambda>_ w'. same w w') w"
  by (rule wp_weaken [OF tenants.wp_ListHiltSecrets])
    (use assms in \<open>auto simp: deep_enough_def reset_same_def dest: distinct_card [symmetric]\<close>)

lemma wp_planResetApps:
  assumes conn: "reset_conn pgs params held conn" and depth: "deep_enough depth (held w)"
  shows "wp (planResetApps depth api (px_db conn) bao stage)
     (\<lambda>plan w'. plan = reset_plan_of stage (pgs w) (held w) \<and> same w w') (\<lambda>_ w'. same w w') w"
  unfolding planResetApps_def
proof -
  from conn have server: "pg_server (px_db conn) pgs"
    and apart: "keeps db_only (pg_QueryBool (px_db conn) sql m)" for sql m unfolding reset_conn_def by blast+
  have "keeps db_only (Existing (px_db conn) appDatabases)"
    unfolding Existing_def by (intro keeps_intros orders apart)
  note existing = wp_keeps [OF this pg_server.wp_Existing [OF server]]
  show "wp (bindE (Existing (px_db conn) appDatabases) (\<lambda>existing.
      bindE (ListHiltSecrets depth api bao) (\<lambda>secrets.
      returnE \<lparr>rap_Stage = stage, rap_Databases = existing, rap_HiltSecrets = int (length secrets)\<rparr>)))
     (\<lambda>plan w'. plan = reset_plan_of stage (pgs w) (held w) \<and> same w w') (\<lambda>_ w'. same w w') w"
  proof (rule wp_bindI [OF existing], goal_cases)
    case (1 ex w1)
    then have w1: "ex = existing_apps (pgs w)" "pgs w1 = pgs w" "held w1 = held w" "params w1 = params w"
      unfolding existing_apps_def by blast+
    have deep: "deep_enough depth (held w1)" unfolding w1 by (rule depth)
    show ?case
      by (rule wp_bindI [OF wp_list [OF deep]]) (use w1 in \<open>auto simp: wp_returnE reset_plan_of_def reset_same_def\<close>)
  qed (simp add: reset_same_def)
qed

lemma wp_destroy_secrets:
  "wp (foldE (\<lambda>path result. thenE (DestroyHiltSecret api bao path)
        (returnE (result\<lparr>rar_HiltSecretsDestroyed := rar_HiltSecretsDestroyed result + 1\<rparr>))) paths result)
     (\<lambda>r w'. r = result\<lparr>rar_HiltSecretsDestroyed := rar_HiltSecretsDestroyed result + int (length paths)\<rparr>
        \<and> held w' = held w - set paths \<and> pgs w' = pgs w \<and> params w' = params w)
     (\<lambda>_ w'. (\<exists>S \<subseteq> set paths. held w' = held w - S) \<and> pgs w' = pgs w \<and> params w' = params w) w"
proof (induction paths arbitrary: result w)
  case (Cons p paths)
  show ?case unfolding foldE.simps thenE_def bindE_assoc bindE_returnE
  proof (rule wp_bindI [OF tenants.wp_DestroyHiltSecret], goal_cases)
    case (1 _ w1)
    then have w1: "held w1 = held w - {p}" "pgs w1 = pgs w" "params w1 = params w" by auto
    have more: "\<exists>S \<subseteq> set (p # paths). held w2 = held w - S" if "\<exists>S \<subseteq> set paths. held w2 = held w1 - S" for w2
    proof -
      from that obtain S where "S \<subseteq> set paths" "held w2 = held w - insert p S" unfolding w1 by blast
      then show ?thesis by (intro exI [of _ "insert p S"]) auto
    qed
    show ?case unfolding thenE_def [symmetric] by (rule wp_weaken [OF Cons.IH]) (use w1 more in auto)
  next
    case (2 e w1)
    then have "held w1 = held w - {} \<or> held w1 = held w - {p}" by auto
    then show ?case using 2 by (metis Pair_inject empty_subsetI insert_subset list.set_intros(1))
  qed
qed (simp add: wp_returnE)

lemma wp_applyResetApps:
  assumes conn: "reset_conn pgs params held conn" and owners: "owners_named (pgs w)"
    and depth: "deep_enough depth (held w)"
  shows "wp (applyResetApps depth api d (px_db conn) bao)
     (\<lambda>r w'. r = reset_result_of (cfg_Stage (dp_cfg d)) (pgs w) (held w) \<and> apps_reset d (params w) (pgs w) (pgs w')
        \<and> held w' = held w - below (held w) hiltSecretsRoot \<and> params w' = params w)
     (\<lambda>_ w'. reset_undone d (params w) (pgs w) (held w) (pgs w') (held w') \<and> params w' = params w) w"
  unfolding applyResetApps_def
proof (rule wp_bindI [OF wp_reset_databases [OF conn subset_refl app_names(2) owners]], goal_cases)
  case (1 r w1)
  then have w1: "apps_reset d (params w) (pgs w) (pgs w1)" "held w1 = held w" "params w1 = params w"
    and r: "r = \<lparr>rar_Stage = cfg_Stage (dp_cfg d), rar_Dropped = existing_apps (pgs w), rar_Recreated = appDatabases,
        rar_HiltSecretsDestroyed = 0\<rparr>"
    by (simp_all add: apps_reset_def existing_apps_def)
  note over = apps_reset_one_missing [OF w1(1)] w1(1) [unfolded apps_reset_def, THEN conjunct1]
  have deep: "deep_enough depth (held w1)" unfolding w1 by (rule depth)
  show ?case
  proof (rule wp_bindI [OF wp_list [OF deep]], goal_cases)
    case (1 ps w2)
    then have ps: "set ps = below (held w) hiltSecretsRoot" "int (length ps) = int (card (below (held w) hiltSecretsRoot))"
      and w2: "held w2 = held w" "pgs w2 = pgs w1" "params w2 = params w" using w1 by (auto simp: reset_same_def)
    show ?case
      by (rule wp_weaken [OF wp_destroy_secrets])
        (use w1 w2 ps over r in \<open>auto simp: reset_result_of_def reset_undone_def\<close>)
  qed (use w1 over in \<open>auto simp: reset_undone_def reset_same_def\<close>)
qed (auto simp: reset_undone_def)

lemma wp_resetAppsPhase:
  assumes env: "re_connect env = connect" "re_bao env = api" "re_clock env = clk"
    and owners: "owners_named (pgs w)" and depth: "deep_enough depth (held w)"
  shows "wp (resetAppsPhase depth env d req)
     (\<lambda>r w'. cfg_Stage (dp_cfg d) \<in> set resettableStages \<and> params w' = params w
        \<and> (if rq_Confirm req then rs_ResetAppsResult r = Some (reset_result_of (cfg_Stage (dp_cfg d)) (pgs w) (held w))
             \<and> apps_reset d (params w) (pgs w) (pgs w') \<and> held w' = held w - below (held w) hiltSecretsRoot
           else rs_ResetAppsPlan r = Some (reset_plan_of (cfg_Stage (dp_cfg d)) (pgs w) (held w)) \<and> same w w'))
     (\<lambda>_ w'. params w' = params w \<and> (same w w' \<or> rq_Confirm req \<and> cfg_Stage (dp_cfg d) \<in> set resettableStages
        \<and> reset_undone d (params w) (pgs w) (held w) (pgs w') (held w'))) w"
    (is "wp _ ?Q ?E w")
proof (cases "checkResettableStage (cfg_Stage (dp_cfg d))")
  case None
  then have stage: "cfg_Stage (dp_cfg d) \<in> set resettableStages"
    by (simp add: checkResettableStage_def split: if_splits)
  show ?thesis unfolding resetAppsPhase_def None option.case env
  proof (rule wp_ifI, simp add: wp_failE reset_same_def, rule wp_bindI [OF wp_connectAsMaster], goal_cases)
    case (1 conn w1)
    then have conn: "reset_conn pgs params held conn" and w1: "same w w1" by blast+
    then have close: "same v (px_Close conn v)" for v unfolding reset_conn_def by blast
    show ?case unfolding wp_deferE
    proof (rule wp_bindI [OF wp_openBaoAsRoot [OF env(2,3)]], goal_cases)
      case (1 bao w2)
      then have w2: "pgs w2 = pgs w" "held w2 = held w" "params w2 = params w" using w1 by (auto simp: reset_same_def)
      have deep: "deep_enough depth (held w2)" unfolding w2 by (rule depth)
      show ?case
      proof (rule wp_bindI [OF wp_planResetApps [OF conn deep]], goal_cases)
        case (1 plan w3)
        then have w3: "pgs w3 = pgs w" "held w3 = held w" "params w3 = params w" using w2 by (auto simp: reset_same_def)
        have owners3: "owners_named (pgs w3)" and deep3: "deep_enough depth (held w3)" unfolding w3 by (rule owners, rule depth)
        show ?case
        proof (rule wp_ifI)
          assume "\<not> rq_Confirm req"
          then show "wp (returnE ((response_of ''reset-apps'')\<lparr>rs_DryRun := True, rs_ResetAppsPlan := Some plan\<rparr>))
              (\<lambda>a w'. ?Q a (px_Close conn w')) (\<lambda>e w'. ?E e (px_Close conn w')) w3"
            using 1 w2 w3 stage close [of w3] by (simp add: wp_returnE reset_same_def)
        next
          assume "\<not> \<not> rq_Confirm req"
          then show "wp (bindE (applyResetApps depth api d (px_db conn) bao) (\<lambda>result.
                returnE ((response_of ''reset-apps'')\<lparr>rs_ResetAppsResult := Some result\<rparr>)))
              (\<lambda>a w'. ?Q a (px_Close conn w')) (\<lambda>e w'. ?E e (px_Close conn w')) w3"
            by (intro wp_bindI [OF wp_applyResetApps [OF conn owners3 deep3]])
              (use w3 stage close in \<open>simp_all add: wp_returnE reset_same_def\<close>)
        qed
      qed (use w2 close in \<open>auto simp: reset_same_def\<close>)
    qed (use w1 close in \<open>auto simp: reset_same_def\<close>)
  qed (simp add: reset_same_def)
qed (simp add: resetAppsPhase_def wp_failE reset_same_def)

end

section \<open>The stage in memory\<close>

text \<open>SSM on the left, Postgres in the middle, OpenBao on the right.\<close>

type_synonym reset_world = "fake_ssm \<times> fake_pg \<times> fake_bao"

definition on_mid :: "(fake_pg, 'a) act \<Rightarrow> (reset_world, 'a) act" where
  "on_mid m = on_snd (on_fst m)"

definition mid_conn :: "fake_pg pg_conn \<Rightarrow> reset_world pg_conn" where
  "mid_conn conn =
     \<lparr>pg_Exec = (\<lambda>sql. on_mid (pg_Exec conn sql)), pg_QueryBool = (\<lambda>sql n. on_mid (pg_QueryBool conn sql n)),
      pg_QueryText = (\<lambda>sql n. on_mid (pg_QueryText conn sql n)), pg_Sanitize = pg_Sanitize conn\<rparr>"

definition reset_pgs :: "reset_world \<Rightarrow> pg_state" where
  "reset_pgs w = fp_state (fst (snd w))"

definition reset_params :: "reset_world \<Rightarrow> ssm_table" where
  "reset_params w = fake_held (fst w)"

definition reset_held :: "reset_world \<Rightarrow> string set" where
  "reset_held w = fake_tenant_secrets (snd (snd w))"

definition reset_clock :: "reset_world clock" where
  "reset_clock = \<lparr>ck_Now = (\<lambda>w. fb_now (snd (snd w))), ck_Sleep = (\<lambda>n (s, p, b). (s, p, b\<lparr>fb_now := fb_now b + n\<rparr>))\<rparr>"

definition reset_api :: "reset_world bao_api" where
  "reset_api = snd_bao_api (snd_bao_api (fake_bao_api 0))"

definition reset_connection :: "reset_world pgx_conn" where
  "reset_connection =
     \<lparr>px_querier = \<lparr>qr_QueryText = (\<lambda>_ _. failE bad_query), qr_QueryCount = (\<lambda>_ _. failE bad_query), qr_Query = (\<lambda>_ _. failE bad_query)\<rparr>,
      px_db = mid_conn fake_pg_conn, px_Begin = failE bad_query, px_Close = (\<lambda>w. w)\<rparr>"

definition master_secret :: string where
  "master_secret = Marshal_map [(''username'', ''forge''), (''password'', ''m4ster'')]"

definition reset_deps :: "reset_world deps" where
  "reset_deps =
     \<lparr>dp_cfg = test_config\<lparr>cfg_OpenBaoAddr := ''http://bao''\<rparr>,
      dp_store = \<lparr>ssm_client = fst_ssm_api fake_ssm_api, ssm_stage = ''dev''\<rparr>,
      dp_keys = \<lparr>sec_client = no_secrets, sec_stage = ''dev''\<rparr>,
      dp_secrets = no_secrets\<lparr>GetSecretValue := (\<lambda>_. returnE (master_secret, ''v1''))\<rparr>\<rparr>"

lemma on_mid_wp:
  "wp (on_mid m) Q E w
     = wp m (\<lambda>a b. Q a (fst w, b, snd (snd w))) (\<lambda>e b. E e (fst w, b, snd (snd w))) (fst (snd w))"
  by (simp add: on_mid_def on_snd_wp on_fst_wp)

lemma mid_server: "pg_server (mid_conn fake_pg_conn) reset_pgs"
  by unfold_locales (unfold mid_conn_def pg_conn.select_convs on_mid_wp reset_pgs_def fst_conv snd_conv,
    (rule fake_pg.role_exists fake_pg.database_exists fake_pg.database_owner fake_pg.create_role fake_pg.set_password
      fake_pg.set_setting fake_pg.grant fake_pg.create_database fake_pg.drop_database; assumption?)+)

lemma mid_apart: "keeps (\<lambda>w w'. reset_params w' = reset_params w \<and> reset_held w' = reset_held w) (on_mid m)"
  by (simp add: keeps_def on_mid_def on_snd_def on_fst_def Let_def case_prod_beta reset_params_def reset_held_def)

lemma reset_connection_laws: "reset_conn reset_pgs reset_params reset_held reset_connection"
  using mid_server by (simp add: reset_conn_def reset_connection_def reset_same_def mid_conn_def mid_apart)

lemma reset_api_calls:
  "bao_List reset_api c p = on_snd (on_snd (bao_List (fake_bao_api 0) c p))"
  "bao_DeleteMetadata reset_api c m p = on_snd (on_snd (bao_DeleteMetadata (fake_bao_api 0) c m p))"
  "bao_SealStatus reset_api c = on_snd (on_snd (bao_SealStatus (fake_bao_api 0) c))"
  "bao_NewClient reset_api a = on_snd (on_snd (bao_NewClient (fake_bao_api 0) a))"
  by (simp_all add: reset_api_def snd_bao_api_def)

interpretation fake_reset: reset_stage "fst_ssm_api fake_ssm_api" reset_params fake_pages reset_api reset_held reset_pgs
    reset_clock "\<lambda>w. fake_health 0 (snd (snd w))" "\<lambda>_. returnE reset_connection" reset_deps
proof (intro reset_stage.intro)
  show "ssm_service (fst_ssm_api fake_ssm_api) reset_params fake_pages"
    using fst_ssm_service by (simp add: reset_params_def [abs_def])
  show "tenant_secrets reset_api reset_held (\<lambda>w. (reset_pgs w, reset_params w))"
  proof (unfold_locales, goal_cases)
    case (1 c folder w)
    show ?case unfolding reset_api_calls on_snd_wp reset_held_def reset_pgs_def reset_params_def fst_conv snd_conv
      by (rule wp_weaken [OF fake_tenants.lists]) simp_all
  next
    case (2 p w)
    then show ?case unfolding reset_held_def by (rule fake_tenants.paths)
  next
    case (3 c p w)
    show ?case unfolding reset_api_calls on_snd_wp reset_held_def reset_pgs_def reset_params_def fst_conv snd_conv
      by (rule wp_weaken [OF fake_tenants.destroy]) simp_all
  qed
  show "bao_waits reset_clock reset_api (\<lambda>w. fake_health 0 (snd (snd w)))"
  proof (unfold_locales, goal_cases)
    case (2 c w)
    show ?case unfolding reset_api_calls on_snd_wp
      by (rule wp_weaken [OF fake_bao.polls]) (simp_all add: reset_clock_def fake_clock_def)
  qed (simp add: reset_clock_def case_prod_beta)
  show "reset_stage_axioms (fst_ssm_api fake_ssm_api) reset_params reset_api reset_held reset_pgs reset_clock
      (\<lambda>_. returnE reset_connection) reset_deps"
  proof (unfold_locales, goal_cases)
    case (2 dsn w)
    then show ?case by (simp add: wp_returnE reset_connection_laws reset_same_def)
  next
    case (3 p dec)
    then show ?case by (simp add: keeps_def on_fst_def Let_def case_prod_beta reset_pgs_def reset_held_def)
  qed (auto simp: reset_deps_def wp_returnE reset_same_def keeps_def reset_api_calls on_snd_def Let_def fake_bao_api_def
      fake_SealStatus_def returnE_def reset_pgs_def reset_params_def reset_held_def fake_tenant_secrets_def reset_clock_def wp_def
      split: prod.split)
qed

section \<open>Properties\<close>

text \<open>
  C3. A reset runs on dev and staging only and leaves the stage ready to start again. After a confirmed run
  that succeeds each of the four apps' databases exists and is owned by the app's own role, which logs in
  with the password SSM holds, every other database and role is as before, every secret under
  \<open>tenant/\<close> is destroyed and no other, and the response names what was dropped and counts what was destroyed. A
  run that fails has touched no other database, has left at most one missing, and has destroyed tenant
  secrets only after every database was remade. An unconfirmed run changes nothing and reports the same
  databases and count. SSM keeps every parameter throughout.
\<close>

theorem reset_apps_outcome:
  assumes "reset_stage papi params pages api held pgs clk health connect d"
    and "owners_named (pgs w)" "deep_enough depth (held w)"
  shows "wp (resetAppsPhase depth \<lparr>re_connect = connect, re_bao = api, re_clock = clk, re_ctx = ctx\<rparr> d req)
     (\<lambda>r w'. cfg_Stage (dp_cfg d) \<in> set resettableStages \<and> params w' = params w
        \<and> (if rq_Confirm req then rs_ResetAppsResult r = Some (reset_result_of (cfg_Stage (dp_cfg d)) (pgs w) (held w))
             \<and> apps_reset d (params w) (pgs w) (pgs w') \<and> held w' = held w - below (held w) hiltSecretsRoot
           else rs_ResetAppsPlan r = Some (reset_plan_of (cfg_Stage (dp_cfg d)) (pgs w) (held w))
             \<and> pgs w' = pgs w \<and> held w' = held w))
     (\<lambda>_ w'. params w' = params w \<and> (pgs w' = pgs w \<and> held w' = held w
        \<or> rq_Confirm req \<and> cfg_Stage (dp_cfg d) \<in> set resettableStages
          \<and> reset_undone d (params w) (pgs w) (held w) (pgs w') (held w'))) w"
  by (rule wp_weaken [OF reset_stage.wp_resetAppsPhase [OF assms(1) _ _ _ assms(2,3)]])
    (auto simp: reset_same_def)

text \<open>A stage with two of the databases and three tenant secrets.\<close>

definition staging_world :: reset_world where
  "staging_world =
     (fake_with (map (\<lambda>n. (''/forge-central/dev/'' @ n @ ''/postgres-password'', ''abc123'')) appDatabases
        @ [(''/forge-central/dev/openbao/root-token'', ''root'')]),
      (test_pg False)\<lparr>fp_state := \<lparr>pg_roles = [''hilt'' \<mapsto> \<lparr>rl_login = True, rl_password = None, rl_settings = Map.empty\<rparr>],
        pg_dbs = [''hilt'' \<mapsto> ''hilt'', ''swarf'' \<mapsto> ''forge'', ''openbao'' \<mapsto> ''openbao''], pg_admin = {}\<rparr>\<rparr>,
      secrets_bao)"

definition confirmed_reset :: provision_request where
  "confirmed_reset = (event_of ''reset-apps'')\<lparr>rq_Confirm := True\<rparr>"

theorem reset_apps_outcome_witness:
  "wp (resetAppsPhase 3 \<lparr>re_connect = (\<lambda>_. returnE reset_connection), re_bao = reset_api, re_clock = reset_clock, re_ctx = None\<rparr>
        reset_deps confirmed_reset)
     (\<lambda>r w'. rs_ResetAppsResult r = Some (reset_result_of ''dev'' (reset_pgs staging_world) (reset_held staging_world))
        \<and> apps_reset reset_deps (reset_params staging_world) (reset_pgs staging_world) (reset_pgs w')
        \<and> reset_held w' = reset_held staging_world - below (reset_held staging_world) hiltSecretsRoot)
     (\<lambda>_ _. True) staging_world"
proof (rule wp_weaken [OF reset_apps_outcome [OF fake_reset.reset_stage_axioms]], goal_cases)
  case 1
  show ?case by (auto simp: owners_named_def reset_pgs_def staging_world_def pg_name_def split: if_splits)
next
  case 2
  have "slashes t < 3" if "hiltSecretsRoot @ t \<in> reset_held staging_world" for t
  proof -
    have "hiltSecretsRoot @ t \<in> set [''tenant/a/key'', ''tenant/a/deep/er'', ''tenant/b'', ''other/x'']"
      using that by (simp add: reset_held_def staging_world_def fake_tenant_secrets_def secrets_bao_def)
    then have "t \<in> set [''a/key'', ''a/deep/er'', ''b'']" by (auto simp: hiltSecretsRoot_def)
    then show ?thesis by (auto simp: slashes_def)
  qed
  then show ?case by (simp add: deep_enough_def)
qed (simp_all add: confirmed_reset_def event_of_def reset_deps_def test_config_def)

end
