(* ===== verification/PiriWallet.thy ===== *)
theory PiriWallet
imports Keygen Json
begin

text \<open>
  The wallet file of piri (\<open>ParseEVMWalletPiriHex\<close> of \<open>internal/keygen/wallet.go\<close>): hex around JSON around base64.
\<close>

definition ParseEVMWalletPiriHex :: "('w, 'k) secec_lib \<Rightarrow> string \<Rightarrow> evm_wallet result" where
  "ParseEVMWalletPiriHex lib stored =
     (case hex_DecodeString (trim_space stored) of
        Inl err \<Rightarrow> Fail (wrap ''decode wallet hex: '' err)
      | Inr raw \<Rightarrow>
     (case Unmarshal_strings [''Type'', ''PrivateKey''] raw of
        Inl err \<Rightarrow> Fail (wrap ''decode wallet JSON: '' err)
      | Inr vals \<Rightarrow>
          let wallet_Type = vals ! 0; wallet_PrivateKey = vals ! 1 in
          if wallet_Type \<noteq> piriWalletType then
            Fail (Errorf (''unexpected wallet type '' @ go_quote wallet_Type @ '' (want '' @ go_quote piriWalletType @ '')''))
          else
     (case b64_DecodeString wallet_PrivateKey of
        Inl err \<Rightarrow> Fail (wrap ''decode wallet private key base64: '' err)
      | Inr keyBytes \<Rightarrow> newEVMWalletFromKeyBytes lib keyBytes)))"

section \<open>Facts\<close>

text \<open>Base64 text is plain in JSON.\<close>

definition json_plain :: "char \<Rightarrow> bool" where
  "json_plain c \<longleftrightarrow> byte c < 0x80 \<and> json_ascii c = [c]"

lemma json_plain_escape: "list_all json_plain s \<Longrightarrow> json_escape s = s \<and> ascii s"
  by (induction s) (auto simp: json_plain_def ascii_def)

lemma json_plain_byte: "0x21 \<le> byte c \<Longrightarrow> byte c < 0x80 \<Longrightarrow> byte c \<notin> {0x22, 0x26, 0x3C, 0x3E, 0x5C} \<Longrightarrow> json_plain c"
  by (auto simp: json_plain_def json_ascii_def)

lemma json_plain_b64: "n < 64 \<Longrightarrow> json_plain (b64_char n)"
  by (rule json_plain_byte) (auto simp: b64_char_def of_char_of)

lemma json_plain_encoded: "list_all json_plain (b64_EncodeToString s)"
proof -
  have pad: "json_plain (CHR ''='')" by (simp add: json_plain_def json_ascii_def)
  have byte: "byte x < 256" for x by simp
  have "256 * byte x + byte y < 65536" "65536 * byte x + 256 * byte y + byte z < 16777216" for x y z :: char
    using byte [of x] byte [of y] byte [of z] by linarith+
  then have less: "byte x div 4 < 64" "(256 * byte x + byte y) div 1024 < 64"
    "(65536 * byte x + 256 * byte y + byte z) div 262144 < 64" for x y z :: char
    by (simp_all add: div_less_iff_less_mult)
  show ?thesis
    by (induction s rule: b64_EncodeToString.induct) (simp_all add: Let_def pad json_plain_b64 less)
qed

text \<open>The text of the file is the JSON the encoder would write.\<close>

lemma piri_wallet_json:
  "''{\"Type\":'' @ go_quote piriWalletType @ '',\"PrivateKey\":\"'' @ b64_EncodeToString key @ ''\"}''
     = ''{'' @ join '','' (map json_member [(''Type'', piriWalletType), (''PrivateKey'', b64_EncodeToString key)]) @ ''}''"
proof -
  have "json_quote ''Type'' = ''\"Type\"''" "json_quote ''PrivateKey'' = ''\"PrivateKey\"''"
    "json_quote piriWalletType = go_quote piriWalletType"
    by code_simp+
  then show ?thesis using json_plain_escape [OF json_plain_encoded [of key]] by (simp add: json_member_def json_quote_def)
qed

lemma Unmarshal_piri_wallet:
  "Unmarshal_strings [''Type'', ''PrivateKey''] (''{\"Type\":'' @ go_quote piriWalletType @ '',\"PrivateKey\":\"'' @ b64_EncodeToString key @ ''\"}'')
     = Inr [piriWalletType, b64_EncodeToString key]"
proof -
  have "list_all (\<lambda>kv. ascii (fst kv) \<and> ascii (snd kv)) [(''Type'', piriWalletType), (''PrivateKey'', b64_EncodeToString key)]"
    using json_plain_escape [OF json_plain_encoded [of key]] by (simp add: ascii_def piriWalletType_def)
  note parsed = json_parse_object [OF _ this]
  show ?thesis unfolding piri_wallet_json Unmarshal_strings_def parsed [OF list.distinct(2)]
    by (simp add: json_fits_def json_field_def)
qed

section \<open>Properties\<close>

text \<open>
  C39. Piri's wallet file round trips: the hex of the JSON that holds the wallet's type and its key in
  base64 reads back as the same key and the same address, whatever bytes the key has, if the library reads the key bytes it writes.
\<close>

theorem piri_wallet_roundtrip:
  assumes "secec_NewPrivateKey lib (secec_Bytes lib priv) = Inr priv" "newEVMWallet lib priv = Ok w"
  shows "ParseEVMWalletPiriHex lib (PiriWalletHex w) = Ok w"
proof -
  have "ew_priv w = secec_Bytes lib priv"
    using assms(2) by (auto simp: newEVMWallet_def Let_def split: if_splits option.splits)
  then have key: "newEVMWalletFromKeyBytes lib (ew_priv w) = Ok w"
    using assms by (simp add: newEVMWalletFromKeyBytes_def)
  show ?thesis
    unfolding ParseEVMWalletPiriHex_def PiriWalletHex_def trim_space_hex hex_roundtrip sum.case Unmarshal_piri_wallet
    by (simp add: key)
qed

theorem piri_wallet_roundtrip_witness:
  "\<exists>w. ew_priv w = ''key'' \<and> ParseEVMWalletPiriHex toy_secec (PiriWalletHex w) = Ok w"
proof -
  obtain w where "newEVMWallet toy_secec ''key'' = Ok w" "ew_priv w = ''key''" using toy_wallet by blast
  moreover from this(1) have "ParseEVMWalletPiriHex toy_secec (PiriWalletHex w) = Ok w"
    by (rule piri_wallet_roundtrip [rotated]) (simp add: toy_secec_def)
  ultimately show ?thesis by blast
qed

end
