(* ===== verification/Unlocked.thy ===== *)
theory Unlocked
imports DbInit
begin

text \<open>
  What \<open>dbinit.Ensure\<close> never takes away, wherever it stops: a role that logs in with the password it is to have goes on doing so.
\<close>

text \<open>Of the roles with these passwords, those that log in go on doing so.\<close>

definition unlocked :: "(string \<times> string) set \<Rightarrow> pg_state \<Rightarrow> pg_state \<Rightarrow> bool" where
  "unlocked K s s' \<longleftrightarrow> (\<forall>n p. (n, p) \<in> K \<longrightarrow> role_ready s n p \<longrightarrow> role_ready s' n p)"

lemma unlocked_refl [simp]: "unlocked K s s"
  by (simp add: unlocked_def)

lemma unlocked_trans: "unlocked K s s1 \<Longrightarrow> unlocked K s1 s' \<Longrightarrow> unlocked K s s'"
  by (simp add: unlocked_def)

lemma unlocked_same_roles: "pg_roles s' = pg_roles s \<Longrightarrow> unlocked K s s'"
  by (simp add: unlocked_def role_ready_def)

definition passwords_of :: "database \<Rightarrow> (string \<times> string) list" where
  "passwords_of db = (OwnerRole db, db_Password db) # map (\<lambda>r. (role_Name r, role_Password r)) (db_LoginRoles db)"

definition one_password :: "(string \<times> string) set \<Rightarrow> string \<Rightarrow> string \<Rightarrow> bool" where
  "one_password K n p \<longleftrightarrow> (\<forall>q. (n, q) \<in> K \<longrightarrow> q = p)"

lemma unlocked_put:
  assumes "pg_roles s n = Some r" "one_password K n p"
  shows "unlocked K s (put_role n (r\<lparr>rl_login := True, rl_password := Some p\<rparr>) s)"
    "unlocked K s (put_role n (r\<lparr>rl_settings := f\<rparr>) s)"
  using assms by (auto simp: unlocked_def role_ready_def one_password_def)

lemma unlocked_new: "pg_roles s n = None \<Longrightarrow> unlocked K s (put_role n r s)"
  by (auto simp: unlocked_def role_ready_def)

context pg_server
begin

lemma wp_unlocked_login:
  assumes n: "pg_name n" and p: "hexOnly p" "one_password K n p" and u: "unlocked K s (st w)"
  shows "wp (ensureLoginRole conn n p) (\<lambda>_ w'. unlocked K s (st w') \<and> pg_roles (st w') n \<noteq> None) (\<lambda>_ w'. unlocked K s (st w')) w"
proof -
  have set_pw: "wp (mapErr g (pg_Exec conn (sql_set_password (pg_Sanitize conn n) p)))
      (\<lambda>_ w'. unlocked K s (st w') \<and> pg_roles (st w') n \<noteq> None) (\<lambda>_ w'. unlocked K s (st w')) w1"
    if "unlocked K s (st w1)" "pg_roles (st w1) n \<noteq> None" for g w1
  proof -
    note held = \<open>unlocked K s (st w1)\<close> \<open>pg_roles (st w1) n \<noteq> None\<close>
    obtain r where r: "pg_roles (st w1) n = Some r" using held(2) by blast
    note step = unlocked_trans [OF held(1) unlocked_put(1) [OF r p(2)]]
    show ?thesis unfolding wp_mapErr
      by (rule wp_weaken [OF set_password [OF n p(1) r]]) (use step held in auto)
  qed
  show ?thesis unfolding ensureLoginRole_def Let_def
  proof (rule wp_bind_mapErr [OF role_exists], goal_cases)
    case (2 b w1)
    have "wp (if \<not> b then unlessDuplicate pre (pg_Exec conn (sql_create_role (pg_Sanitize conn n))) else returnE ())
        (\<lambda>_ w2. unlocked K s (st w2) \<and> pg_roles (st w2) n \<noteq> None) (\<lambda>_ w2. unlocked K s (st w2)) w1" for pre
    proof (rule wp_ifI)
      assume "\<not> b"
      then show "wp (unlessDuplicate pre (pg_Exec conn (sql_create_role (pg_Sanitize conn n))))
          (\<lambda>_ w2. unlocked K s (st w2) \<and> pg_roles (st w2) n \<noteq> None) (\<lambda>_ w2. unlocked K s (st w2)) w1"
        unfolding unlessDuplicate_def wp_catchE
        by (intro wp_weaken [OF create_role [OF n]]) (use 2 u unlocked_trans [OF u unlocked_new [of "st w" n]] in \<open>auto simp: wp_simps\<close>)
    qed (use 2 u in \<open>auto simp: wp_returnE\<close>)
    then show ?case by (rule wp_thenI) (blast intro: set_pw)+
  qed (use u in simp)
qed

lemma wp_unlocked_settings:
  assumes n: "pg_name n" and "list_all safe_setting ss" "one_password K n p" and "unlocked K s (st w)" "pg_roles (st w) n \<noteq> None"
  shows "wp (forE (\<lambda>x. mapErr (g x) (pg_Exec conn (sql_set_setting (pg_Sanitize conn n) x))) ss)
      (\<lambda>_ w'. unlocked K s (st w') \<and> pg_roles (st w') n \<noteq> None) (\<lambda>_ w'. unlocked K s (st w')) w"
proof (rule wp_forE_inv, goal_cases)
  case (1 x w1)
  then obtain r where r: "pg_roles (st w1) n = Some r" by blast
  note step = unlocked_trans [OF conjunct1 [OF 1(2)] unlocked_put(2) [OF r assms(3)]]
  have "safe_setting x" using assms(2) 1(1) by (simp add: list_all_iff)
  then show ?case unfolding wp_mapErr
    by (intro wp_weaken [OF set_setting [OF n _ r]]) (use step 1 in auto)
qed (use assms in simp)

lemma wp_unlocked_one:
  assumes ok: "database_ok db" and K: "\<And>n p. (n, p) \<in> set (passwords_of db) \<Longrightarrow> one_password K n p" and u: "unlocked K s (st w)"
  shows "wp (ensureOne conn db) (\<lambda>_ w'. unlocked K s (st w')) (\<lambda>_ w'. unlocked K s (st w')) w"
proof -
  have n: "pg_name (db_Name db)" and o': "pg_name (OwnerRole db)" and p: "hexOnly (db_Password db)"
    and rs: "r \<in> set (db_LoginRoles db) \<Longrightarrow> pg_name (role_Name r) \<and> hexOnly (role_Password r) \<and> list_all safe_setting (role_Settings r)" for r
    using ok by (auto simp: database_ok_def validate_None roles_of_def list_all_iff)
  have one: "one_password K (OwnerRole db) (db_Password db)" by (rule K) (simp add: passwords_of_def)
  have login: "wp (thenE (ensureLoginRole conn (role_Name r) (role_Password r)) (ensureSettings conn r))
      (\<lambda>_ w'. unlocked K s (st w')) (\<lambda>_ w'. unlocked K s (st w')) w1"
    if r: "r \<in> set (db_LoginRoles db)" and u1: "unlocked K s (st w1)" for r w1
  proof -
    have other: "one_password K (role_Name r) (role_Password r)" by (rule K) (use r in \<open>auto simp: passwords_of_def\<close>)
    show ?thesis unfolding ensureSettings_def
      by (rule wp_thenI [OF wp_unlocked_login [OF _ _ other u1]])
        (use rs [OF r] in \<open>auto intro: wp_weaken [OF wp_unlocked_settings [OF _ _ other]]\<close>)
  qed
  show ?thesis unfolding ensureOne_def Let_def
  proof (rule wp_thenI [OF wp_unlocked_login [OF o' p one u]], goal_cases)
    case (1 _ w1)
    show ?case
    proof (rule wp_bind_mapErr [OF database_exists], goal_cases)
      case (2 b w2)
      then have u2: "unlocked K s (st w2)" and b: "b \<longleftrightarrow> pg_dbs (st w2) (db_Name db) \<noteq> None"
        using \<open>unlocked K s (st w1) \<and> _\<close> by auto
      have made: "wp (if \<not> b then thenE (mapErr g (pg_Exec conn (sql_grant (pg_Sanitize conn (OwnerRole db)))))
          (unlessDuplicate pre (pg_Exec conn (sql_create_database (pg_Sanitize conn (db_Name db)) (pg_Sanitize conn (OwnerRole db)))))
        else returnE ()) (\<lambda>_ w'. unlocked K s (st w')) (\<lambda>_ w'. unlocked K s (st w')) w2" for g pre
      proof (rule wp_ifI)
        assume "\<not> b"
        then have absent: "pg_dbs (st w2) (db_Name db) = None" using b by simp
        have "pg_roles s2 = pg_roles s1" if "pg_grows {} D s1 s2" for D s1 s2 using that by (auto simp: pg_grows_def)
        note step = unlocked_trans [OF u2 unlocked_same_roles [OF this]]
        show "wp (thenE (mapErr g (pg_Exec conn (sql_grant (pg_Sanitize conn (OwnerRole db)))))
          (unlessDuplicate pre (pg_Exec conn (sql_create_database (pg_Sanitize conn (db_Name db)) (pg_Sanitize conn (OwnerRole db))))))
          (\<lambda>_ w'. unlocked K s (st w')) (\<lambda>_ w'. unlocked K s (st w')) w2"
          by (rule wp_weaken [OF wp_create_database [OF n o' absent]]) (use step in blast)+
      qed (use u2 in \<open>simp add: wp_returnE\<close>)
      show ?case by (rule wp_thenI [OF made]) (auto intro: wp_forE_inv login)
    qed (use 1 in simp)
  qed
qed

lemma wp_Ensure_unlocked:
  assumes names: "list_all (\<lambda>db. pg_name (db_Name db) \<and> list_all pg_name (roles_of db)) dbs" "distinct (concat (map roles_of dbs))"
    and K: "\<And>db n p. db \<in> set dbs \<Longrightarrow> (n, p) \<in> set (passwords_of db) \<Longrightarrow> one_password K n p"
  shows "wp (dbinit_Ensure conn dbs) (\<lambda>_ w'. unlocked K (st w) (st w')) (\<lambda>_ w'. unlocked K (st w) (st w')) w"
proof (cases "validateAll dbs")
  case None
  moreover have "\<forall>db\<in>set dbs. distinct (roles_of db)" using names(2) by (auto simp: distinct_concat_iff)
  ultimately have ok: "db \<in> set dbs \<Longrightarrow> database_ok db" for db
    using names(1) by (auto simp: validateAll_None database_ok_def list_all_iff)
  show ?thesis unfolding dbinit_Ensure_def None option.case
    by (rule wp_forE_inv) (use ok K wp_unlocked_one in \<open>auto simp: wp_mapErr\<close>)
qed (simp add: dbinit_Ensure_def wp_failE)

end

end
