(* ===== verification/SeedStage.thy ===== *)
theory SeedStage
imports Seed Frames Unlocked
begin

text \<open>
  What a run of the seed phase leaves in SSM, in Secrets Manager and on the Postgres servers (\<open>seed_stage\<close>).
\<close>

section \<open>Generic lemmas\<close>

lemma wp_connect_master:
  assumes R: "world_order R" and secret: "\<And>arn. framed R (GetSecretValue (dp_secrets d) arn)"
    and connects: "\<And>user password w. wp (connect (AdminDSN (db_Host target) (db_Port target) (cfg_DBAdminDatabase (dp_cfg d)) user password))
      (\<lambda>conn w'. C conn \<and> R w w') (\<lambda>_ w'. R w w') w"
  shows "wp (connectAsMaster connect d target) (\<lambda>conn w'. C conn \<and> R w w') (\<lambda>_ w'. R w w') w"
proof -
  have "framed R (masterCredentials d (db_MasterSecret target))"
    unfolding masterCredentials_def Let_def by (intro framed_intros R secret)
  then show ?thesis unfolding connectAsMaster_def Let_def
    by (intro wp_bindI [OF wp_framed])
      (auto simp: wp_mapErr intro!: wp_weaken [OF connects] dest: world_order_trans [OF R] split: prod.split)
qed

section \<open>Names\<close>

lemma last_segment_eq:
  assumes "CHR ''/'' \<notin> set a" "CHR ''/'' \<notin> set b"
  shows "x @ CHR ''/'' # a = y @ CHR ''/'' # b \<longleftrightarrow> x = y \<and> a = b"
proof
  assume "x @ CHR ''/'' # a = y @ CHR ''/'' # b"
  then have "rev a @ CHR ''/'' # rev x = rev b @ CHR ''/'' # rev y"
    by (metis append.assoc append_Cons append_Nil rev.simps(2) rev_append)
  then have "cut_at (rev a @ CHR ''/'' # rev x) (CHR ''/'') = cut_at (rev b @ CHR ''/'' # rev y) (CHR ''/'')" by simp
  then show "x = y \<and> a = b" using assms by simp
qed simp

text \<open>The names of a stage's parameters and secrets have no slash.\<close>

lemma Path_eq:
  assumes "CHR ''/'' \<notin> set a" "CHR ''/'' \<notin> set b"
  shows "Path s x a = Path s y b \<longleftrightarrow> x = y \<and> a = b"
proof -
  have "Path s z c = (''/forge-central/'' @ ssm_stage s @ ''/'' @ z) @ CHR ''/'' # c" for z c by (simp add: Path_def)
  then show ?thesis using last_segment_eq [OF assms] by simp
qed

lemma sec_Name_eq:
  assumes "CHR ''/'' \<notin> set a" "CHR ''/'' \<notin> set b"
  shows "sec_Name s x a = sec_Name s y b \<longleftrightarrow> x = y \<and> a = b"
proof -
  have "sec_Name s z c = (''forge-central/'' @ sec_stage s @ ''/'' @ z) @ CHR ''/'' # c" for z c by (simp add: sec_Name_def)
  then show ?thesis using last_segment_eq [OF assms] by simp
qed

text \<open>What is minted once and never changed again.\<close>

definition once :: "string set" where
  "once = {''postgres-password'', ''partner-key''}"

text \<open>What one run does not write over, unless it is a service's connection string.\<close>

definition stable :: "string set" where
  "stable = insert ''postgres-dsn'' once"

text \<open>A label without the letter that starts the text the code recognises a refusal by.\<close>

definition plain_stage :: "string \<Rightarrow> bool" where
  "plain_stage s \<longleftrightarrow> CHR ''P'' \<notin> set s"

lemma plain_Path:
  assumes "plain_stage (ssm_stage s)" "CHR ''P'' \<notin> set service" "CHR ''P'' \<notin> set name"
  shows "\<not> contains (Path s service name) ''ParameterAlreadyExists''"
proof
  assume "contains (Path s service name) ''ParameterAlreadyExists''"
  then have "CHR ''P'' \<in> set (Path s service name)" by (auto simp: sublist_def)
  then show False using assms by (auto simp: Path_def plain_stage_def)
qed

definition once_params :: "'w deps \<Rightarrow> string set" where
  "once_params d = {Path (dp_store d) service name | service name. name \<in> once}"

definition minted_keys :: "'w deps \<Rightarrow> string set" where
  "minted_keys d = {sec_Name (dp_keys d) service name | service name. CHR ''/'' \<notin> set name \<and> name \<noteq> ''identity-multibase''}"

lemma not_once: "name \<notin> once \<Longrightarrow> CHR ''/'' \<notin> set name \<Longrightarrow> Path (dp_store d) service name \<notin> once_params d"
proof
  assume name: "name \<notin> once" "CHR ''/'' \<notin> set name" and "Path (dp_store d) service name \<in> once_params d"
  then obtain service' name' where "Path (dp_store d) service name = Path (dp_store d) service' name'" "name' \<in> once"
    unfolding once_params_def by blast
  moreover from this(2) have "CHR ''/'' \<notin> set name'" by (auto simp: once_def)
  ultimately show False using Path_eq name by metis
qed

lemma not_minted: "sec_Name (dp_keys d) service ''identity-multibase'' \<notin> minted_keys d"
proof
  assume "sec_Name (dp_keys d) service ''identity-multibase'' \<in> minted_keys d"
  then obtain service' name' where "sec_Name (dp_keys d) service ''identity-multibase'' = sec_Name (dp_keys d) service' name'"
    "CHR ''/'' \<notin> set name'" "name' \<noteq> ''identity-multibase''"
    unfolding minted_keys_def by blast
  then show False using sec_Name_eq [of "''identity-multibase''" name' "dp_keys d" service service'] by simp
qed

text \<open>What the moves take out of SSM.\<close>

definition legacy_names :: "string set" where
  "legacy_names = {''identity'', ''identity-multibase'', ''payer-key'', ''transactor-key''}"

definition legacy_params :: "'w deps \<Rightarrow> string set" where
  "legacy_params d = {Path (dp_store d) service name | service name. name \<in> legacy_names}"

lemma not_legacy: "name \<notin> legacy_names \<Longrightarrow> CHR ''/'' \<notin> set name \<Longrightarrow> Path (dp_store d) service name \<notin> legacy_params d"
proof
  assume name: "name \<notin> legacy_names" "CHR ''/'' \<notin> set name" and "Path (dp_store d) service name \<in> legacy_params d"
  then obtain service' name' where "Path (dp_store d) service name = Path (dp_store d) service' name'" "name' \<in> legacy_names"
    unfolding legacy_params_def by blast
  moreover from this(2) have "CHR ''/'' \<notin> set name'" by (auto simp: legacy_names_def)
  ultimately show False using Path_eq name by metis
qed

lemma once_not_legacy: "p \<in> once_params d \<Longrightarrow> p \<notin> legacy_params d"
proof -
  assume "p \<in> once_params d"
  then obtain service name where "p = Path (dp_store d) service name" "name \<in> once" unfolding once_params_def by blast
  then show "p \<notin> legacy_params d" using not_legacy [of name d service] by (auto simp: once_def legacy_names_def)
qed

text \<open>A server, by the address the code dials.\<close>

definition server_of :: "string \<Rightarrow> int \<Rightarrow> string" where
  "server_of host port = host @ '':'' @ itoa port"

definition seed_targets :: "config \<Rightarrow> dbTarget set" where
  "seed_targets cfg = insert (centralDB cfg) (set_option (cfg_Pandora cfg))"

definition password_path :: "'w deps \<Rightarrow> string \<Rightarrow> string" where
  "password_path d service = Path (dp_store d) service ''postgres-password''"

definition dsn_path :: "'w deps \<Rightarrow> string \<Rightarrow> string" where
  "dsn_path d service = Path (dp_store d) service ''postgres-dsn''"

definition creds_path :: "'w deps \<Rightarrow> string \<Rightarrow> string" where
  "creds_path d service = Path (dp_store d) service ''db-creds-json''"

lemma seed_paths_differ [simp]:
  "password_path d s = password_path d s' \<longleftrightarrow> s = s'" "dsn_path d s = dsn_path d s' \<longleftrightarrow> s = s'" "creds_path d s = creds_path d s' \<longleftrightarrow> s = s'"
  "password_path d s \<noteq> dsn_path d s'" "dsn_path d s \<noteq> password_path d s'" "password_path d s \<noteq> creds_path d s'"
  "creds_path d s \<noteq> password_path d s'" "dsn_path d s \<noteq> creds_path d s'" "creds_path d s \<noteq> dsn_path d s'"
  by (simp_all add: password_path_def dsn_path_def creds_path_def Path_eq)

definition pandora_roles :: "string set" where
  "pandora_roles = insert pandoraOwner (fst ` set pandoraLoginRoles)"


lemma not_stable:
  assumes "name \<notin> stable" "CHR ''/'' \<notin> set name"
  shows "Path (dp_store d) service name \<notin> once_params d" "Path (dp_store d) service name \<noteq> dsn_path d s"
  using assms not_once [of name d service] by (auto simp: stable_def dsn_path_def Path_eq)

text \<open>A login the seed makes, and the service that reads its password and its connection string.\<close>

record account =
  ac_service :: string
  ac_role :: string
  ac_database :: string
  ac_target :: dbTarget
  ac_mode :: string

definition seed_accounts :: "config \<Rightarrow> account set" where
  "seed_accounts cfg =
     (\<lambda>n. \<lparr>ac_service = n, ac_role = n, ac_database = n, ac_target = centralDB cfg, ac_mode = SSLRequire\<rparr>) ` set databaseConsumers
     \<union> (\<lambda>(target, r). \<lparr>ac_service = ssmService r, ac_role = r, ac_database = pandoraDatabase, ac_target = target, ac_mode = SSLVerifyFull\<rparr>)
         ` (set_option (cfg_Pandora cfg) \<times> pandora_roles)"

definition account_server :: "account \<Rightarrow> string" where
  "account_server a = server_of (db_Host (ac_target a)) (db_Port (ac_target a))"

definition account_dsn :: "account \<Rightarrow> string \<Rightarrow> string" where
  "account_dsn a password = DSN (db_Host (ac_target a)) (db_Port (ac_target a)) (ac_database a) (ac_role a) password (ac_mode a)"

text \<open>An account works when its role logs in with the stored password, which is the one in the stored connection string.\<close>

definition account_works :: "'w deps \<Rightarrow> (string \<Rightarrow> string option) \<Rightarrow> (string \<Rightarrow> pg_state) \<Rightarrow> account \<Rightarrow> bool" where
  "account_works d T servers a \<longleftrightarrow>
     (\<exists>password. T (password_path d (ac_service a)) = Some password
        \<and> T (dsn_path d (ac_service a)) = Some (account_dsn a password)
        \<and> role_ready (servers (account_server a)) (ac_role a) password)"

lemma account_works_stays:
  assumes "account_works d T servers a"
    and "\<And>p. T (password_path d (ac_service a)) = Some p \<Longrightarrow> T' (password_path d (ac_service a)) = Some p
      \<and> (T (dsn_path d (ac_service a)) = Some (account_dsn a p) \<longrightarrow> T' (dsn_path d (ac_service a)) = Some (account_dsn a p))
      \<and> (role_ready (servers (account_server a)) (ac_role a) p \<longrightarrow> role_ready (servers' (account_server a)) (ac_role a) p)"
  shows "account_works d T' servers' a"
  using assms unfolding account_works_def by blast

text \<open>The connection string of a service's account, with the password it has stored.\<close>

definition right_dsn :: "'w deps \<Rightarrow> (string \<Rightarrow> string option) \<Rightarrow> string \<Rightarrow> string \<Rightarrow> bool" where
  "right_dsn d T service dsn \<longleftrightarrow>
     (\<forall>a \<in> seed_accounts (dp_cfg d). ac_service a = service \<longrightarrow>
        (\<exists>password. T (password_path d service) = Some password \<and> dsn = account_dsn a password))"

lemma right_dsn_cong: "T' (password_path d service) = T (password_path d service) \<Longrightarrow> right_dsn d T' service dsn = right_dsn d T service dsn"
  by (simp add: right_dsn_def)

text \<open>Of these, a later world has what an earlier one had; databases keep their owner, roles do not go, and accounts go on working.\<close>

definition seed_keeps ::
  "'w deps \<Rightarrow> ('w \<Rightarrow> string \<Rightarrow> string option) \<Rightarrow> ('w \<Rightarrow> string \<Rightarrow> secret option) \<Rightarrow> ('w \<Rightarrow> string \<Rightarrow> pg_state)
    \<Rightarrow> 'w \<Rightarrow> 'w \<Rightarrow> bool" where
  "seed_keeps d params secrets pgs w w' \<longleftrightarrow>
     params w |` once_params d \<subseteq>\<^sub>m params w' \<and> secrets w |` minted_keys d \<subseteq>\<^sub>m secrets w'
     \<and> (\<forall>server. pg_dbs (pgs w server) \<subseteq>\<^sub>m pg_dbs (pgs w' server) \<and> dom (pg_roles (pgs w server)) \<subseteq> dom (pg_roles (pgs w' server)))
     \<and> (\<forall>a \<in> seed_accounts (dp_cfg d). account_works d (params w) (pgs w) a \<longrightarrow> account_works d (params w') (pgs w') a)"

lemma world_order_restrict: "world_order (\<lambda>w w'. f w |` S \<subseteq>\<^sub>m f w')"
  unfolding world_order_def
proof
  show "reflp (\<lambda>w w'. f w |` S \<subseteq>\<^sub>m f w')" by (rule reflpI) (auto simp: map_le_def restrict_map_def)
  show "transp (\<lambda>w w'. f w |` S \<subseteq>\<^sub>m f w')"
    by (rule transpI) (auto simp: map_le_def restrict_map_def dom_def split: if_splits)
qed

lemma seed_keeps_order: "world_order (seed_keeps d params secrets pgs)"
proof -
  have "world_order (\<lambda>w w'. \<forall>server. pg_dbs (pgs w server) \<subseteq>\<^sub>m pg_dbs (pgs w' server)
      \<and> dom (pg_roles (pgs w server)) \<subseteq> dom (pg_roles (pgs w' server)))"
    unfolding world_order_def reflp_def transp_def by (blast intro: map_le_refl map_le_trans)
  moreover have "world_order (\<lambda>w w'. \<forall>a \<in> seed_accounts (dp_cfg d).
      account_works d (params w) (pgs w) a \<longrightarrow> account_works d (params w') (pgs w') a)"
    unfolding world_order_def reflp_def transp_def by blast
  ultimately show ?thesis unfolding seed_keeps_def by (intro world_order_conj world_order_restrict)
qed

text \<open>A connection to a server: its statements leave SSM, Secrets Manager and the other servers alone.\<close>

definition seed_same ::
  "('w \<Rightarrow> string \<Rightarrow> string option) \<Rightarrow> ('w \<Rightarrow> string \<Rightarrow> secret option) \<Rightarrow> ('w \<Rightarrow> string \<Rightarrow> pg_state)
    \<Rightarrow> string set \<Rightarrow> 'w \<Rightarrow> 'w \<Rightarrow> bool" where
  "seed_same params secrets pgs S w w' \<longleftrightarrow> params w' = params w \<and> secrets w' = secrets w \<and> (\<forall>s. s \<notin> S \<longrightarrow> pgs w' s = pgs w s)"

lemma seed_same_order: "world_order (seed_same params secrets pgs S)"
  by (auto simp: world_order_def seed_same_def intro!: reflpI transpI)

definition seed_conn ::
  "('w \<Rightarrow> string \<Rightarrow> string option) \<Rightarrow> ('w \<Rightarrow> string \<Rightarrow> secret option) \<Rightarrow> ('w \<Rightarrow> string \<Rightarrow> pg_state)
    \<Rightarrow> string \<Rightarrow> 'w pgx_conn \<Rightarrow> bool" where
  "seed_conn params secrets pgs s conn \<longleftrightarrow> pg_server (px_db conn) (\<lambda>w. pgs w s)
     \<and> (\<forall>sql. keeps (seed_same params secrets pgs {s}) (pg_Exec (px_db conn) sql))
     \<and> (\<forall>sql n. keeps (seed_same params secrets pgs {s}) (pg_QueryBool (px_db conn) sql n))
     \<and> (\<forall>sql n. keeps (seed_same params secrets pgs {s}) (pg_QueryText (px_db conn) sql n))
     \<and> (\<forall>w. seed_same params secrets pgs {} w (px_Close conn w))"

text \<open>Every key the loops mark as moved is one of these.\<close>

definition moved_ok :: "seed_state \<Rightarrow> bool" where
  "moved_ok s \<longleftrightarrow> (\<forall>spec \<in> set (ss_moved s). set (legacyNames spec) \<subseteq> legacy_names)"

lemma moved_ok_simps [simp]:
  "moved_ok (s\<lparr>ss_resp := r\<rparr>) = moved_ok s" "moved_ok (s\<lparr>ss_fresh := f\<rparr>) = moved_ok s"
  "moved_ok (s\<lparr>ss_moved := xs @ ys\<rparr>) \<longleftrightarrow> moved_ok (s\<lparr>ss_moved := xs\<rparr>) \<and> moved_ok (s\<lparr>ss_moved := ys\<rparr>)"
  "moved_ok (s\<lparr>ss_moved := []\<rparr>)" "moved_ok (s\<lparr>ss_moved := [spec]\<rparr>) \<longleftrightarrow> set (legacyNames spec) \<subseteq> legacy_names"
  "moved_ok (s\<lparr>ss_moved := ss_moved s\<rparr>) = moved_ok s"
  by (auto simp: moved_ok_def)

lemma legacy_specs:
  "set (legacyNames (identitySpec lib service)) \<subseteq> legacy_names"
  "ws \<in> set wallets \<Longrightarrow> set (legacyNames (wallet_keySpec wlib ws)) \<subseteq> legacy_names"
  by (auto simp: identitySpec_def wallets_def wallet_keySpec_def legacy_names_def)

lemma yields_seed_identity:
  "moved_ok s \<Longrightarrow> yields moved_ok (seed_identity env d service s)"
  unfolding seed_identity_def Let_def
  apply (rule yields_bindE, intro yields_case_prod, rule yields_bindE)
  apply (rule yields_bind [where P = moved_ok])
   apply (rule yields_if, rule yields_bindE)
    apply (auto intro!: yields_returnE yields_thenE simp: legacy_specs)
  done

lemma yields_seed_wallet:
  "ws \<in> set wallets \<Longrightarrow> moved_ok s \<Longrightarrow> yields moved_ok (seed_wallet env d ws s)"
  unfolding seed_wallet_def Let_def
  by (rule yields_bindE, intro yields_case_prod, rule yields_bindE)
    (auto intro!: yields_returnE yields_thenE simp: legacy_specs)

section \<open>What is ready\<close>

definition consumer_db :: "'w deps \<Rightarrow> (string \<Rightarrow> string option) \<Rightarrow> string \<Rightarrow> database" where
  "consumer_db d T n = \<lparr>db_Name = n, db_Owner = [], db_Password = the (T (password_path d n)), db_LoginRoles = []\<rparr>"

definition pandora_role :: "'w deps \<Rightarrow> (string \<Rightarrow> string option) \<Rightarrow> string \<times> setting list \<Rightarrow> role" where
  "pandora_role d T r =
     \<lparr>role_Name = fst r, role_Password = the (T (password_path d (ssmService (fst r)))), role_Settings = snd r\<rparr>"

definition pandora_db :: "'w deps \<Rightarrow> (string \<Rightarrow> string option) \<Rightarrow> database" where
  "pandora_db d T =
     \<lparr>db_Name = pandoraDatabase, db_Owner = pandoraOwner, db_Password = the (T (password_path d (ssmService pandoraOwner))),
      db_LoginRoles = map (pandora_role d T) pandoraLoginRoles\<rparr>"

text \<open>
  A consumer's database is on the central server with the stored password, and the stored connection string
  is the one with that password, so the service that reads it connects.
\<close>

definition strings_stored :: "'w deps \<Rightarrow> (string \<Rightarrow> string option) \<Rightarrow> database \<Rightarrow> bool" where
  "strings_stored d T db \<longleftrightarrow>
     T (dsn_path d (db_Name db))
       = Some (DSN (cfg_DBHost (dp_cfg d)) (cfg_DBPort (dp_cfg d)) (db_Name db) (db_Name db) (db_Password db) SSLRequire)
     \<and> (db_Name db = ''plc'' \<longrightarrow> T (creds_path d (db_Name db)) = Some (plc_credentials (dp_cfg d) db))"

definition consumer_ready :: "'w deps \<Rightarrow> (string \<Rightarrow> string option) \<Rightarrow> (string \<Rightarrow> pg_state) \<Rightarrow> string \<Rightarrow> bool" where
  "consumer_ready d T servers n \<longleftrightarrow>
     T (password_path d n) \<noteq> None
     \<and> database_ready (servers (server_of (cfg_DBHost (dp_cfg d)) (cfg_DBPort (dp_cfg d)))) (consumer_db d T n)
     \<and> strings_stored d T (consumer_db d T n)"

definition pandora_ready :: "'w deps \<Rightarrow> (string \<Rightarrow> string option) \<Rightarrow> (string \<Rightarrow> pg_state) \<Rightarrow> dbTarget \<Rightarrow> bool" where
  "pandora_ready d T servers target \<longleftrightarrow>
     database_ready (servers (server_of (db_Host target) (db_Port target))) (pandora_db d T)
     \<and> (\<forall>r \<in> pandora_roles. T (password_path d (ssmService r)) \<noteq> None
          \<and> T (dsn_path d (ssmService r)) = Some (DSN (db_Host target) (db_Port target) pandoraDatabase r
              (the (T (password_path d (ssmService r)))) SSLVerifyFull))"

lemma pandora_services:
  "ssmService pandoraOwner = ''pandora-admin''"
  "map (ssmService \<circ> fst) pandoraLoginRoles = [''pandora-storage-server'', ''locker'', ''pandora-migration'']"
  by (simp_all add: ssmService_def pandoraOwner_def pandoraLoginRoles_def)

lemma ssmService_inj: "inj_on ssmService pandora_roles"
  by (auto simp: inj_on_def pandora_roles_def pandoraOwner_def pandoraLoginRoles_def ssmService_def)

definition pandora_dsn :: "'w deps \<Rightarrow> (string \<Rightarrow> string option) \<Rightarrow> dbTarget \<Rightarrow> string \<Rightarrow> string" where
  "pandora_dsn d T target r =
     DSN (db_Host target) (db_Port target) pandoraDatabase r (the (T (password_path d (ssmService r)))) SSLVerifyFull"

lemma map_of_dsns:
  "map_of (fold (\<lambda>r dsns. AList.update (ssmService (role_Name r)) (v r) dsns) rs m)
     = map_of m ++ map_of (rev (map (\<lambda>r. (ssmService (role_Name r), v r)) rs))"
  by (induction rs arbitrary: m) (simp_all add: update_conv' map_add_assoc [symmetric])

lemma pandora_entries:
  "set (map_entries (pandoraDSNs target (pandora_db d T))) = (\<lambda>r. (ssmService r, pandora_dsn d T target r)) ` pandora_roles"
  by (auto simp: pandoraDSNs_def pandora_db_def pandora_role_def pandora_dsn_def map_of_dsns pandora_roles_def pandoraLoginRoles_def
      pandoraOwner_def ssmService_def OwnerRole_def split: if_splits)

lemma roles_of_pandora: "roles_of (pandora_db d T) = pandoraOwner # map fst pandoraLoginRoles"
  by (simp add: roles_of_def pandora_db_def OwnerRole_def pandora_role_def comp_def pandoraOwner_def)

lemma pandora_db_names:
  "list_all (\<lambda>db. pg_name (db_Name db) \<and> list_all pg_name (roles_of db)) [pandora_db d T]"
  "distinct (concat (map roles_of [pandora_db d T]))" "set (concat (map roles_of [pandora_db d T])) = pandora_roles"
  by (simp_all add: roles_of_pandora pandora_roles_def)
    (simp_all add: pandora_db_def pg_name_def pandoraDatabase_def pandoraOwner_def pandoraLoginRoles_def)

lemma consumer_db_names:
  "list_all (\<lambda>db. pg_name (db_Name db) \<and> list_all pg_name (roles_of db)) (map (consumer_db d T) databaseConsumers)"
  "distinct (concat (map roles_of (map (consumer_db d T) databaseConsumers)))"
  "distinct (map db_Name (map (consumer_db d T) databaseConsumers))"
  by (auto simp: databaseConsumers_def consumer_db_def roles_of_def OwnerRole_def pg_name_def)

lemma consumer_apart:
  assumes "n \<in> set databaseConsumers"
  shows "n \<notin> pandora_roles" "n \<notin> ssmService ` pandora_roles"
  using assms by (auto simp: databaseConsumers_def pandora_roles_def pandoraOwner_def pandoraLoginRoles_def ssmService_def)

lemma paths_not_legacy: "password_path d n \<notin> legacy_params d" "dsn_path d n \<notin> legacy_params d" "creds_path d n \<notin> legacy_params d"
  by (simp_all add: password_path_def dsn_path_def creds_path_def not_legacy legacy_names_def)

lemma account_service:
  assumes "a \<in> seed_accounts (dp_cfg d)"
  shows "ac_role a \<in> set databaseConsumers \<Longrightarrow> ac_service a = ac_role a"
    "ac_role a \<in> pandora_roles \<Longrightarrow> ac_service a = ssmService (ac_role a)"
  using assms consumer_apart(1) by (auto simp: seed_accounts_def)

lemma right_consumer_dsn:
  assumes "n \<in> set databaseConsumers" "T (password_path d n) = Some p"
  shows "right_dsn d T n (DSN (cfg_DBHost (dp_cfg d)) (cfg_DBPort (dp_cfg d)) n n p SSLRequire)"
  unfolding right_dsn_def
proof (intro ballI impI)
  fix a assume a: "a \<in> seed_accounts (dp_cfg d)" "ac_service a = n"
  then have "ac_role a \<notin> pandora_roles" using account_service(2) consumer_apart(2) [OF assms(1)] by blast
  with a show "\<exists>q. T (password_path d n) = Some q \<and> DSN (cfg_DBHost (dp_cfg d)) (cfg_DBPort (dp_cfg d)) n n p SSLRequire = account_dsn a q"
    using assms(2) by (auto simp: seed_accounts_def account_dsn_def centralDB_def)
qed

lemma right_pandora_dsn:
  assumes r: "r \<in> pandora_roles" and "T (password_path d (ssmService r)) \<noteq> None" "cfg_Pandora (dp_cfg d) = Some target"
  shows "right_dsn d T (ssmService r) (pandora_dsn d T target r)"
  unfolding right_dsn_def
proof (intro ballI impI)
  fix a assume a: "a \<in> seed_accounts (dp_cfg d)" "ac_service a = ssmService r"
  then have "ac_role a \<notin> set databaseConsumers" using account_service(1) [OF a(1)] consumer_apart(2) r by (metis imageI)
  moreover from this have "ac_role a \<in> pandora_roles" using a(1) by (auto simp: seed_accounts_def)
  moreover from this have "ac_role a = r" using account_service(2) [OF a(1)] a(2) r ssmService_inj by (metis inj_onD)
  ultimately have "a = \<lparr>ac_service = ssmService r, ac_role = r, ac_database = pandoraDatabase, ac_target = target, ac_mode = SSLVerifyFull\<rparr>"
    using a(1) assms(3) by (auto simp: seed_accounts_def)
  then show "\<exists>q. T (password_path d (ssmService r)) = Some q \<and> pandora_dsn d T target r = account_dsn a q"
    using assms(2) by (auto simp: account_dsn_def pandora_dsn_def)
qed

lemma consumer_passwords:
  assumes "n \<in> set databaseConsumers" "T (password_path d n) \<noteq> None" "(r, p) \<in> set (passwords_of (consumer_db d T n))"
    and "a \<in> seed_accounts (dp_cfg d)" "ac_role a = r"
  shows "T (password_path d (ac_service a)) = Some p"
  using assms account_service(1) [OF assms(4)] by (auto simp: passwords_of_def consumer_db_def OwnerRole_def)

lemma pandora_passwords:
  assumes "\<And>r. r \<in> pandora_roles \<Longrightarrow> T (password_path d (ssmService r)) \<noteq> None" "(r, p) \<in> set (passwords_of (pandora_db d T))"
    and "a \<in> seed_accounts (dp_cfg d)" "ac_role a = r"
  shows "T (password_path d (ac_service a)) = Some p"
proof -
  have "r \<in> pandora_roles" "p = the (T (password_path d (ssmService r)))"
    using assms(2) by (auto simp: passwords_of_def pandora_db_def pandora_role_def OwnerRole_def pandora_roles_def pandoraOwner_def)
  then show ?thesis using assms(1) [of r] account_service(2) [OF assms(3)] assms(4) by auto
qed

section \<open>Frames\<close>

locale seed_stage = ssm: ssm_service papi params pages + sec: secrets_service sapi secrets
  for papi :: "'w ssm_api" and params :: "'w \<Rightarrow> string \<Rightarrow> string option" and pages
    and sapi :: "'w secrets_api" and secrets :: "'w \<Rightarrow> string \<Rightarrow> secret option" +
  fixes env :: "('w, 's, 'k) seed_env"
    and d :: "'w deps"
    and pgs :: "'w \<Rightarrow> string \<Rightarrow> pg_state"
  assumes stores: "ssm_client (dp_store d) = papi" "sec_client (dp_keys d) = sapi" "dp_secrets d = sapi"
    and plain: "plain_stage (ssm_stage (dp_store d))"
    and ssm_apart: "keeps (\<lambda>w w'. secrets w' = secrets w \<and> pgs w' = pgs w) (GetParameter papi p dec)"
      "keeps (\<lambda>w w'. secrets w' = secrets w \<and> pgs w' = pgs w) (PutParameter papi p v t ow)"
      "keeps (\<lambda>w w'. secrets w' = secrets w \<and> pgs w' = pgs w) (DeleteParameters papi ns)"
    and sec_apart: "keeps (\<lambda>w w'. params w' = params w \<and> pgs w' = pgs w) (GetSecretValue sapi n)"
      "keeps (\<lambda>w w'. params w' = params w \<and> pgs w' = pgs w) (CreateSecret sapi n v)"
      "keeps (\<lambda>w w'. params w' = params w \<and> pgs w' = pgs w) (PutSecretValue sapi n v)"
    and libs: "framed (seed_same params secrets pgs {}) (se_rand env k)"
      "framed (seed_same params secrets pgs {}) (ed25519_Generate (se_signers env))"
      "framed (seed_same params secrets pgs {}) (secec_GenerateKey (se_wallets env))"
      "framed (seed_same params secrets pgs {}) (IssueFromPEM (se_delegate env) pem req)"
    and hash: "length (keccak256 (se_wallets env) s) = 32"
    and connects: "target \<in> seed_targets (dp_cfg d) \<Longrightarrow>
      wp (se_connect env (AdminDSN (db_Host target) (db_Port target) admin user password))
      (\<lambda>conn w'. seed_conn params secrets pgs (server_of (db_Host target) (db_Port target)) conn \<and> seed_same params secrets pgs {} w w')
      (\<lambda>_ w'. seed_same params secrets pgs {} w w') w"
begin

abbreviation same :: "'w \<Rightarrow> 'w \<Rightarrow> bool" where
  "same \<equiv> seed_same params secrets pgs {}"

abbreviation kept :: "'w \<Rightarrow> 'w \<Rightarrow> bool" where
  "kept \<equiv> seed_keeps d params secrets pgs"

lemmas orders = seed_keeps_order seed_same_order

lemma kept_id: "params w' = params w \<Longrightarrow> secrets w' = secrets w \<Longrightarrow> pgs w' = pgs w \<Longrightarrow> kept w w'"
  using world_order_refl [OF seed_keeps_order, of d params secrets pgs w] by (simp add: seed_keeps_def)

lemma same_kept: "same w w' \<Longrightarrow> kept w w'"
  by (rule kept_id) (auto simp: seed_same_def fun_eq_iff)

lemma framed_same: "framed same m \<Longrightarrow> framed kept m"
  by (erule framed_mono) (rule same_kept)

lemma framed_get: "framed same (GetParameter papi p dec)"
  unfolding framed_keeps
proof
  show "\<forall>w. fst (GetParameter papi p dec w) \<noteq> Hang" by (metis ssm.get_returns prod.collapse)
  have "params (snd (GetParameter papi p dec w)) = params w" for w by (metis ssm.get_frame prod.collapse)
  then show "keeps same (GetParameter papi p dec)" using ssm_apart(1) [of p dec] by (simp add: keeps_def seed_same_def)
qed

lemma framed_get_secret: "framed same (GetSecretValue sapi n)"
  unfolding framed_keeps
proof
  show "\<forall>w. fst (GetSecretValue sapi n w) \<noteq> Hang" by (metis sec.get_returns prod.collapse)
  have "secrets (snd (GetSecretValue sapi n w)) = secrets w" for w by (metis sec.get_frame prod.collapse)
  then show "keeps same (GetSecretValue sapi n)" using sec_apart(1) [of n] by (simp add: keeps_def seed_same_def)
qed

lemma wp_put:
  "wp (PutParameter papi p v t ow)
     (\<lambda>_ w'. params w' = (params w)(p \<mapsto> v) \<and> (\<not> ow \<longrightarrow> params w p = None) \<and> secrets w' = secrets w \<and> pgs w' = pgs w)
     (\<lambda>_ w'. (params w' = params w \<or> (ow \<or> params w p = None) \<and> params w' = (params w)(p \<mapsto> v))
        \<and> secrets w' = secrets w \<and> pgs w' = pgs w) w"
proof -
  have "wp (PutParameter papi p v t ow)
     (\<lambda>_ w'. params w' = (params w)(p \<mapsto> v) \<and> (\<not> ow \<longrightarrow> params w p = None))
     (\<lambda>_ w'. params w' = params w \<or> (ow \<or> params w p = None) \<and> params w' = (params w)(p \<mapsto> v)) w"
    by (rule wp_cases) (auto dest: ssm.put_done ssm.put_failed ssm.put_returns ssm.put_Ok)
  from wp_keeps [OF ssm_apart(2) this] show ?thesis by (rule wp_weaken) auto
qed

lemma string_names [simp]:
  "dsn_path d n \<notin> once_params d" "creds_path d n \<notin> once_params d" "password_path d n \<in> once_params d"
  by (simp_all add: dsn_path_def creds_path_def not_once once_def) (auto simp: once_params_def once_def password_path_def)

lemma string_paths: "p \<in> once_params d \<Longrightarrow> p \<noteq> dsn_path d n \<and> p \<noteq> creds_path d n"
  by auto

lemma kept_accounts:
  assumes "params w |` once_params d \<subseteq>\<^sub>m params w'" "secrets w |` minted_keys d \<subseteq>\<^sub>m secrets w'" "pgs w' = pgs w"
    and "\<And>a. a \<in> seed_accounts (dp_cfg d) \<Longrightarrow> account_works d (params w) (pgs w) a \<Longrightarrow> account_works d (params w') (pgs w') a"
  shows "kept w w'"
  using assms by (simp add: seed_keeps_def)

lemma kept_param:
  assumes "params w' = (params w)(p \<mapsto> v)" "params w p = None \<or> p \<notin> once_params d \<and> (\<forall>s. p \<noteq> dsn_path d s)" "secrets w' = secrets w" "pgs w' = pgs w"
  shows "kept w w'"
proof (rule kept_accounts)
  show "account_works d (params w') (pgs w') a" if "account_works d (params w) (pgs w) a" for a
    by (rule account_works_stays [OF that]) (use assms string_names in auto)
qed (use assms(2) in \<open>auto simp: assms(1,3,4) map_le_def restrict_map_def\<close>)

lemma framed_put_new: "framed kept (PutParameter papi p v t False)"
  by (rule framedI, rule wp_weaken [OF wp_put]) (use kept_param kept_id in blast)+

lemma framed_put:
  assumes "name \<notin> stable" "CHR ''/'' \<notin> set name"
  shows "framed kept (PutParameter papi (Path (dp_store d) service name) v t ow)"
  by (intro framedI, rule wp_weaken [OF wp_put]) (use kept_param kept_id not_stable [OF assms] in blast)+

lemma framed_ssm_get: "framed same (ssm_get (dp_store d) p dec)"
  unfolding ssm_get_def stores by (intro framed_intros orders framed_get)

lemma framed_ensure:
  assumes "framed kept gen"
  shows "framed kept (ensure (dp_store d) service name t gen)"
  unfolding ensure_def Let_def ssm_put_def stores
  by (intro framed_intros orders framed_put_new framed_same [OF framed_ssm_get] assms)

lemma framed_Put:
  assumes "name \<notin> stable" "CHR ''/'' \<notin> set name"
  shows "framed kept (PutPublic (dp_store d) service name v)" "framed kept (PutSecret (dp_store d) service name v)"
  unfolding PutPublic_def PutSecret_def ssm_put_def Let_def stores by (intro framed_intros framed_put assms)+

lemma framed_publish:
  assumes "name \<notin> stable" "CHR ''/'' \<notin> set name"
  shows "framed kept (publish d created service name v)"
  unfolding publish_def EnsurePublic_def by (intro framed_intros orders framed_Put framed_ensure assms)

lemma framed_sec_Lookup: "framed same (sec_Lookup (dp_keys d) service name)"
  unfolding sec_Lookup_def sec_get_def stores by (intro framed_intros orders framed_get_secret)

lemma framed_sec_Get: "framed same (sec_Get (dp_keys d) service name)"
  unfolding sec_Get_def by (intro framed_intros orders framed_sec_Lookup)

lemma kept_secret:
  assumes "secrets w' = (secrets w)(n \<mapsto> v)" "secrets w n = None \<or> n \<notin> minted_keys d" "params w' = params w" "pgs w' = pgs w"
  shows "kept w w'"
  using assms(2) by (intro kept_accounts) (auto simp: assms(1,3,4) map_le_def restrict_map_def)

lemma framed_sec_Create: "framed kept (sec_Create (dp_keys d) service name v)"
proof -
  have apart: "keeps (\<lambda>w w'. params w' = params w \<and> pgs w' = pgs w) (sec_Create (dp_keys d) service name v)"
    by (rule keeps_sec_Create) (auto simp: stores sec_apart world_order_def reflp_def transp_def)
  have "wp (sec_Create (dp_keys d) service name v)
     (\<lambda>_ w'. secrets w' = secrets w \<or> secrets w (sec_Name (dp_keys d) service name) = None
        \<and> (\<exists>v. secrets w' = (secrets w)(sec_Name (dp_keys d) service name \<mapsto> v)))
     (\<lambda>_ w'. secrets w' = secrets w \<or> secrets w (sec_Name (dp_keys d) service name) = None
        \<and> (\<exists>v. secrets w' = (secrets w)(sec_Name (dp_keys d) service name \<mapsto> v))) w" for w
    by (rule sec.wp_sec_Create_frame [OF stores(2)]) auto
  note both = wp_keeps [OF apart this]
  show ?thesis by (intro framedI, rule wp_weaken [OF both]) (use kept_secret kept_id not_minted in blast)+
qed

lemma framed_multibase: "framed kept (PutIfChanged (dp_keys d) service ''identity-multibase'' v)"
proof -
  have apart: "keeps (\<lambda>w w'. params w' = params w \<and> pgs w' = pgs w) (PutIfChanged (dp_keys d) service name v)" for name
    unfolding PutIfChanged_def Let_def stores
    by (auto intro!: keeps_intros keeps_sec_Create keeps_sec_Lookup simp: stores sec_apart world_order_def reflp_def transp_def)
  have "wp (PutIfChanged (dp_keys d) service name v)
     (\<lambda>_ w'. \<exists>v. secrets w' = (secrets w)(sec_Name (dp_keys d) service name \<mapsto> v))
     (\<lambda>_ w'. secrets w' = secrets w \<or> (\<exists>v. secrets w' = (secrets w)(sec_Name (dp_keys d) service name \<mapsto> v))) w" for w name
    by (rule sec.wp_PutIfChanged [OF stores(2)]) auto
  note both = wp_keeps [OF apart this]
  show ?thesis by (intro framedI, rule wp_weaken [OF both]) (use kept_secret kept_id not_minted in blast)+
qed

lemma framed_seed_key:
  assumes "framed kept gen" "legacyNames spec \<noteq> []"
  shows "framed kept (seed_key d spec gen)"
proof -
  obtain n ns where names: "legacyNames spec = n # ns" using assms(2) by (cases "legacyNames spec") auto
  have check: "framed kept (checkPublicRecord (ssm_legacyStore (dp_store d)) spec v)" for v
    unfolding checkPublicRecord_def Let_def ssm_legacyStore_def legacyStore.select_convs LookupPublic_def
    by (intro framed_intros orders framed_same [OF framed_ssm_get])
  show ?thesis
    unfolding seed_key_def ensureKey_def Let_def names list.case
    by (intro framed_intros orders check assms(1))
      (simp_all add: secrets_keyStore_def ssm_legacyStore_def LookupSecret_def framed_sec_Create
        framed_same [OF framed_ssm_get] framed_same [OF framed_sec_Lookup])
qed

lemma framed_seedIdentities: "framed kept (seedIdentities env d s)"
proof -
  have gen: "framed kept (bindE (GenerateIdentity (se_signers env)) (\<lambda>i. returnE (id_PrivatePEM i)))"
    unfolding GenerateIdentity_def by (intro framed_intros orders framed_same [OF libs(2)])
  have names: "''identity.did'' \<notin> stable" "CHR ''/'' \<notin> set ''identity.did''" by (simp_all add: stable_def once_def)
  have "framed kept (seed_identity env d service s)" for service s
    unfolding seed_identity_def Let_def
    by (intro framed_intros orders framed_seed_key [OF gen] framed_multibase framed_publish [OF names]) (simp add: identitySpec_def)
  then show ?thesis unfolding seedIdentities_def by (intro framed_intros orders)
qed

lemma framed_seedProofs: "framed kept (seedProofs env d fresh resp)"
proof -
  have "framed kept (seed_proof env d fresh p resp)" if p: "p \<in> set (Proofs did)" for p did resp
  proof -
    have names: "up_Name p \<notin> stable" "CHR ''/'' \<notin> set (up_Name p)" using p by (auto simp: Proofs_def stable_def once_def)
    have issue: "framed kept (bindE (mapErr g (sec_Get (dp_keys d) (up_Issuer p) ''identity'')) (\<lambda>issuer.
        IssueProof (se_delegate env) (sec_Value issuer) p))" for g
      unfolding IssueProof_def Let_def
      by (intro framed_intros orders framed_same [OF framed_sec_Get] framed_same [OF libs(4)])
    show ?thesis unfolding seed_proof_def Let_def EnsurePublic_def
      by (intro framed_intros orders issue framed_Put [OF names] framed_ensure)
  qed
  then show ?thesis unfolding seedProofs_def by (intro framed_intros orders)
qed

lemma framed_seedWallets: "framed kept (seedWallets env d s)"
proof -
  have gen: "framed kept (bindE (GenerateEVMWallet (se_wallets env)) (\<lambda>w. returnE (encode_wallet ws w)))" for ws
    unfolding GenerateEVMWallet_def by (intro framed_intros orders framed_same [OF libs(3)] wallet_returns [OF hash])
  have "framed kept (seed_wallet env d ws s)" if ws: "ws \<in> set wallets" for ws s
  proof -
    have names: "ws_name ws @ ''.address'' \<notin> stable" "CHR ''/'' \<notin> set (ws_name ws @ ''.address'')"
      using ws by (auto simp: wallets_def stable_def once_def)
    show ?thesis unfolding seed_wallet_def Let_def
      by (intro framed_intros orders framed_seed_key [OF gen] framed_publish [OF names] wallet_returns [OF hash]) (simp add: wallet_keySpec_def)
  qed
  then show ?thesis unfolding seedWallets_def by (intro framed_intros orders)
qed

lemma framed_RandomHex: "framed same (RandomHex (se_rand env))"
  unfolding RandomHex_def by (intro framed_intros orders libs)

lemma framed_seedRandomSecrets: "framed kept (seedRandomSecrets env d resp)"
  unfolding seedRandomSecrets_def seed_random_secret_def Let_def EnsureSecret_def
  by (intro framed_intros orders framed_ensure framed_same [OF framed_RandomHex])

text \<open>Passwords are only added.\<close>

abbreviation grown :: "'w \<Rightarrow> 'w \<Rightarrow> bool" where
  "grown w w' \<equiv> params w \<subseteq>\<^sub>m params w' \<and> secrets w' = secrets w \<and> pgs w' = pgs w"

lemma grown_some: "grown u v \<Longrightarrow> params u p = Some x \<Longrightarrow> params v p = Some x"
  by (auto dest: map_le_Some)

lemma grown_kept:
  assumes "grown w w'"
  shows "kept w w'"
proof (rule kept_accounts)
  show "account_works d (params w') (pgs w') a" if "account_works d (params w) (pgs w) a" for a
    by (rule account_works_stays [OF that]) (use grown_some [OF assms] assms in simp)
qed (use assms in \<open>auto simp: map_le_def restrict_map_def\<close>)

lemma grown_trans: "grown u v \<Longrightarrow> grown v w \<Longrightarrow> grown u w"
  by (auto intro: map_le_trans)

lemma wp_ensure_password:
  assumes "CHR ''P'' \<notin> set service"
  shows "wp (ensure_password env d label service resp)
     (\<lambda>(p, r) w'. params w' (password_path d service) = Some p \<and> grown w w') (\<lambda>_ w'. grown w w') w"
proof -
  have gen: "wp (RandomHex (se_rand env)) (\<lambda>_ w'. params w \<subseteq>\<^sub>m params w') (\<lambda>_ w'. params w \<subseteq>\<^sub>m params w') w" for w
    by (rule wp_weaken [OF wp_framed [OF framed_RandomHex]]) (auto simp: seed_same_def)
  have path: "\<not> contains (Path (dp_store d) service ''postgres-password'') ''ParameterAlreadyExists''"
    by (rule plain_Path) (use plain assms in auto)
  have "keeps (\<lambda>w w'. secrets w' = secrets w \<and> pgs w' = pgs w) (RandomHex (se_rand env))"
    using framed_RandomHex unfolding framed_keeps by (auto simp: keeps_def seed_same_def)
  then have apart: "keeps (\<lambda>w w'. secrets w' = secrets w \<and> pgs w' = pgs w)
      (EnsureSecret (dp_store d) service ''postgres-password'' (RandomHex (se_rand env)))"
    unfolding EnsureSecret_def
    by (intro keeps_ensure) (auto simp: stores ssm_apart world_order_def reflp_def transp_def)
  have "wp (EnsureSecret (dp_store d) service ''postgres-password'' (RandomHex (se_rand env)))
     (\<lambda>(p, created) w'. params w' (password_path d service) = Some p \<and> params w \<subseteq>\<^sub>m params w') (\<lambda>_ w'. params w \<subseteq>\<^sub>m params w') w"
    unfolding EnsureSecret_def password_path_def
    by (rule ssm.wp_ensure [OF stores(1) path gen]) auto
  note both = wp_keeps [OF apart this]
  show ?thesis unfolding ensure_password_def
    by (rule wp_bind_mapErr [OF both]) (auto simp: wp_returnE split: prod.splits)
qed

lemma wp_password_fold:
  assumes f: "\<And>x acc resp. f x (acc, resp) = bindE (ensure_password env d (lab x) (svc x) resp) (\<lambda>(p, resp). returnE (acc @ [mk x p], resp))"
    and plain_names: "\<And>x. x \<in> set xs \<Longrightarrow> CHR ''P'' \<notin> set (svc x)"
  shows "wp (foldE f xs (acc, resp))
     (\<lambda>(acc', r) w'. acc' = acc @ map (\<lambda>x. mk x (the (params w' (password_path d (svc x))))) xs
        \<and> (\<forall>x \<in> set xs. params w' (password_path d (svc x)) \<noteq> None) \<and> grown w w')
     (\<lambda>_ w'. grown w w') w"
  using plain_names
proof (induction xs arbitrary: acc resp w)
  case (Cons x xs)
  show ?case unfolding foldE.simps f bindE_assoc
  proof (rule wp_bindI [OF wp_ensure_password], simp add: Cons.prems, goal_cases)
    case (1 pr w1)
    obtain p r where pr: "pr = (p, r)" by (cases pr)
    then have w1: "params w1 (password_path d (svc x)) = Some p" "grown w w1" using 1 by simp_all
    have IH: "wp (foldE f xs (acc @ [mk x p], r))
     (\<lambda>(acc', r) w'. acc' = (acc @ [mk x p]) @ map (\<lambda>x. mk x (the (params w' (password_path d (svc x))))) xs
        \<and> (\<forall>x \<in> set xs. params w' (password_path d (svc x)) \<noteq> None) \<and> grown w1 w')
     (\<lambda>_ w'. grown w1 w') w1"
      by (rule Cons.IH) (use Cons.prems in simp)
    show ?case unfolding pr prod.case bindE_returnE
    proof (rule wp_weaken [OF IH], goal_cases)
      case (1 res w2)
      then have w2: "grown w1 w2" by (simp add: case_prod_beta)
      have "params w2 (password_path d (svc x)) = Some p" "grown w w2"
        using grown_some [OF w2 w1(1)] grown_trans [OF w1(2) w2] .
      then show ?case using 1 by (simp add: case_prod_beta)
    next
      case (2 e w2)
      then show ?case using grown_trans [OF w1(2)] by blast
    qed
  qed simp
qed (simp add: wp_returnE)

lemma wp_seedDatabasePasswords:
  "wp (seedDatabasePasswords env d resp)
     (\<lambda>(dbs, r) w'. dbs = map (consumer_db d (params w')) databaseConsumers
        \<and> (\<forall>n \<in> set databaseConsumers. params w' (password_path d n) \<noteq> None) \<and> grown w w')
     (\<lambda>_ w'. grown w w') w"
  unfolding seedDatabasePasswords_def
  by (rule wp_weaken [OF wp_password_fold [where lab = "\<lambda>n. n" and svc = "\<lambda>n. n"
        and mk = "\<lambda>n p. \<lparr>db_Name = n, db_Owner = [], db_Password = p, db_LoginRoles = []\<rparr>"]])
    (auto simp: databaseConsumers_def consumer_db_def)

text \<open>The databases of one server.\<close>

lemma wp_ensureDatabases:
  assumes target: "target \<in> seed_targets (dp_cfg d)"
    and names: "list_all (\<lambda>db. pg_name (db_Name db) \<and> list_all pg_name (roles_of db)) dbs" "distinct (concat (map roles_of dbs))"
    and passwords: "\<And>db n p a. db \<in> set dbs \<Longrightarrow> (n, p) \<in> set (passwords_of db) \<Longrightarrow> a \<in> seed_accounts (dp_cfg d) \<Longrightarrow>
      ac_role a = n \<Longrightarrow> params w (password_path d (ac_service a)) = Some p"
  shows "wp (ensureDatabases (se_connect env) d target dbs)
     (\<lambda>_ w'. kept w w' \<and> seed_same params secrets pgs {server_of (db_Host target) (db_Port target)} w w'
        \<and> list_all (database_ready (pgs w' (server_of (db_Host target) (db_Port target)))) dbs
        \<and> pg_grows (set (concat (map roles_of dbs))) (owner_of dbs) (pgs w (server_of (db_Host target) (db_Port target)))
            (pgs w' (server_of (db_Host target) (db_Port target))))
     (\<lambda>_ w'. kept w w') w"
proof -
  let ?s = "server_of (db_Host target) (db_Port target)"
  let ?K = "{(ac_role a, q) | a q. a \<in> seed_accounts (dp_cfg d) \<and> params w (password_path d (ac_service a)) = Some q}"
  have K: "one_password ?K n p" if "db \<in> set dbs" "(n, p) \<in> set (passwords_of db)" for db n p
    using passwords [OF that] by (auto simp: one_password_def)
  have kept: "kept w w'" if alike: "seed_same params secrets pgs {?s} w w'"
      and grows: "pg_grows (set (concat (map roles_of dbs))) (owner_of dbs) (pgs w ?s) (pgs w' ?s)" and un: "unlocked ?K (pgs w ?s) (pgs w' ?s)" for w'
  proof -
    have eqs: "params w' = params w" "secrets w' = secrets w" "\<And>s. s \<noteq> ?s \<Longrightarrow> pgs w' s = pgs w s"
      using alike by (simp_all add: seed_same_def)
    have "account_works d (params w') (pgs w') a" if a: "a \<in> seed_accounts (dp_cfg d)" "account_works d (params w) (pgs w) a" for a
    proof (rule account_works_stays [OF a(2)], goal_cases)
      case (1 p)
      have "role_ready (pgs w' (account_server a)) (ac_role a) p" if ready: "role_ready (pgs w (account_server a)) (ac_role a) p"
      proof (cases "account_server a = ?s")
        case True
        have "(ac_role a, p) \<in> ?K" using 1 a(1) by blast
        from un [unfolded unlocked_def, rule_format, OF this] show ?thesis using True ready by simp
      qed (use eqs(3) ready in simp)
      then show ?case using 1 by (simp add: eqs(1))
    qed
    moreover have "pg_dbs (pgs w server) \<subseteq>\<^sub>m pg_dbs (pgs w' server) \<and> dom (pg_roles (pgs w server)) \<subseteq> dom (pg_roles (pgs w' server))" for server
      using grows eqs(3) by (cases "server = ?s") (auto simp: pg_grows_def)
    moreover have "params w |` once_params d \<subseteq>\<^sub>m params w" "secrets w |` minted_keys d \<subseteq>\<^sub>m secrets w" by (auto simp: map_le_def)
    ultimately show ?thesis unfolding seed_keeps_def eqs(1,2) by blast
  qed
  have secret: "framed same (GetSecretValue (dp_secrets d) arn)" for arn unfolding stores by (rule framed_get_secret)
  have master: "wp (connectAsMaster (se_connect env) d target) (\<lambda>conn w'. seed_conn params secrets pgs ?s conn \<and> same w w')
      (\<lambda>_ w'. same w w') w"
    by (rule wp_connect_master) (rule seed_same_order secret connects [OF target])+
  show ?thesis unfolding ensureDatabases_def
  proof (rule wp_bindI [OF master], goal_cases)
    case (1 conn w1)
    then have conn: "pg_server (px_db conn) (\<lambda>w. pgs w ?s)" and w1: "same w w1" and close: "same v (px_Close conn v)"
      and apart: "keeps (seed_same params secrets pgs {?s}) (dbinit_Ensure (px_db conn) dbs)" for v
      unfolding seed_conn_def by (blast intro: keeps_dbinit(2) seed_same_order)+
    have closed: "params (px_Close conn v) = params v" "secrets (px_Close conn v) = secrets v" "pgs (px_Close conn v) = pgs v" for v
      using close [of v] by (auto simp: seed_same_def fun_eq_iff)
    have "params w1 = params w" "secrets w1 = secrets w" "pgs w1 = pgs w"
      using w1 by (auto simp: seed_same_def fun_eq_iff)
    then have goes: "seed_same params secrets pgs {?s} w (px_Close conn v)" if "seed_same params secrets pgs {?s} w1 v" for v
      using that by (simp add: seed_same_def closed)
    note both = wp_conj [OF pg_server.wp_Ensure [OF conn names] pg_server.wp_Ensure_unlocked [OF conn names K]]
    show ?case unfolding wp_deferE
    proof (rule wp_weaken [OF wp_keeps [OF apart both]], assumption, assumption, goal_cases)
      case (1 _ v)
      then show ?case using goes [of v] kept [OF goes [of v]] by (simp add: closed \<open>pgs w1 = pgs w\<close>)
    next
      case (2 _ v)
      then show ?case using kept [OF goes [of v]] by (simp add: closed \<open>pgs w1 = pgs w\<close>)
    qed
  qed (rule same_kept)
qed

text \<open>The stored connection strings.\<close>

lemma wp_PutSecret:
  assumes "name \<notin> stable" "CHR ''/'' \<notin> set name"
  shows "wp (PutSecret (dp_store d) service name v)
     (\<lambda>_ w'. params w' = (params w)(Path (dp_store d) service name \<mapsto> v) \<and> secrets w' = secrets w \<and> pgs w' = pgs w \<and> kept w w')
     (\<lambda>_ w'. kept w w') w"
  unfolding PutSecret_def ssm_put_def Let_def stores wp_mapErr
  by (rule wp_weaken [OF wp_conj [OF wp_put wp_framed [OF framed_put [OF assms]]]]) auto

lemma kept_dsn:
  assumes "params w' = (params w)(dsn_path d service \<mapsto> v)" "right_dsn d (params w) service v" "secrets w' = secrets w" "pgs w' = pgs w"
  shows "kept w w'"
proof (rule kept_accounts)
  show "account_works d (params w') (pgs w') a" if a: "a \<in> seed_accounts (dp_cfg d)" "account_works d (params w) (pgs w) a" for a
    by (rule account_works_stays [OF a(2)]) (use a(1) assms(2) in \<open>auto simp: assms(1,4) right_dsn_def\<close>)
qed (auto simp: assms(1,3,4) map_le_def restrict_map_def)

lemma wp_PutDSN:
  assumes "right_dsn d (params w) service v"
  shows "wp (PutSecret (dp_store d) service ''postgres-dsn'' v)
     (\<lambda>_ w'. params w' = (params w)(dsn_path d service \<mapsto> v) \<and> secrets w' = secrets w \<and> pgs w' = pgs w \<and> kept w w')
     (\<lambda>_ w'. kept w w') w"
  unfolding PutSecret_def ssm_put_def Let_def stores wp_mapErr dsn_path_def
  by (rule wp_weaken [OF wp_put]) (use kept_dsn [OF _ assms] kept_id in \<open>auto simp: dsn_path_def\<close>)

abbreviation central_dsn :: "database \<Rightarrow> string" where
  "central_dsn db \<equiv> DSN (cfg_DBHost (dp_cfg d)) (cfg_DBPort (dp_cfg d)) (db_Name db) (db_Name db) (db_Password db) SSLRequire"

lemma wp_store_connection:
  assumes right: "right_dsn d (params w) (db_Name db) (central_dsn db)"
  shows "wp (store_connection d db)
     (\<lambda>_ w'. strings_stored d (params w') db
        \<and> (\<forall>p. p \<notin> {dsn_path d (db_Name db), creds_path d (db_Name db)} \<longrightarrow> params w' p = params w p)
        \<and> secrets w' = secrets w \<and> pgs w' = pgs w \<and> kept w w')
     (\<lambda>_ w'. kept w w') w"
proof -
  have names: "''db-creds-json'' \<notin> stable" "CHR ''/'' \<notin> set ''db-creds-json''" by (simp_all add: stable_def once_def)
  show ?thesis unfolding store_connection_def Let_def
  proof (rule wp_thenI [OF wp_PutDSN [OF right]], goal_cases)
    case (1 _ w1)
    then have w1: "params w1 = (params w)(dsn_path d (db_Name db) \<mapsto> central_dsn db)"
      "secrets w1 = secrets w" "pgs w1 = pgs w" and k1: "kept w w1"
      by blast+
    show ?case
    proof (rule wp_ifI)
      assume "db_Name db = ''plc''"
      show "wp (PutSecret (dp_store d) (db_Name db) ''db-creds-json'' (plc_credentials (dp_cfg d) db))
         (\<lambda>_ w'. strings_stored d (params w') db
            \<and> (\<forall>p. p \<notin> {dsn_path d (db_Name db), creds_path d (db_Name db)} \<longrightarrow> params w' p = params w p)
            \<and> secrets w' = secrets w \<and> pgs w' = pgs w \<and> kept w w') (\<lambda>_ w'. kept w w') w1"
        by (rule wp_weaken [OF wp_PutSecret [OF names], folded creds_path_def])
          (use w1 world_order_trans [OF orders(1) k1] in \<open>auto simp: strings_stored_def\<close>)
    next
      assume "db_Name db \<noteq> ''plc''"
      then show "wp (returnE ())
         (\<lambda>_ w'. strings_stored d (params w') db
            \<and> (\<forall>p. p \<notin> {dsn_path d (db_Name db), creds_path d (db_Name db)} \<longrightarrow> params w' p = params w p)
            \<and> secrets w' = secrets w \<and> pgs w' = pgs w \<and> kept w w') (\<lambda>_ w'. kept w w') w1"
        using w1 k1 by (simp add: wp_returnE strings_stored_def)
    qed
  qed
qed

lemma wp_storeConnectionStrings:
  assumes "distinct (map db_Name dbs)" "\<And>db. db \<in> set dbs \<Longrightarrow> right_dsn d (params w) (db_Name db) (central_dsn db)"
  shows "wp (storeConnectionStrings d dbs)
     (\<lambda>_ w'. (\<forall>db \<in> set dbs.
          strings_stored d (params w') db)
        \<and> (\<forall>p. p \<notin> dsn_path d ` db_Name ` set dbs \<union> creds_path d ` db_Name ` set dbs \<longrightarrow> params w' p = params w p)
        \<and> secrets w' = secrets w \<and> pgs w' = pgs w \<and> kept w w')
     (\<lambda>_ w'. kept w w') w"
  unfolding storeConnectionStrings_def using assms
proof (induction dbs arbitrary: w)
  case (Cons db dbs)
  then have new: "db_Name db \<notin> db_Name ` set dbs" and rest: "distinct (map db_Name dbs)"
    and right: "right_dsn d (params w) (db_Name db) (central_dsn db)" by auto
  have fresh: "dsn_path d (db_Name db) \<notin> dsn_path d ` db_Name ` set dbs \<union> creds_path d ` db_Name ` set dbs"
    "creds_path d (db_Name db) \<notin> dsn_path d ` db_Name ` set dbs \<union> creds_path d ` db_Name ` set dbs"
    using new by auto
  show ?case unfolding forE_Cons
  proof (rule wp_thenI [OF wp_store_connection [OF right]], goal_cases)
    case (1 _ w1)
    then have w1: "strings_stored d (params w1) db" "p \<notin> {dsn_path d (db_Name db), creds_path d (db_Name db)} \<Longrightarrow> params w1 p = params w p"
      "secrets w1 = secrets w" "pgs w1 = pgs w" and k1: "kept w w1" for p by blast+
    have right1: "right_dsn d (params w1) (db_Name db') (central_dsn db')" if "db' \<in> set dbs" for db'
      using Cons.prems(2) [of db'] that by (simp add: right_dsn_cong [where T = "params w" and T' = "params w1"] w1(2))
    show ?case
    proof (rule wp_weaken [OF Cons.IH [OF rest right1]], assumption, goal_cases)
      case (1 _ w2)
      then have outside: "p \<notin> dsn_path d ` db_Name ` set dbs \<union> creds_path d ` db_Name ` set dbs \<Longrightarrow> params w2 p = params w1 p" for p
        by simp
      have "params w2 (dsn_path d (db_Name db)) = params w1 (dsn_path d (db_Name db))"
        "params w2 (creds_path d (db_Name db)) = params w1 (creds_path d (db_Name db))"
        by (rule outside [OF fresh(1)], rule outside [OF fresh(2)])
      then have "strings_stored d (params w2) db" using w1(1) unfolding strings_stored_def by metis
      moreover have "params w2 p = params w p"
        if "p \<notin> dsn_path d ` db_Name ` set (db # dbs) \<union> creds_path d ` db_Name ` set (db # dbs)" for p
      proof -
        have "p \<notin> {dsn_path d (db_Name db), creds_path d (db_Name db)}"
          "p \<notin> dsn_path d ` db_Name ` set dbs \<union> creds_path d ` db_Name ` set dbs" using that by auto
        then show ?thesis using outside w1(2) by simp
      qed
      moreover have "secrets w2 = secrets w" "pgs w2 = pgs w" "\<forall>db \<in> set dbs. strings_stored d (params w2) db"
        using 1 w1(3,4) by auto
      moreover have "kept w w2" using world_order_trans [OF orders(1) k1] 1 by blast
      ultimately show ?case by simp
    qed (use world_order_trans [OF orders(1) k1] in blast)
  qed
qed (simp add: wp_returnE world_order_refl [OF orders(1)])

text \<open>The pandora database.\<close>

lemma wp_put_dsns:
  assumes "\<And>s v v'. (s, v) \<in> set xs \<Longrightarrow> (s, v') \<in> set xs \<Longrightarrow> v = v'" "\<And>s v. (s, v) \<in> set xs \<Longrightarrow> right_dsn d (params w) s v"
  shows "wp (forE (\<lambda>(service, dsn). PutSecret (dp_store d) service ''postgres-dsn'' dsn) xs)
     (\<lambda>_ w'. (\<forall>s v. (s, v) \<in> set xs \<longrightarrow> params w' (dsn_path d s) = Some v)
        \<and> (\<forall>p. p \<notin> dsn_path d ` fst ` set xs \<longrightarrow> params w' p = params w p) \<and> secrets w' = secrets w \<and> pgs w' = pgs w \<and> kept w w')
     (\<lambda>_ w'. kept w w') w"
  using assms
proof (induction xs arbitrary: w)
  case (Cons x xs)
  obtain s v where x: "x = (s, v)" by (cases x)
  have right: "right_dsn d (params w) s v" using Cons.prems(2) x by simp
  have rest: "\<And>s v v'. (s, v) \<in> set xs \<Longrightarrow> (s, v') \<in> set xs \<Longrightarrow> v = v'" using Cons.prems(1) by (meson list.set_intros(2))
  show ?case unfolding forE_Cons x prod.case
  proof (rule wp_thenI [OF wp_PutDSN [OF right]], goal_cases)
    case (1 _ w1)
    then have w1: "params w1 = (params w)(dsn_path d s \<mapsto> v)" "secrets w1 = secrets w" "pgs w1 = pgs w" and k1: "kept w w1" by blast+
    have right1: "right_dsn d (params w1) s' v'" if "(s', v') \<in> set xs" for s' v'
      using Cons.prems(2) [of s' v'] that right_dsn_cong [where T = "params w" and T' = "params w1" and d = d and service = s']
      by (simp add: w1(1))
    show ?case
    proof (rule wp_weaken [OF Cons.IH [OF rest right1]], assumption, assumption, assumption, goal_cases)
      case (1 _ w2)
      then have w2: "(s', v') \<in> set xs \<Longrightarrow> params w2 (dsn_path d s') = Some v'" "p \<notin> dsn_path d ` fst ` set xs \<Longrightarrow> params w2 p = params w1 p"
        "secrets w2 = secrets w1" "pgs w2 = pgs w1" "kept w1 w2" for s' v' p by blast+
      have "params w2 (dsn_path d s) = Some v"
      proof (cases "s \<in> fst ` set xs")
        case True
        then obtain v' where "(s, v') \<in> set xs" by auto
        moreover from this have "v' = v" using Cons.prems(1) [of s v' v] x by simp
        ultimately show ?thesis using w2(1) by simp
      next
        case False
        then have "dsn_path d s \<notin> dsn_path d ` fst ` set xs" by force
        then show ?thesis using w2(2) w1(1) by simp
      qed
      moreover have "params w2 p = params w p" if "p \<notin> dsn_path d ` fst ` set ((s, v) # xs)" for p
        using that w2(2) [of p] w1(1) by simp
      moreover have "(s', v') \<in> set ((s, v) # xs) \<Longrightarrow> params w2 (dsn_path d s') = Some v'" for s' v'
        using w2(1) [of s' v'] \<open>params w2 (dsn_path d s) = Some v\<close> by auto
      moreover have "secrets w2 = secrets w" "pgs w2 = pgs w" using w1(2,3) w2(3,4) by simp_all
      ultimately show ?case using world_order_trans [OF orders(1) k1 w2(5)] by blast
    qed (use world_order_trans [OF orders(1) k1] in blast)
  qed
qed (simp add: wp_returnE world_order_refl [OF orders(1)])

lemma pandora_ready_strings:
  assumes "database_ready (servers (server_of (db_Host target) (db_Port target))) (pandora_db d T)"
    and "\<And>r. r \<in> pandora_roles \<Longrightarrow> T (password_path d (ssmService r)) \<noteq> None"
    and "\<And>r. r \<in> pandora_roles \<Longrightarrow> T' (password_path d (ssmService r)) = T (password_path d (ssmService r))"
    and "\<And>r. r \<in> pandora_roles \<Longrightarrow> T' (dsn_path d (ssmService r)) = Some (pandora_dsn d T target r)"
  shows "pandora_ready d T' servers target"
proof -
  have "map (pandora_role d T') pandoraLoginRoles = map (pandora_role d T) pandoraLoginRoles"
    using assms(3) by (intro map_cong) (auto simp: pandora_role_def pandora_roles_def)
  moreover have "pandoraOwner \<in> pandora_roles" by (simp add: pandora_roles_def)
  ultimately have "pandora_db d T' = pandora_db d T" using assms(3) by (simp add: pandora_db_def)
  then show ?thesis using assms by (auto simp: pandora_ready_def pandora_dsn_def)
qed

lemma wp_seedPandora:
  assumes order: "\<And>xs. set (order xs) = set xs" and target: "cfg_Pandora (dp_cfg d) = Some target"
  shows "wp (seedPandora order env d target resp)
     (\<lambda>_ w'. kept w w' \<and> pandora_ready d (params w') (pgs w') target
        \<and> (\<forall>p. p \<notin> dsn_path d ` ssmService ` pandora_roles \<longrightarrow> params w p \<noteq> None \<longrightarrow> params w' p = params w p)
        \<and> secrets w' = secrets w \<and> (\<forall>s. pgs w' s = pgs w s \<or> (\<exists>D. pg_grows pandora_roles D (pgs w s) (pgs w' s))))
     (\<lambda>_ w'. kept w w') w"
  unfolding seedPandora_def
proof (rule wp_bindI [OF wp_ensure_password], simp add: pandora_services, goal_cases)
  case (1 pr w1)
  obtain p r1 where pr: "pr = (p, r1)" by (cases pr)
  then have w1: "params w1 (password_path d (ssmService pandoraOwner)) = Some p" "grown w w1" using 1 by simp_all
  show ?case unfolding pr prod.case
  proof (rule wp_bindI [OF wp_password_fold [where lab = fst and svc = "\<lambda>r. ssmService (fst r)"
          and mk = "\<lambda>r p. \<lparr>role_Name = fst r, role_Password = p, role_Settings = snd r\<rparr>"]], goal_cases)
    case (1 x acc resp)
    then show ?case by (cases x) simp
  next
    case (2 x)
    then show ?case by (auto simp: pandoraLoginRoles_def ssmService_def)
  next
    case (3 rr w2)
    obtain roles r2 where rr: "rr = (roles, r2)" by (cases rr)
    then have w2: "roles = map (pandora_role d (params w2)) pandoraLoginRoles" "grown w1 w2"
      "\<And>x. x \<in> set pandoraLoginRoles \<Longrightarrow> params w2 (password_path d (ssmService (fst x))) \<noteq> None"
      using 3 by (auto simp: pandora_role_def)
    have p2: "params w2 (password_path d (ssmService pandoraOwner)) = Some p" by (rule grown_some [OF w2(2) w1(1)])
    have db: "\<lparr>db_Name = pandoraDatabase, db_Owner = pandoraOwner, db_Password = p, db_LoginRoles = roles\<rparr> = pandora_db d (params w2)"
      using p2 w2(1) by (simp add: pandora_db_def)
    have passwords: "params w2 (password_path d (ssmService r)) \<noteq> None" if "r \<in> pandora_roles" for r
      using that p2 w2(3) by (auto simp: pandora_roles_def)
    have g2: "grown w w2" by (rule grown_trans [OF w1(2) w2(2)])
    note k2 = world_order_trans [OF orders(1) grown_kept [OF g2]]
    show ?case unfolding rr prod.case Let_def db
    proof (rule wp_thenI [OF wp_ensureDatabases [OF _ pandora_db_names(1,2)]], simp add: seed_targets_def assms(2), goal_cases)
      case (1 db' n q a)
      then show ?case using pandora_passwords [of "params w2" d, OF passwords] by simp
    next
      case (2 _ w3)
      let ?s = "server_of (db_Host target) (db_Port target)"
      from 2 have w3: "params w3 = params w2" "secrets w3 = secrets w2" "\<And>s. s \<noteq> ?s \<Longrightarrow> pgs w3 s = pgs w2 s"
        and ready: "database_ready (pgs w3 ?s) (pandora_db d (params w2))"
        and grows: "pg_grows pandora_roles (owner_of [pandora_db d (params w2)]) (pgs w2 ?s) (pgs w3 ?s)"
        unfolding pandora_db_names(3) by (simp_all add: seed_same_def)
      have k3: "kept w w3" by (rule k2) (use 2 in blast)
      have right: "right_dsn d (params w3) s v" if "(s, v) \<in> set (order (map_entries (pandoraDSNs target (pandora_db d (params w2)))))" for s v
        using that passwords right_pandora_dsn [OF _ _ assms(2)] unfolding order pandora_entries w3(1) by auto
      have functional: "v = v'" if "(s, v) \<in> set (order (map_entries (pandoraDSNs target (pandora_db d (params w2)))))"
          "(s, v') \<in> set (order (map_entries (pandoraDSNs target (pandora_db d (params w2)))))" for s v v'
        using that unfolding order by simp
      show ?case
      proof (rule wp_thenI [OF wp_put_dsns [OF functional right]], assumption, assumption, assumption, goal_cases)
        case (1 _ w4)
        then have dsn: "params w4 (dsn_path d (ssmService r)) = Some (pandora_dsn d (params w2) target r)" if "r \<in> pandora_roles" for r
          using that unfolding order pandora_entries by blast
        have "fst ` set (order (map_entries (pandoraDSNs target (pandora_db d (params w2))))) = ssmService ` pandora_roles"
          unfolding order pandora_entries by (simp add: image_image)
        then have w4: "p \<notin> dsn_path d ` ssmService ` pandora_roles \<Longrightarrow> params w4 p = params w3 p" "secrets w4 = secrets w3" "pgs w4 = pgs w3" for p
          using 1 by simp_all
        have "password_path d x \<notin> dsn_path d ` ssmService ` pandora_roles" for x by auto
        then have "pandora_ready d (params w4) (pgs w4) target"
          by (intro pandora_ready_strings [where T = "params w2"]) (use ready passwords w3 w4 dsn in auto)
        moreover have "params w4 p = params w p" if "p \<notin> dsn_path d ` ssmService ` pandora_roles" "params w p \<noteq> None" for p
          using w4(1) [OF that(1)] w3(1) g2 that(2) by (auto dest: map_le_Some)
        moreover have "pgs w4 s = pgs w s \<or> (\<exists>D. pg_grows pandora_roles D (pgs w s) (pgs w4 s))" for s
          using grows w3(3) [of s] w4(3) g2 by (cases "s = ?s") auto
        moreover have "kept w w4"
          by (rule world_order_trans [OF orders(1) k3]) (use 1 in blast)
        ultimately show ?case using w4(2) w3(2) g2 by (simp add: wp_returnE)
      qed (use world_order_trans [OF orders(1) k3] in blast)
    next
      case (3 e w3)
      then show ?case by (rule k2)
    qed
  next
    case (4 e w2)
    then show ?case using grown_kept [OF grown_trans [OF w1(2)]] by blast
  qed
qed (rule grown_kept)

text \<open>The deletion of the keys that were moved, at the very end.\<close>

abbreviation cleared :: "'w \<Rightarrow> 'w \<Rightarrow> bool" where
  "cleared w w' \<equiv> params w' |` (- legacy_params d) = params w |` (- legacy_params d) \<and> secrets w' = secrets w \<and> pgs w' = pgs w"

lemma cleared_order: "world_order cleared"
  by (auto simp: world_order_def intro!: reflpI transpI)

lemma cleared_param: "cleared w w' \<Longrightarrow> p \<notin> legacy_params d \<Longrightarrow> params w' p = params w p"
  by (metis ComplI restrict_in)

lemma cleared_kept: "kept w w'" if cleared: "cleared w w'"
proof (rule kept_accounts)
  show "account_works d (params w') (pgs w') a" if "account_works d (params w) (pgs w) a" for a
    by (rule account_works_stays [OF that]) (use cleared cleared_param [OF cleared paths_not_legacy(1)] cleared_param [OF cleared paths_not_legacy(2)] in auto)
  show "params w |` once_params d \<subseteq>\<^sub>m params w'"
    using cleared_param [OF cleared once_not_legacy] by (auto simp: map_le_def restrict_map_def split: if_splits)
qed (use cleared in \<open>auto simp: map_le_def restrict_map_def\<close>)

lemma framed_deleteMovedKeys:
  assumes "\<forall>spec \<in> set specs. set (legacyNames spec) \<subseteq> legacy_names"
  shows "framed cleared (deleteMovedKeys (ssm_legacyStore (dp_store d)) specs)"
proof -
  have "framed cleared (Delete (dp_store d) service names)" if names: "set names \<subseteq> legacy_names" for service names
  proof (rule framedI)
    fix w
    have apart: "keeps (\<lambda>w w'. secrets w' = secrets w \<and> pgs w' = pgs w) (Delete (dp_store d) service names)"
      by (rule keeps_Delete) (auto simp: stores ssm_apart world_order_def reflp_def transp_def)
    have paths: "Path (dp_store d) service ` set names \<subseteq> legacy_params d" using names by (auto simp: legacy_params_def)
    have outside: "params w |` (- S) |` (- legacy_params d) = params w |` (- legacy_params d)" if "S \<subseteq> Path (dp_store d) service ` set names" for S
      using that paths by (auto simp: restrict_map_def fun_eq_iff)
    have "wp (Delete (dp_store d) service names)
        (\<lambda>_ w'. params w' |` (- legacy_params d) = params w |` (- legacy_params d))
        (\<lambda>_ w'. params w' |` (- legacy_params d) = params w |` (- legacy_params d)) w"
      by (rule ssm.wp_Delete [OF stores(1)]) (simp_all only: outside subset_refl)
    from wp_keeps [OF apart this] show "wp (Delete (dp_store d) service names) (\<lambda>_ w'. cleared w w') (\<lambda>_ w'. cleared w w') w"
      by (rule wp_weaken) auto
  qed
  then show ?thesis unfolding deleteMovedKeys_def ssm_legacyStore_def legacyStore.select_convs
    using assms by (intro framed_intros cleared_order) blast+
qed

text \<open>What was made ready stays ready.\<close>

lemma consumer_ready_stays:
  assumes "consumer_ready d (params w) (pgs w) n"
    and "\<And>p. p \<in> {password_path d n, dsn_path d n, creds_path d n} \<Longrightarrow> params w p \<noteq> None \<Longrightarrow> params w' p = params w p"
    and "pgs w' s = pgs w s \<or> (\<exists>D R. pg_grows R D (pgs w s) (pgs w' s) \<and> n \<notin> R)" "s = server_of (cfg_DBHost (dp_cfg d)) (cfg_DBPort (dp_cfg d))"
  shows "consumer_ready d (params w') (pgs w') n"
proof -
  have same_password: "params w' (password_path d n) = params w (password_path d n)"
    using assms(1,2) by (simp add: consumer_ready_def)
  then have db: "consumer_db d (params w') n = consumer_db d (params w) n" by (simp add: consumer_db_def)
  have "strings_stored d (params w') (consumer_db d (params w) n)"
    using assms(1,2) by (simp add: consumer_ready_def strings_stored_def consumer_db_def)
  moreover have "database_ready (pgs w' s) (consumer_db d (params w) n)"
    using assms(3)
  proof
    assume "\<exists>D R. pg_grows R D (pgs w s) (pgs w' s) \<and> n \<notin> R"
    then obtain D R where grows: "pg_grows R D (pgs w s) (pgs w' s)" "n \<notin> R" by blast
    moreover have "roles_of (consumer_db d (params w) n) = [n]" by (simp add: roles_of_def consumer_db_def OwnerRole_def)
    ultimately show ?thesis
      using assms(1,4) by (intro database_ready_stable [OF _ grows(1)]) (simp_all add: consumer_ready_def)
  qed (use assms(1,4) in \<open>simp add: consumer_ready_def\<close>)
  ultimately show ?thesis using assms(1,4) same_password unfolding consumer_ready_def db by simp
qed

text \<open>The whole phase.\<close>

lemma wp_databases:
  "wp (bindE (seedDatabasePasswords env d resp) (\<lambda>(databases, resp).
       thenE (createDatabases (se_connect env) d databases) (thenE (storeConnectionStrings d databases) (k databases resp)))) Q (\<lambda>_ w'. kept u w') w"
  if u: "kept u w"
    and k: "\<And>dbs resp w'. kept u w' \<Longrightarrow> \<forall>n \<in> set databaseConsumers. consumer_ready d (params w') (pgs w') n \<Longrightarrow>
      wp (k dbs resp) Q (\<lambda>_ v. kept u v) w'"
proof (rule wp_bindI [OF wp_seedDatabasePasswords], goal_cases)
  case (1 res w1)
  obtain dbs r where res: "res = (dbs, r)" by (cases res)
  then have dbs: "dbs = map (consumer_db d (params w1)) databaseConsumers"
    and some: "\<And>n. n \<in> set databaseConsumers \<Longrightarrow> params w1 (password_path d n) \<noteq> None" and g1: "grown w w1"
    using 1 by auto
  note k1 = world_order_trans [OF orders(1) world_order_trans [OF orders(1) u grown_kept [OF g1]]]
  let ?s = "server_of (cfg_DBHost (dp_cfg d)) (cfg_DBPort (dp_cfg d))"
  have target: "db_Host (centralDB (dp_cfg d)) = cfg_DBHost (dp_cfg d)" "db_Port (centralDB (dp_cfg d)) = cfg_DBPort (dp_cfg d)"
    by (simp_all add: centralDB_def)
  show ?case unfolding res prod.case dbs createDatabases_def
  proof (rule wp_thenI [OF wp_ensureDatabases [OF _ consumer_db_names(1,2)]], simp add: seed_targets_def, goal_cases)
    case (1 db n p a)
    then show ?case using consumer_passwords [where T = "params w1"] some by fastforce
  next
    case (2 _ w2)
    then have w2: "kept w1 w2" "params w2 = params w1"
      and ready: "n \<in> set databaseConsumers \<Longrightarrow> database_ready (pgs w2 ?s) (consumer_db d (params w1) n)" for n
      unfolding target by (auto simp: seed_same_def list_all_iff)
    note k2 = world_order_trans [OF orders(1) k1 [OF w2(1)]]
    have right: "right_dsn d (params w2) (db_Name db) (central_dsn db)" if db: "db \<in> set (map (consumer_db d (params w1)) databaseConsumers)" for db
    proof -
      obtain n where n: "n \<in> set databaseConsumers" "db = consumer_db d (params w1) n" using db by auto
      then obtain p where "params w1 (password_path d n) = Some p" using some by blast
      from right_consumer_dsn [where T = "params w1", OF n(1) this] this show ?thesis by (simp add: w2(2) n(2) consumer_db_def)
    qed
    show ?case
    proof (rule wp_thenI [OF wp_storeConnectionStrings [OF consumer_db_names(3) right]], assumption, goal_cases)
      case (1 _ w3)
      have names: "db_Name ` set (map (consumer_db d (params w1)) databaseConsumers) = set databaseConsumers"
        by (simp add: image_image consumer_db_def)
      have w3: "\<And>n. n \<in> set databaseConsumers \<Longrightarrow> strings_stored d (params w3) (consumer_db d (params w1) n)"
        "\<And>p. p \<notin> dsn_path d ` set databaseConsumers \<union> creds_path d ` set databaseConsumers \<Longrightarrow> params w3 p = params w2 p"
        "pgs w3 = pgs w2" "secrets w3 = secrets w2"
        using 1 unfolding names by auto
      have password: "params w3 (password_path d n) = params w1 (password_path d n)" for n
      proof -
        have "password_path d n \<notin> dsn_path d ` set databaseConsumers \<union> creds_path d ` set databaseConsumers" by auto
        from w3(2) [OF this] w2(2) show ?thesis by simp
      qed
      have k3: "kept u w3"
        by (rule k2) (use 1 in blast)
      have "consumer_ready d (params w3) (pgs w3) n" if n: "n \<in> set databaseConsumers" for n
      proof -
        have "consumer_db d (params w3) n = consumer_db d (params w1) n" by (simp add: consumer_db_def password)
        then show ?thesis using some [OF n] ready [OF n] w3(1) [OF n] w3(3) password by (simp add: consumer_ready_def)
      qed
      then show ?case by (intro k [OF k3]) blast
    qed (use k2 in blast)
  next
    case (3 e w2)
    then show ?case by (rule k1)
  qed
qed (use world_order_trans [OF orders(1) u grown_kept] in blast)

lemma wp_seedPhase:
  assumes order: "\<And>xs. set (order xs) = set xs"
  shows "wp (seedPhase order env d)
     (\<lambda>_ w'. kept w w' \<and> (\<forall>n \<in> set databaseConsumers. consumer_ready d (params w') (pgs w') n)
        \<and> (\<forall>target. cfg_Pandora (dp_cfg d) = Some target \<longrightarrow> pandora_ready d (params w') (pgs w') target))
     (\<lambda>_ w'. kept w w') w"
    (is "wp _ ?Q ?E w")
proof -
  note trans = world_order_trans [OF orders(1)]
  have finish: "wp (bindE (case cfg_Pandora (dp_cfg d) of
          None \<Rightarrow> returnE resp
        | Some target \<Rightarrow> bindE (seedPandora order env d target resp) (\<lambda>resp. returnE (g resp))) (\<lambda>resp.
      thenE (deleteMovedKeys (ssm_legacyStore (dp_store d)) moved) (returnE resp))) ?Q ?E w3"
    if k3: "kept w w3" and ready: "\<forall>n \<in> set databaseConsumers. consumer_ready d (params w3) (pgs w3) n"
      and moved: "\<forall>spec \<in> set moved. set (legacyNames spec) \<subseteq> legacy_names" for resp g moved w3
  proof -
    have pandora: "wp (case cfg_Pandora (dp_cfg d) of
          None \<Rightarrow> returnE resp
        | Some target \<Rightarrow> bindE (seedPandora order env d target resp) (\<lambda>resp. returnE (g resp)))
      (\<lambda>_ w4. kept w w4 \<and> (\<forall>n \<in> set databaseConsumers. consumer_ready d (params w4) (pgs w4) n)
        \<and> (\<forall>target. cfg_Pandora (dp_cfg d) = Some target \<longrightarrow> pandora_ready d (params w4) (pgs w4) target)) ?E w3"
    proof (cases "cfg_Pandora (dp_cfg d)")
      case None
      then show ?thesis using k3 ready by (simp add: wp_returnE)
    next
      case (Some target)
      show ?thesis unfolding Some option.case
      proof (rule wp_bindI [OF wp_seedPandora [OF order Some]], goal_cases)
        case (1 resp' w4)
        have "consumer_ready d (params w4) (pgs w4) n" if n: "n \<in> set databaseConsumers" for n
        proof (rule consumer_ready_stays [OF bspec [OF ready n] _ _ refl])
          show "params w4 p = params w3 p" if "p \<in> {password_path d n, dsn_path d n, creds_path d n}" "params w3 p \<noteq> None" for p
          proof -
            have "p \<notin> dsn_path d ` ssmService ` pandora_roles" using that(1) consumer_apart(2) [OF n] by auto
            then show ?thesis using 1 that(2) by blast
          qed
        qed (use 1 consumer_apart(1) [OF n] in blast)
        then show ?case using 1 Some trans [OF k3] by (simp add: wp_returnE)
      qed (use trans [OF k3] in blast)
    qed
    show ?thesis
    proof (rule wp_bindI [OF pandora], goal_cases)
      case (1 resp' w4)
      show ?case
      proof (rule wp_thenI [OF wp_framed [OF framed_deleteMovedKeys [OF moved]]], goal_cases)
        case (1 _ w5)
        note stays = cleared_param [OF 1]
        have "consumer_ready d (params w5) (pgs w5) n" if "n \<in> set databaseConsumers" for n
          by (rule consumer_ready_stays [of w4, OF _ _ _ refl])
            (use \<open>kept w w4 \<and> _\<close> that 1 stays in \<open>auto simp: paths_not_legacy\<close>)
        moreover have "pandora_ready d (params w5) (pgs w5) target" if "cfg_Pandora (dp_cfg d) = Some target" for target
        proof -
          have old: "pandora_ready d (params w4) (pgs w4) target" using \<open>kept w w4 \<and> _\<close> that by blast
          then have "database_ready (pgs w5 (server_of (db_Host target) (db_Port target))) (pandora_db d (params w4))"
            "r \<in> pandora_roles \<Longrightarrow> params w4 (dsn_path d (ssmService r)) = Some (pandora_dsn d (params w4) target r)"
            "r \<in> pandora_roles \<Longrightarrow> params w4 (password_path d (ssmService r)) \<noteq> None" for r
            using 1 by (simp_all add: pandora_ready_def pandora_dsn_def)
          then show ?thesis by (intro pandora_ready_strings [where T = "params w4"]) (simp_all add: stays paths_not_legacy)
        qed
        moreover have "kept w w5" by (rule trans [OF _ cleared_kept [OF 1]]) (use \<open>kept w w4 \<and> _\<close> in blast)
        ultimately show ?case by (simp add: wp_returnE)
      next
        case (2 e w5)
        then show ?case using trans [OF _ cleared_kept [OF 2]] \<open>kept w w4 \<and> _\<close> by blast
      qed
    qed
  qed
  have none: "moved_ok \<lparr>ss_resp = response_of ''seed'', ss_moved = [], ss_fresh = []\<rparr>" by (simp add: moved_ok_def)
  have identities: "yields moved_ok (seedIdentities env d s)" if "moved_ok s" for s
    unfolding seedIdentities_def by (rule yields_foldE) (use yields_seed_identity that in auto)
  have wallets: "yields moved_ok (seedWallets env d s)" if "moved_ok s" for s
    unfolding seedWallets_def by (rule yields_foldE) (use yields_seed_wallet that in auto)
  show ?thesis unfolding seedPhase_def
  proof (rule wp_bindI [OF wp_framed_yields [OF framed_seedIdentities identities [OF none]]], goal_cases)
    case (1 s w1)
    then have s: "moved_ok s" and k1: "kept w w1" by blast+
    show ?case
    proof (rule wp_bindI [OF wp_framed_from [OF orders(1) framed_seedProofs k1]], goal_cases)
      case (1 resp w2)
      have s': "moved_ok (s\<lparr>ss_resp := resp\<rparr>)" using s by simp
      show ?case
      proof (rule wp_bindI [OF wp_framed_yields [OF framed_seedWallets wallets [OF s']]], goal_cases)
        case (1 t w3)
        then have t: "\<forall>spec \<in> set (ss_moved t). set (legacyNames spec) \<subseteq> legacy_names" and k3: "kept w w3"
          using trans [OF \<open>kept w w2\<close>] by (auto simp: moved_ok_def)
        show ?case
        proof (rule wp_bindI [OF wp_framed_from [OF orders(1) framed_seedRandomSecrets k3]], goal_cases)
          case (1 resp w4)
          show ?case
            unfolding Let_def by (rule wp_databases [OF 1]) (rule finish [OF _ _ t])
        qed
      qed (use trans [OF \<open>kept w w2\<close>] in blast)
    qed
  qed
qed

end

end
