(* ===== verification/SeedWorld.thy ===== *)
theory SeedWorld
imports SeedStage OnboardFakes
begin

text \<open>
  A whole stage in memory, with one Postgres server per address, on which \<open>seed_stage\<close> is interpreted, and the
  properties of the seed phase.
\<close>

section \<open>The stage in memory\<close>

text \<open>SSM, Secrets Manager and the Postgres servers, by the address they listen on.\<close>

type_synonym seed_world = "fake_ssm \<times> fake_secrets \<times> (string \<Rightarrow> fake_pg)"

definition at_server :: "string \<Rightarrow> (fake_pg, 'a) act \<Rightarrow> (seed_world, 'a) act" where
  "at_server s m w = (let (r, p) = m (snd (snd w) s) in (r, (fst w, fst (snd w), (snd (snd w))(s := p))))"

definition server_conn :: "string \<Rightarrow> fake_pg pg_conn \<Rightarrow> seed_world pg_conn" where
  "server_conn s conn =
     \<lparr>pg_Exec = (\<lambda>sql. at_server s (pg_Exec conn sql)), pg_QueryBool = (\<lambda>sql n. at_server s (pg_QueryBool conn sql n)),
      pg_QueryText = (\<lambda>sql n. at_server s (pg_QueryText conn sql n)), pg_Sanitize = pg_Sanitize conn\<rparr>"

definition bad_dsn :: go_error where
  "bad_dsn = Errorf ''cannot parse the connection string''"

text \<open>Dialling: the server the connection string names.\<close>

definition seed_connect :: "seed_world pgx_Connect" where
  "seed_connect dsn =
     (case url_Parse dsn of
        None \<Rightarrow> failE bad_dsn
      | Some (_, _, server, _, _) \<Rightarrow> returnE
          \<lparr>px_querier = \<lparr>qr_QueryText = (\<lambda>_ _. failE bad_dsn), qr_QueryCount = (\<lambda>_ _. failE bad_dsn), qr_Query = (\<lambda>_ _. failE bad_dsn)\<rparr>,
           px_db = server_conn server fake_pg_conn, px_Begin = failE bad_dsn, px_Close = (\<lambda>w. w)\<rparr>)"

definition seed_pgs :: "seed_world \<Rightarrow> string \<Rightarrow> pg_state" where
  "seed_pgs w s = fp_state (snd (snd w) s)"

definition seed_params :: "seed_world \<Rightarrow> string \<Rightarrow> string option" where
  "seed_params w = fake_held (fst w)"

definition seed_secrets :: "seed_world \<Rightarrow> string \<Rightarrow> secret option" where
  "seed_secrets w = fake_secrets_held (fst (snd w))"

definition mid_secrets :: "seed_world secrets_api" where
  "mid_secrets =
     snd_secrets_api
       \<lparr>GetSecretValue = (\<lambda>i. on_fst (GetSecretValue fake_secrets_api i)), CreateSecret = (\<lambda>n v. on_fst (CreateSecret fake_secrets_api n v)),
        PutSecretValue = (\<lambda>i v. on_fst (PutSecretValue fake_secrets_api i v))\<rparr>"

definition seed_deps :: "seed_world deps" where
  "seed_deps =
     \<lparr>dp_cfg = test_config\<lparr>cfg_Pandora := Some \<lparr>db_Host = ''pandora'', db_Port = 5432, db_MasterSecret = ''arn''\<rparr>\<rparr>,
      dp_store = \<lparr>ssm_client = fst_ssm_api fake_ssm_api, ssm_stage = ''dev''\<rparr>,
      dp_keys = \<lparr>sec_client = mid_secrets, sec_stage = ''dev''\<rparr>, dp_secrets = mid_secrets\<rparr>"

definition seed_libs :: "(seed_world, string, string) seed_env" where
  "seed_libs =
     \<lparr>se_signers = \<lparr>ed25519_Generate = returnE ''signer'', DecodeSignerFromPEM = Inr, EncodeSignerToPEM = Inr,
        FormatSigner = (\<lambda>s. s), signer_DID = (\<lambda>s. ''did:key:'' @ s)\<rparr>,
      se_wallets = \<lparr>secec_GenerateKey = returnE ''key'', secec_NewPrivateKey = Inr, secec_Bytes = (\<lambda>k. k),
        secec_PublicKey = (\<lambda>k. replicate 65 (CHR 0x04)), keccak256 = (\<lambda>s. replicate 32 (CHR 0xAB))\<rparr>,
      se_rand = (\<lambda>n. returnE (replicate n (CHR 0x07))),
      se_delegate = \<lparr>IssueFromPEM = (\<lambda>_ _. returnE \<lparr>ut_IsText = True, ut_Bytes = [], ut_Text = Inr ''proof''\<rparr>),
        dg_Commands = (\<lambda>_. Inr [])\<rparr>,
      se_connect = seed_connect\<rparr>"

lemma at_server_wp:
  "wp (at_server s m) Q E w
     = wp m (\<lambda>a p. Q a (fst w, fst (snd w), (snd (snd w))(s := p))) (\<lambda>e p. E e (fst w, fst (snd w), (snd (snd w))(s := p)))
         (snd (snd w) s)"
  by (simp add: wp_def at_server_def Let_def split: prod.split)

lemma at_server_apart: "keeps (seed_same seed_params seed_secrets seed_pgs {s}) (at_server s m)"
  by (simp add: keeps_def seed_same_def at_server_def Let_def case_prod_beta seed_params_def seed_secrets_def seed_pgs_def fun_eq_iff)

lemma server_conn_server: "pg_server (server_conn s fake_pg_conn) (\<lambda>w. seed_pgs w s)"
  by unfold_locales (unfold server_conn_def pg_conn.select_convs at_server_wp seed_pgs_def fst_conv snd_conv fun_upd_same,
    (rule fake_pg.role_exists fake_pg.database_exists fake_pg.database_owner fake_pg.create_role fake_pg.set_password
      fake_pg.set_setting fake_pg.grant fake_pg.create_database fake_pg.drop_database; assumption?)+)

lemma mid_secrets_service: "secrets_service mid_secrets seed_secrets"
  unfolding mid_secrets_def seed_secrets_def [abs_def]
  by unfold_locales
    (auto simp: on_snd_eq on_fst_eq
      intro: fake_secrets.get_grows fake_secrets.create_grows
      dest: fake_secrets.get_returns fake_secrets.get_Ok fake_secrets.get_absent fake_secrets.create_returns
        fake_secrets.create_Ok fake_secrets.create_exists fake_secrets.get_frame fake_secrets.create_Ok_eq
        fake_secrets.create_exists_eq fake_secrets.create_Fail_eq fake_secrets.write_returns
        fake_secrets.write_Ok fake_secrets.write_Fail)

lemma seed_connect_laws:
  assumes "list_all host_char host"
  shows "wp (seed_connect (AdminDSN host port admin user password))
      (\<lambda>conn w'. seed_conn seed_params seed_secrets seed_pgs (server_of host port) conn \<and> seed_same seed_params seed_secrets seed_pgs {} w w')
      E w"
proof -
  have "url_Parse (AdminDSN host port admin user password) = Some (user, password, server_of host port, admin, ''sslmode='' @ SSLRequire)"
    unfolding AdminDSN_def server_of_def by (rule url_Parse_connectionString [OF assms]) (simp add: SSLRequire_def)
  then show ?thesis
    using server_conn_server
    by (simp add: seed_connect_def wp_returnE seed_conn_def world_order_refl [OF seed_same_order] server_conn_def at_server_apart)
qed

interpretation fake_seed: seed_stage "fst_ssm_api fake_ssm_api" seed_params fake_pages mid_secrets seed_secrets seed_libs seed_deps seed_pgs
proof (intro seed_stage.intro)
  show "ssm_service (fst_ssm_api fake_ssm_api) seed_params fake_pages"
    using fst_ssm_service by (simp add: seed_params_def [abs_def])
  show "secrets_service mid_secrets seed_secrets" by (rule mid_secrets_service)
  show "seed_stage_axioms (fst_ssm_api fake_ssm_api) seed_params mid_secrets seed_secrets seed_libs seed_deps seed_pgs"
  proof (unfold_locales, goal_cases)
    case (16 target admin user password w)
    then have "list_all host_char (db_Host target)"
      by (auto simp: seed_targets_def seed_deps_def centralDB_def test_config_def host_char_def is_alnum_def)
    then show ?case unfolding seed_libs_def seed_env.select_convs by (rule seed_connect_laws)
  qed (auto simp: seed_deps_def seed_libs_def keeps_def on_fst_def on_snd_def Let_def case_prod_beta seed_params_def seed_secrets_def seed_pgs_def
      mid_secrets_def plain_stage_def intro!: framed_intros seed_same_order)
qed

section \<open>Properties\<close>

text \<open>A connection string that logs a user in to a database of a server.\<close>

definition logs_in :: "(string \<Rightarrow> pg_state) \<Rightarrow> string \<Rightarrow> string \<Rightarrow> string \<Rightarrow> string \<Rightarrow> bool" where
  "logs_in servers dsn user server database \<longleftrightarrow>
     (\<exists>password query. url_Parse dsn = Some (user, password, server, database, query)
        \<and> role_ready (servers server) user password \<and> pg_dbs (servers server) database \<noteq> None)"

lemma logs_in_DSN:
  assumes "list_all host_char host" "mode \<in> {SSLRequire, SSLVerifyFull}" "role_ready (servers (server_of host port)) user password"
    and "pg_dbs (servers (server_of host port)) database \<noteq> None"
  shows "logs_in servers (DSN host port database user password mode) user (server_of host port) database"
proof -
  have "CHR ''#'' \<notin> set mode" using assms(2) by (auto simp: SSLRequire_def SSLVerifyFull_def)
  from url_Parse_connectionString [OF assms(1) this] show ?thesis
    using assms(3,4) by (auto simp: logs_in_def DSN_def server_of_def)
qed

lemma account_logs_in:
  assumes "account_works d T servers a" "pg_dbs (servers (account_server a)) (ac_database a) \<noteq> None"
    and "a \<in> seed_accounts (dp_cfg d)" "list_all host_char (db_Host (ac_target a))"
  shows "\<exists>dsn. T (dsn_path d (ac_service a)) = Some dsn \<and> logs_in servers dsn (ac_role a) (account_server a) (ac_database a)"
proof -
  have "ac_mode a \<in> {SSLRequire, SSLVerifyFull}" using assms(3) by (auto simp: seed_accounts_def)
  then show ?thesis
    using assms(1,2,4) unfolding account_works_def account_dsn_def account_server_def by (blast intro: logs_in_DSN)
qed

lemma accounts_work:
  assumes "\<forall>n \<in> set databaseConsumers. consumer_ready d T servers n"
    and "\<forall>target. cfg_Pandora (dp_cfg d) = Some target \<longrightarrow> pandora_ready d T servers target" and a: "a \<in> seed_accounts (dp_cfg d)"
  shows "account_works d T servers a" "pg_dbs (servers (account_server a)) (ac_database a) \<noteq> None"
proof -
  have "account_works d T servers a \<and> pg_dbs (servers (account_server a)) (ac_database a) \<noteq> None"
  proof (cases "ac_role a \<in> pandora_roles")
    case False
    then obtain n where n: "n \<in> set databaseConsumers"
      "a = \<lparr>ac_service = n, ac_role = n, ac_database = n, ac_target = centralDB (dp_cfg d), ac_mode = SSLRequire\<rparr>"
      using a by (auto simp: seed_accounts_def)
    with assms(1) have "consumer_ready d T servers n" by blast
    then show ?thesis
      by (auto simp: n(2) account_works_def account_dsn_def account_server_def centralDB_def consumer_ready_def strings_stored_def
          consumer_db_def database_ready_def OwnerRole_def)
  next
    case True
    then obtain target where target: "cfg_Pandora (dp_cfg d) = Some target"
      "a = \<lparr>ac_service = ssmService (ac_role a), ac_role = ac_role a, ac_database = pandoraDatabase, ac_target = target, ac_mode = SSLVerifyFull\<rparr>"
      using a consumer_apart(1) by (auto simp: seed_accounts_def)
    then have ready: "pandora_ready d T servers target" using assms(2) by blast
    let ?s = "servers (server_of (db_Host target) (db_Port target))"
    have "role_ready ?s (ac_role a) (the (T (password_path d (ssmService (ac_role a)))))" "pg_dbs ?s pandoraDatabase \<noteq> None"
      using ready True by (auto simp: pandora_ready_def database_ready_def pandora_db_def pandora_role_def OwnerRole_def pandora_roles_def
          pandoraOwner_def login_ready_def role_ready_def list_all_iff)
    then show ?thesis using ready True
      by (subst target(2), subst (2) target(2), subst (3) target(2))
        (auto simp: account_works_def account_dsn_def account_server_def pandora_ready_def)
  qed
  then show "account_works d T servers a" "pg_dbs (servers (account_server a)) (ac_database a) \<noteq> None" by blast+
qed

text \<open>Any number of later runs of the phase, each of which may fail.\<close>

inductive seed_history :: "('w, 's, 'k) seed_env \<Rightarrow> 'w deps \<Rightarrow> 'w \<Rightarrow> 'w \<Rightarrow> bool" for env d w where
  start: "seed_history env d w w"
| run: "seed_history env d w w'" if "seed_history env d w u" "\<And>xs. set (order xs) = set xs" "seedPhase order env d u = (r, w')"

lemma seed_history_keeps:
  assumes "seed_stage papi params pages sapi secrets env d pgs" "seed_history env d w w'"
  shows "seed_keeps d params secrets pgs w w'"
  using assms(2)
proof (induction rule: seed_history.induct)
  case start
  show ?case by (rule world_order_refl [OF seed_keeps_order])
next
  case (run u order r w')
  have "wp (seedPhase order env d) (\<lambda>_ w'. seed_keeps d params secrets pgs u w') (\<lambda>_ w'. seed_keeps d params secrets pgs u w') u"
    by (rule wp_weaken [OF seed_stage.wp_seedPhase [OF assms(1) run(2)]]) simp_all
  with run(3) have "seed_keeps d params secrets pgs u w'" by (auto simp: wp_def split: result.splits)
  then show ?case by (rule world_order_trans [OF seed_keeps_order run(4)])
qed

lemma seed_targets_hosts:
  assumes "\<And>target. target \<in> seed_targets cfg \<Longrightarrow> list_all host_char (db_Host target)" "a \<in> seed_accounts cfg"
  shows "list_all host_char (db_Host (ac_target a))"
  using assms by (auto simp: seed_targets_def seed_accounts_def)




text \<open>A new stage with the master secret, and a password from an earlier run.\<close>

definition new_stage :: seed_world where
  \<open>new_stage =
     (fake_with [(''/forge-central/dev/hilt/postgres-password'', ''abc123'')],
      fake_secrets_with [(''arn'', ''{"password":"m4ster","username":"forge"}'')],
      \<lambda>_. (test_pg False)\<lparr>fp_state := \<lparr>pg_roles = Map.empty, pg_dbs = Map.empty, pg_admin = {}\<rparr>\<rparr>)\<close>

definition hilt_account :: account where
  "hilt_account =
     \<lparr>ac_service = ''hilt'', ac_role = ''hilt'', ac_database = ''hilt'', ac_target = centralDB (dp_cfg seed_deps), ac_mode = SSLRequire\<rparr>"




end
