(* ===== verification/Spec2Isabelle.thy ===== *)
theory Spec2Isabelle
imports Returns Responses ResetStage PiriWallet SeedWorld
begin

text \<open>
  The provisioning Lambda of infra-central, \<open>cmd/provision\<close> with \<open>internal/\<close>: a model of the Go code and its
  correctness.

  \<^bold>\<open>The program.\<close> One function, \<open>handle\<close>, runs one phase per event. \<open>seed\<close> mints keys, delegations,
  passwords and databases. \<open>vault\<close> brings OpenBao up and reconciles the appliances' transit keys with the list of
  regions. \<open>appliance-token\<close> mints a region's unseal token. \<open>onboard\<close> admits a regional appliance to DynamoDB,
  sprue and hilt. \<open>fund\<close> sends the payer's three transactions. \<open>retire\<close> removes a region's identity from hilt's
  database. \<open>reset-apps\<close> wipes the apps on dev and staging. Any of them may be stopped anywhere and is run
  again, possibly beside another run. So what matters is the order of the writes, what a failed run
  leaves, and that a second run neither loses nor rotates anything.

  \<^bold>\<open>The model.\<close> An operation is an action: a function from the world to a result and the world after it
  (\<open>('w, 'a) act\<close>, theory \<open>Go_Base\<close>). A result is a value, an error, or \<open>Hang\<close>, which stands for a call that does not
  return and for a panic. A failed action keeps the effects it had. The world is a type variable: what
  the code calls outside \<open>src/\<close> is a record of actions over it (the AWS, OpenBao, pgx, go-ethereum, UCAN and key
  libraries), so a theorem holds for every world whose services keep the laws it names. An error is a
  tree with the texts the code builds and the typed errors that \<open>errors.Is\<close> and \<open>errors.As\<close> find in it. Strings are
  byte strings, machine integers are words or carry their bound, a Go map is an association list with
  distinct keys, and where the order in which Go walks a map is visible the walk is the argument \<open>order\<close>. Logging and
  tracing are left out.

  \<^bold>\<open>The theories, in the order of the code.\<close>

  \<^item> \<open>Go_Base\<close>: actions, their combinators, the weakest preconditions \<open>wp m Q E w\<close> (the action returns, a value
    with \<open>Q\<close> or an error with \<open>E\<close>), the frames \<open>keeps R m\<close>, strings, maps. \<open>Numerals\<close>, \<open>Encodings\<close>, \<open>Json\<close>: \<open>strconv\<close>, \<open>big.Int\<close>,
    hex, base64 and \<open>encoding/json\<close> as far as they are used.
  \<^item> \<open>SsmStore\<close>: \<open>internal/ssmstore\<close>; \<open>SecretStore\<close>: \<open>internal/secretstore\<close>. \<open>Keys\<close>: \<open>keys.go\<close>, the move of private keys from SSM to Secrets Manager.
  \<^item> \<open>Config\<close>: \<open>config.go\<close>, \<open>hostname.go\<close>, \<open>appliance.go\<close>. \<open>Amount\<close>, \<open>Fund\<close>: \<open>internal/fund\<close>; \<open>Provision\<close>: the event, the response, \<open>deps\<close> and \<open>fund.go\<close>.
  \<^item> \<open>Keygen\<close>, \<open>PiriWallet\<close>, \<open>Proofs\<close>: \<open>internal/keygen\<close>.
  \<^item> \<open>Onboard\<close>: \<open>internal/onboard/onboard.go\<close>; \<open>PiriRecord\<close>: \<open>pirirecord.go\<close>; \<open>OnboardClients\<close>: the adapters \<open>allowlist.go\<close>, \<open>sprue.go\<close> and \<open>hilt.go\<close>;
    \<open>OnboardFakes\<close>: in-memory services and the properties; \<open>OnboardPhase\<close>: \<open>cmd/provision/onboard.go\<close>.
  \<^item> \<open>DbInit\<close>: \<open>internal/dbinit\<close>. \<open>Retire\<close>: \<open>retire.go\<close>. \<open>Seed\<close>: \<open>seed.go\<close>. \<open>ResetApps\<close>: \<open>resetapps.go\<close>.
  \<^item> \<open>Vault\<close>: \<open>internal/vaultinit\<close>; \<open>VaultPhase\<close>: \<open>vault.go\<close> and \<open>appliancetoken.go\<close>. \<open>Main_Handle\<close>: \<open>handle\<close> of \<open>main.go\<close>.
  \<^item> \<open>Frames\<close>: what an action yields, and the relation \<open>framed R m\<close> (the action returns and keeps \<open>R\<close>). \<open>BaoServer\<close>, \<open>Appliances\<close>, \<open>HiltDb\<close>,
    \<open>HiltSecrets\<close>, \<open>ResetStage\<close>, \<open>Unlocked\<close>, \<open>SeedStage\<close>, \<open>SeedWorld\<close>, \<open>DryRun\<close>, \<open>Returns\<close>, \<open>Responses\<close>: no code of their own. They hold the laws of OpenBao and
    Postgres, and what follows for whole phases.

  \<^bold>\<open>The interfaces.\<close> What a component relies on is a locale, with the client's lemmas inside. \<open>ssm_shared\<close> and
  \<open>secrets_shared\<close> allow other runs to create entries at any moment; \<open>ssm_service\<close> and \<open>secrets_service\<close> extend them
  for a run that is alone, with exact effects and failures that may have been applied. \<open>key_stores\<close> is what the move
  of keys needs, \<open>key_stores_alone\<close> adds that no other run writes, and \<open>stage_shared\<close> gives the first from the two stores
  (\<open>sublocale\<close>). \<open>public_store\<close> is what the region records need, which \<open>ssm_publics\<close> gives; \<open>onboarding\<close> is what \<open>Apply\<close> needs
  of its clients; \<open>eth_chain\<close> is the chain; \<open>appliance_proofs\<close> is SSM beside the issuer of delegations. \<open>pg_server\<close> is a Postgres server seen by
  \<open>dbinit\<close>, \<open>bao_waits\<close> and \<open>bao_server\<close> are OpenBao's clock and its keys, policies, roles and tokens, \<open>tenant_secrets\<close> is its
  key-value store. \<open>vault_stage\<close>, \<open>retire_stage\<close>, \<open>reset_stage\<close> and \<open>seed_stage\<close> put several of them side by side, each leaving the others
  alone. \<open>read_only\<close> collects the calls that only read, \<open>returning\<close> what is asked of every call so that a run ends. Every locale is interpreted on in-memory services
  (the \<open>fake_\<close> definitions), through the repository's own stores and adapters wherever those are the provider.

  \<^bold>\<open>What is shown.\<close> The stores and the keys: a parameter or a secret that exists is never overwritten by an
  \<open>Ensure\<close>, concurrent runs agree on one value, deletions take exactly what they name, and the move of a key never
  loses it. Onboarding: every run leaves the region onboarded or keeps the invariant that makes the next run finish,
  a blocked plan writes nothing, and a plan is empty exactly when the region is onboarded. Funding: amounts parse as
  the decimal they spell, \<open>Prepare\<close> signs nothing, \<open>Execute\<close> sends exactly the planned transactions in order. dbinit: nothing is
  sent to the server unless every password and setting is safe to splice into SQL, every database ends up ready,
  and nothing else changes. OpenBao: the wait ends in time, the reconciliation leaves the keys of the live regions, a
  token that is replaced stays live and on record until its successor is, the walk over hilt's secrets misses
  none. Whole phases: what a retirement and a reset leave, also when they fail, that a seed never rotates what it once
  minted and leaves every service with a connection string that logs it in, which stays so through all later
  seeds, failed ones too (\<open>seed_history\<close>), and that an event which is not confirmed writes nothing. The handler: it always ends, with an error or with a response that reports what its phase
  reports. Round trips: amounts, region records, wallets, proofs, connection strings.

  \<^bold>\<open>Fuel and bounds.\<close> \<open>pages\<close> bounds the pages of an SSM listing; the laws give the finite list of pages, and a
  property asks for at least as much fuel. \<open>depth\<close> bounds the nesting of hilt's folders; a property asks for more than
  any path has slashes. \<open>wait_fuel\<close> is the budget over the interval of three seconds, and two more: each poll
  sleeps an interval, so the deadline comes first (\<open>wait_unsealed_fuel\<close>). The JSON reader takes two calls per
  byte and two more; its nesting is limited to 10000 as in Go. Everything else recurs on its data.

  \<^bold>\<open>Not modelled.\<close> \<open>main\<close>, which only starts the Lambda runtime, and the retry tuning of the SSM client, both
  calls into AWS libraries. Contexts, but for their deadlines. The wording of JSON syntax errors and of the
  libraries' own errors. The tests' fakes, but for those that interpret a locale. Terraform, scripts and
  container builds are not Go. What a database holds besides its owner: that a reset empties a database is
  that it drops it, which the response says and \<open>DbInit\<close> shows of the drop.
\<close>

end
